theory Spec2Isabelle
  imports Complex_Main "HOL-Library.Product_Lexorder" "HOL-Library.Log_Nat"
begin

section \<open>Strings and Python/SQL value conventions\<close>

text \<open>
  Python \<^verbatim>\<open>str\<close> values and SQL \<^verbatim>\<open>VARCHAR\<close> values are modelled as
  \<^typ>\<open>string\<close>; a character is a code point below 256. Case mapping is the ASCII one.
  Database decimals are modelled as exact rationals (\<^typ>\<open>rat\<close>). The amount that
  \<^verbatim>\<open>float\<close> reads from the text of a cell is rounded to a double; the arithmetic on rates
  and amounts taken from the database is exact. SQL \<^verbatim>\<open>NULL\<close> and Python
  \<^verbatim>\<open>None\<close> are \<^term>\<open>None\<close>.
\<close>

definition is_space :: "char \<Rightarrow> bool" where
  \<comment> \<open>\<^verbatim>\<open>str.isspace\<close> on code points below 256\<close>
  "is_space c = (c \<in> set [CHR 0x09, CHR 0x0A, CHR 0x0B, CHR 0x0C, CHR 0x0D,
                           CHR 0x1C, CHR 0x1D, CHR 0x1E, CHR 0x1F, CHR 0x20,
                           CHR 0x85, CHR 0xA0])"

definition py_strip :: "string \<Rightarrow> string" where
  \<comment> \<open>\<^verbatim>\<open>s.strip()\<close>\<close>
  "py_strip s = rev (dropWhile is_space (rev (dropWhile is_space s)))"

definition sql_trim :: "string \<Rightarrow> string" where
  \<comment> \<open>MySQL \<^verbatim>\<open>TRIM(s)\<close>: removes leading and trailing spaces only\<close>
  "sql_trim s = rev (dropWhile (\<lambda>c. c = CHR '' '') (rev (dropWhile (\<lambda>c. c = CHR '' '') s)))"

definition lower_char :: "char \<Rightarrow> char" where
  "lower_char c =
     (case map_of (zip ''ABCDEFGHIJKLMNOPQRSTUVWXYZ'' ''abcdefghijklmnopqrstuvwxyz'') c of
        Some d \<Rightarrow> d | None \<Rightarrow> c)"

definition upper_char :: "char \<Rightarrow> char" where
  "upper_char c =
     (case map_of (zip ''abcdefghijklmnopqrstuvwxyz'' ''ABCDEFGHIJKLMNOPQRSTUVWXYZ'') c of
        Some d \<Rightarrow> d | None \<Rightarrow> c)"

definition lower :: "string \<Rightarrow> string" where
  "lower s = map lower_char s"

definition upper :: "string \<Rightarrow> string" where
  "upper s = map upper_char s"

fun starts_with :: "string \<Rightarrow> string \<Rightarrow> bool" where
  \<comment> \<open>\<^verbatim>\<open>s.startswith(x)\<close>, written \<open>starts_with x s\<close>\<close>
  "starts_with [] s = True"
| "starts_with (x # xs) [] = False"
| "starts_with (x # xs) (c # cs) = (x = c \<and> starts_with xs cs)"

fun py_in :: "string \<Rightarrow> string \<Rightarrow> bool" where
  \<comment> \<open>the substring test \<^verbatim>\<open>x in s\<close>\<close>
  "py_in x [] = (x = [])"
| "py_in x (c # cs) = (starts_with x (c # cs) \<or> py_in x cs)"

definition is_digit :: "char \<Rightarrow> bool" where
  "is_digit c = (c \<in> set ''0123456789'')"

definition digit_char :: "int \<Rightarrow> char" where
  "digit_char d = ''0123456789'' ! nat (d mod 10)"

function digits_of_int :: "int \<Rightarrow> string" where
  \<comment> \<open>the decimal digits of a non-negative integer\<close>
  "digits_of_int n =
     (if n < 10 then [digit_char n] else digits_of_int (n div 10) @ [digit_char (n mod 10)])"
  by pat_completeness auto
termination
  by (relation "measure nat") auto

declare digits_of_int.simps [simp del]

definition show_int :: "int \<Rightarrow> string" where
  \<comment> \<open>\<^verbatim>\<open>str(i)\<close> and the f-string rendering \<^verbatim>\<open>f"{i}"\<close> of an integer\<close>
  "show_int i = (if i < 0 then CHR ''-'' # digits_of_int (- i) else digits_of_int i)"

definition digit_val :: "char \<Rightarrow> int" where
  "digit_val c = (case map_of (zip ''0123456789'' [0, 1, 2, 3, 4, 5, 6, 7, 8, 9]) c of
                    Some d \<Rightarrow> d | None \<Rightarrow> 0)"

definition int_of_digits :: "string \<Rightarrow> int" where
  "int_of_digits ds = foldl (\<lambda>acc c. 10 * acc + digit_val c) 0 ds"

definition py_int :: "string \<Rightarrow> int option" where
  \<comment> \<open>\<^verbatim>\<open>int(s)\<close>; \<^term>\<open>None\<close> stands for \<^verbatim>\<open>ValueError\<close>. Surrounding white space and one
      sign are accepted; digit grouping with underscores and non-ASCII digits are not modelled.\<close>
  "py_int s =
     (let t = py_strip s;
          (neg, ds) = (case t of
                         c # cs \<Rightarrow> if c = CHR ''-'' then (True, cs)
                                   else if c = CHR ''+'' then (False, cs) else (False, t)
                       | [] \<Rightarrow> (False, t))
      in if ds \<noteq> [] \<and> list_all is_digit ds
         then Some (if neg then - int_of_digits ds else int_of_digits ds)
         else None)"

fun split_on :: "char \<Rightarrow> string \<Rightarrow> string list" where
  \<comment> \<open>\<^verbatim>\<open>s.split(sep)\<close> for a one-character separator\<close>
  "split_on sep [] = [[]]"
| "split_on sep (c # cs) =
     (if c = sep then [] # split_on sep cs
      else (case split_on sep cs of p # ps \<Rightarrow> (c # p) # ps | [] \<Rightarrow> [[c]]))"

definition truthy_int :: "int option \<Rightarrow> bool" where
  \<comment> \<open>Python truth value of an optional integer: \<^verbatim>\<open>None\<close> and \<^verbatim>\<open>0\<close> are false\<close>
  "truthy_int v = (case v of None \<Rightarrow> False | Some i \<Rightarrow> i \<noteq> 0)"

definition truthy_str :: "string option \<Rightarrow> bool" where
  "truthy_str v = (case v of None \<Rightarrow> False | Some s \<Rightarrow> s \<noteq> [])"

definition or_empty :: "string option \<Rightarrow> string" where
  \<comment> \<open>\<^verbatim>\<open>(v or "")\<close>\<close>
  "or_empty v = (case v of None \<Rightarrow> [] | Some s \<Rightarrow> s)"

definition py_or_rate :: "rat option \<Rightarrow> rat option \<Rightarrow> rat option" where
  \<comment> \<open>\<^verbatim>\<open>a or b\<close> on optional numbers: \<^verbatim>\<open>None\<close> and zero are false, so \<open>b\<close> is returned\<close>
  "py_or_rate a b = (case a of None \<Rightarrow> b | Some x \<Rightarrow> if x = 0 then b else a)"

definition set_add :: "'a \<Rightarrow> 'a list \<Rightarrow> 'a list" where
  \<comment> \<open>\<^verbatim>\<open>s.add(x)\<close> on a Python set kept as a duplicate-free list in insertion order\<close>
  "set_add x xs = (if x \<in> set xs then xs else xs @ [x])"

section \<open>Financial-year labels (routes/forex.py)\<close>

definition last2 :: "string \<Rightarrow> string" where
  \<comment> \<open>the slice \<^verbatim>\<open>s[-2:]\<close>\<close>
  "last2 s = drop (length s - 2) s"

definition format_financial_year :: "int \<Rightarrow> string" where
  "format_financial_year ending_year =
     (let next_year = ending_year + 1
      in show_int ending_year @ ''-'' @ last2 (show_int next_year))"

definition parse_financial_year :: "string \<Rightarrow> int option" where
  "parse_financial_year fy_string =
     (let first_try =
            (if py_in ''-'' fy_string
             then (case split_on CHR ''-'' fy_string of
                     [p0, p1] \<Rightarrow> py_int p0
                   | _ \<Rightarrow> None)
             else None)
      in case first_try of
           Some y \<Rightarrow> Some y
         | None \<Rightarrow> py_int fy_string)"

section \<open>Data model\<close>

text \<open>
  One record stands both for a row of the table \<^verbatim>\<open>final_structured\<close> and for the row
  dictionaries the queries return. A column a query does not select is \<^term>\<open>None\<close> in
  the dictionary, which is what \<^verbatim>\<open>row.get\<close> yields for a missing key. The key
  \<^verbatim>\<open>entity_id\<close> is only present in dictionaries of the joined query of
  \<^verbatim>\<open>get_structured_data\<close>. The alias keys \<^verbatim>\<open>EntityID\<close>, \<^verbatim>\<open>entity_code\<close> and
  \<^verbatim>\<open>year\<close> occur in no query of the repository and are left out; \<^verbatim>\<open>amount\<close> is always
  selected together with \<^verbatim>\<open>transactionAmount\<close>, of which it is a copy.
\<close>

record fs_row =
  sl_no :: "nat option"
  Particular :: string
  entityName :: "string option"
  entityCode :: "string option"
  localCurrencyCode :: "string option"
  transactionAmount :: "rat option"
  Month :: "string option"
  selectedMonth :: "string option"
  mainCategory :: "string option"
  category1 :: "string option"
  category2 :: "string option"
  category3 :: "string option"
  category4 :: "string option"
  category5 :: "string option"
  Avg_Fx_Rt :: "rat option"
  transactionAmountUSD :: "rat option"
  Year :: "int option"
  financial_year :: "string option"
  entity_id :: "int option"

record entity_forex_rate =
  efr_entity_id :: int
  efr_currency :: string
  efr_financial_year :: string
  efr_opening_rate :: "rat option"
  efr_closing_rate :: "rat option"

text \<open>Time stamps are seconds counted from 1900-01-01 00:00:00, the default of the
  \<^verbatim>\<open>COALESCE\<close> in \<^verbatim>\<open>_get_latest_row_for_currency\<close>.\<close>

record forex_master_row =
  fx_id :: nat
  fm_currency :: string
  fm_initial_rate :: "rat option"
  fm_latest_rate :: "rat option"
  fm_month :: "string option"
  fm_updated_at :: "int option"

record code_master_row =
  code_id :: nat
  RawParticulars :: string
  cm_mainCategory :: "string option"
  cm_category1 :: "string option"
  cm_category2 :: "string option"
  cm_category3 :: "string option"
  cm_category4 :: "string option"
  cm_category5 :: "string option"

text \<open>Dates are triples (year, month, day), compared lexicographically.\<close>

type_synonym date = "int \<times> nat \<times> nat"

record fy_master_row =
  fy_id :: nat
  fy_label :: string
  start_date :: date
  end_date :: date
  is_active :: bool

record database =
  entity_master :: "(int \<times> string) list"
  entity_forex_rates :: "entity_forex_rate list"
  forex_master :: "forex_master_row list"
  code_master :: "code_master_row list"
  final_structured :: "fs_row list"
  financial_year_master :: "fy_master_row list"

text \<open>An entry of the forex cache (a Python dictionary); a key the code does not set is
  \<^term>\<open>None\<close>.\<close>

record fx_entry =
  fx_source :: string
  fx_entity_id :: "int option"
  fx_currency :: string
  fx_currency_used :: "string option"
  fx_financial_year :: "int option"
  opening_rate :: "rat option"
  closing_rate :: "rat option"
  initial_rate :: "rat option"
  latest_rate :: "rat option"

type_synonym forex_cache = "string \<rightharpoonup> fx_entry"

section \<open>FX rate lookups (routes/forex.py)\<close>

text \<open>
  A query with \<^verbatim>\<open>LIMIT 1\<close> and no \<^verbatim>\<open>ORDER BY\<close> returns the first matching row in table
  order. String equality in a \<^verbatim>\<open>WHERE\<close> clause is exact equality. A failing query
  (an exception) is not modelled.
\<close>

definition get_entity_fy_forex_rate :: "database \<Rightarrow> int \<Rightarrow> string \<Rightarrow> int \<Rightarrow> entity_forex_rate option" where
  "get_entity_fy_forex_rate db eid currency fy =
     (let financial_year_str = format_financial_year fy
      in find (\<lambda>r. efr_entity_id r = eid \<and> efr_currency r = upper currency \<and>
                    (efr_financial_year r = financial_year_str \<or> efr_financial_year r = show_int fy))
              (entity_forex_rates db))"

definition fm_timestamp :: "forex_master_row \<Rightarrow> int" where
  \<comment> \<open>\<^verbatim>\<open>COALESCE(updated_at, '1900-01-01')\<close>\<close>
  "fm_timestamp r = (case fm_updated_at r of None \<Rightarrow> 0 | Some t \<Rightarrow> t)"

definition fm_order_key :: "forex_master_row \<Rightarrow> int \<times> nat" where
  \<comment> \<open>the sort key of \<^verbatim>\<open>ORDER BY COALESCE(updated_at, '1900-01-01'), fx_id\<close>; pairs
      are ordered lexicographically\<close>
  "fm_order_key r = (fm_timestamp r, fx_id r)"

definition get_latest_row_for_currency :: "database \<Rightarrow> string \<Rightarrow> forex_master_row option" where
  \<comment> \<open>\<^verbatim>\<open>_get_latest_row_for_currency\<close>: both sort keys descending, \<^verbatim>\<open>LIMIT 1\<close>\<close>
  "get_latest_row_for_currency db currency =
     (case rev (sort_key fm_order_key (filter (\<lambda>r. fm_currency r = currency) (forex_master db))) of
        [] \<Rightarrow> None
      | r # _ \<Rightarrow> Some r)"

section \<open>The forex cache (routes/structure\_data.py)\<close>

definition row_currency :: "fs_row \<Rightarrow> string" where
  \<comment> \<open>\<^verbatim>\<open>(row.get("localCurrencyCode") or "").strip()\<close>\<close>
  "row_currency row = py_strip (or_empty (localCurrencyCode row))"

definition row_financial_year :: "fs_row \<Rightarrow> int option" where
  "row_financial_year row =
     (let financial_year_str = financial_year row;
          fy = (if truthy_str financial_year_str
                then parse_financial_year (or_empty financial_year_str) else None)
      in if \<not> truthy_int fy then Year row else fy)"

definition row_entity_id :: "database \<Rightarrow> fs_row \<Rightarrow> int option" where
  \<comment> \<open>the row's \<^verbatim>\<open>entity_id\<close>, resolved from \<^verbatim>\<open>entityCode\<close> through \<^verbatim>\<open>entity_master\<close>
      when the row has a code and no id\<close>
  "row_entity_id db row =
     (if truthy_str (entityCode row) \<and> \<not> truthy_int (entity_id row)
      then (case find (\<lambda>(i, c). c = or_empty (entityCode row)) (entity_master db) of
              Some (i, c) \<Rightarrow> Some i
            | None \<Rightarrow> entity_id row)
      else entity_id row)"

definition entity_cache_key :: "int \<Rightarrow> string \<Rightarrow> int \<Rightarrow> string" where
  \<comment> \<open>\<^verbatim>\<open>f"{entity_id}_{curr}_{fy}"\<close>\<close>
  "entity_cache_key eid cur fy = show_int eid @ ''_'' @ cur @ ''_'' @ show_int fy"

definition legacy_cache_key :: "string \<Rightarrow> string" where
  \<comment> \<open>\<^verbatim>\<open>f"legacy_{curr}"\<close>\<close>
  "legacy_cache_key cur = ''legacy_'' @ cur"

definition collect_row :: "database \<Rightarrow> (int \<times> string \<times> int) list \<times> string list \<Rightarrow> fs_row
    \<Rightarrow> (int \<times> string \<times> int) list \<times> string list" where
  \<comment> \<open>body of the first loop of \<^verbatim>\<open>_build_forex_cache\<close>: the sets
      \<^verbatim>\<open>entity_currency_fy\<close> and \<^verbatim>\<open>currencies\<close>\<close>
  "collect_row db acc row =
     (let (entity_currency_fy, currencies) = acc;
          cur = row_currency row;
          currencies = (if cur \<noteq> [] then set_add (upper cur) currencies else currencies);
          eid = row_entity_id db row;
          fy = row_financial_year row
      in (case (eid, fy) of
            (Some e, Some y) \<Rightarrow>
              if e \<noteq> 0 \<and> y \<noteq> 0 \<and> cur \<noteq> []
              then (set_add (e, upper cur, y) entity_currency_fy, currencies)
              else (entity_currency_fy, currencies)
          | _ \<Rightarrow> (entity_currency_fy, currencies)))"

definition resolve_entity_rate :: "database \<Rightarrow> int \<Rightarrow> string \<Rightarrow> int
    \<Rightarrow> (string \<times> int \<times> entity_forex_rate) option" where
  \<comment> \<open>lines 63 to 87: the exact year, then the next year, then the previous year; the
      variables \<^verbatim>\<open>fy_rates\<close>, \<^verbatim>\<open>cache_key\<close> and \<^verbatim>\<open>fy\<close> are threaded through the
      two conditionals as the source assigns them\<close>
  "resolve_entity_rate db eid cur fy0 =
     (let cache_key = entity_cache_key eid cur fy0;
          fy = fy0;
          fy_rates = get_entity_fy_forex_rate db eid cur fy;
          (fy_rates, cache_key, fy) =
            (if fy_rates = None then
               (let try_next_fy = fy + 1;
                    fy_rates = get_entity_fy_forex_rate db eid cur try_next_fy
                in if fy_rates \<noteq> None
                   then (fy_rates, entity_cache_key eid cur try_next_fy, try_next_fy)
                   else (fy_rates, cache_key, fy))
             else (fy_rates, cache_key, fy));
          (fy_rates, cache_key, fy) =
            (if fy_rates = None then
               (let try_prev_fy = fy - 1;
                    fy_rates = get_entity_fy_forex_rate db eid cur try_prev_fy
                in if fy_rates \<noteq> None
                   then (fy_rates, entity_cache_key eid cur try_prev_fy, try_prev_fy)
                   else (fy_rates, cache_key, fy))
             else (fy_rates, cache_key, fy))
      in case fy_rates of
           None \<Rightarrow> None
         | Some r \<Rightarrow> Some (cache_key, fy, r))"

definition entity_entry :: "int \<Rightarrow> string \<Rightarrow> int \<Rightarrow> entity_forex_rate \<Rightarrow> fx_entry" where
  "entity_entry eid cur fy fy_rates =
     \<lparr> fx_source = ''entity_forex_rates'', fx_entity_id = Some eid, fx_currency = cur,
       fx_currency_used = None, fx_financial_year = Some fy,
       opening_rate = efr_opening_rate fy_rates, closing_rate = efr_closing_rate fy_rates,
       initial_rate = efr_opening_rate fy_rates, latest_rate = efr_closing_rate fy_rates \<rparr>"

definition entity_step :: "database \<Rightarrow> forex_cache \<times> string list \<Rightarrow> int \<times> string \<times> int
    \<Rightarrow> forex_cache \<times> string list" where
  \<comment> \<open>body of the second loop: \<^verbatim>\<open>cache\<close> and \<^verbatim>\<open>found_entity_rates\<close>\<close>
  "entity_step db acc triple =
     (let (cache, found_entity_rates) = acc;
          (eid, cur, fy) = triple
      in case resolve_entity_rate db eid cur fy of
           Some (cache_key, fy', fy_rates) \<Rightarrow>
             (cache(cache_key \<mapsto> entity_entry eid cur fy' fy_rates),
              set_add (upper cur) found_entity_rates)
         | None \<Rightarrow> (cache, found_entity_rates))"

definition legacy_variants :: "string \<Rightarrow> string list" where
  "legacy_variants cur =
     [cur] @ (if length cur = 3 then [cur @ ''IN''] else []) @ [''USDIN'', ''USD'']"

fun legacy_search :: "database \<Rightarrow> string list \<Rightarrow> string list \<Rightarrow> (string \<times> forex_master_row) option" where
  \<comment> \<open>the loop over \<^verbatim>\<open>variants\<close> with its \<^verbatim>\<open>seen\<close> set, left at the first code that has a row\<close>
  "legacy_search db [] seen = None"
| "legacy_search db (code # variants) seen =
     (if code \<in> set seen then legacy_search db variants seen
      else (case get_latest_row_for_currency db code of
              Some fx_row \<Rightarrow> Some (code, fx_row)
            | None \<Rightarrow> legacy_search db variants (code # seen)))"

definition legacy_entry :: "string \<Rightarrow> string \<Rightarrow> forex_master_row \<Rightarrow> fx_entry" where
  "legacy_entry cur code fx_row =
     \<lparr> fx_source = ''forex_master'', fx_entity_id = None, fx_currency = cur,
       fx_currency_used = Some code, fx_financial_year = None,
       opening_rate = fm_initial_rate fx_row, closing_rate = fm_latest_rate fx_row,
       initial_rate = fm_initial_rate fx_row, latest_rate = fm_latest_rate fx_row \<rparr>"

definition legacy_step :: "database \<Rightarrow> forex_cache \<Rightarrow> string \<Rightarrow> forex_cache" where
  \<comment> \<open>body of the third loop\<close>
  "legacy_step db cache cur =
     (case legacy_search db (legacy_variants cur) [] of
        Some (code, fx_row) \<Rightarrow> cache(legacy_cache_key cur \<mapsto> legacy_entry cur code fx_row)
      | None \<Rightarrow> cache)"

definition collect_keys :: "database \<Rightarrow> fs_row list \<Rightarrow> (int \<times> string \<times> int) list \<times> string list" where
  \<comment> \<open>the first loop\<close>
  "collect_keys db rows = foldl (collect_row db) ([], []) rows"

definition entity_pass :: "database \<Rightarrow> (int \<times> string \<times> int) list \<Rightarrow> forex_cache \<times> string list" where
  \<comment> \<open>the second loop, from the empty cache\<close>
  "entity_pass db entity_currency_fy = foldl (entity_step db) (Map.empty, []) entity_currency_fy"

definition legacy_pass :: "database \<Rightarrow> forex_cache \<Rightarrow> string list \<Rightarrow> forex_cache" where
  \<comment> \<open>the third loop\<close>
  "legacy_pass db cache currencies_needing_fallback =
     foldl (legacy_step db) cache currencies_needing_fallback"

definition build_forex_cache :: "database \<Rightarrow> fs_row list \<Rightarrow> forex_cache" where
  \<comment> \<open>\<^verbatim>\<open>_build_forex_cache(rows)\<close>\<close>
  "build_forex_cache db rows =
     (let keys = collect_keys db rows;
          entity_currency_fy = fst keys;
          currencies = snd keys;
          pass = entity_pass db entity_currency_fy;
          cache = fst pass;
          found_entity_rates = snd pass;
          currencies_needing_fallback = filter (\<lambda>c. c \<notin> set found_entity_rates) currencies
      in legacy_pass db cache currencies_needing_fallback)"

section \<open>Applying and saving rates (routes/structure\_data.py)\<close>

definition lookup_fx :: "database \<Rightarrow> forex_cache \<Rightarrow> fs_row \<Rightarrow> string \<Rightarrow> fx_entry option" where
  \<comment> \<open>lines 162 to 211 (and 300 to 344): the entity keys for the year, the next and the
      previous year, then the legacy key, then the bare currency\<close>
  "lookup_fx db forex_cache row cur =
     (let eid = row_entity_id db row;
          fy = row_financial_year row;
          fx = None;
          fx = (case (eid, fy) of
                  (Some e, Some y) \<Rightarrow>
                    if e \<noteq> 0 \<and> y \<noteq> 0 then
                      (let fx = forex_cache (entity_cache_key e cur y);
                           fx = (if fx = None then forex_cache (entity_cache_key e cur (y + 1)) else fx);
                           fx = (if fx = None then forex_cache (entity_cache_key e cur (y - 1)) else fx)
                       in fx)
                    else fx
                | _ \<Rightarrow> fx);
          fx = (if fx = None then
                  (let fx = forex_cache (legacy_cache_key cur);
                       fx = (if fx = None then forex_cache cur else fx)
                   in fx)
                else fx)
      in fx)"

definition is_pl_row :: "string \<Rightarrow> string \<Rightarrow> bool" where
  \<comment> \<open>the flag \<^verbatim>\<open>is_pl\<close>\<close>
  "is_pl_row brd_cls main_category_lower =
     (py_in ''profit and loss'' brd_cls
      \<or> py_in ''profit & loss'' brd_cls
      \<or> py_in ''p&l'' brd_cls
      \<or> py_in ''profit and loss'' main_category_lower
      \<or> py_in ''profit & loss'' main_category_lower
      \<or> py_in ''p&l'' main_category_lower)"

definition is_balance_sheet_row :: "string \<Rightarrow> string \<Rightarrow> bool" where
  \<comment> \<open>the flag \<^verbatim>\<open>is_balance_sheet\<close>; the source computes it and never reads it\<close>
  "is_balance_sheet_row brd_cls main_category_lower =
     (py_in ''balance sheet'' brd_cls \<or> py_in ''balance sheet'' main_category_lower)"

definition select_rate :: "bool \<Rightarrow> rat option \<Rightarrow> rat option \<Rightarrow> rat option" where
  \<comment> \<open>lines 236 to 253 (and 372 to 389); \<^term>\<open>None\<close> is the \<^verbatim>\<open>continue\<close>\<close>
  "select_rate is_pl opening closing =
     (if is_pl then
        (case (opening, closing) of
           (Some o_rate, Some c_rate) \<Rightarrow> Some ((o_rate + c_rate) / 2)
         | (None, Some c_rate) \<Rightarrow> Some c_rate
         | (_, None) \<Rightarrow> None)
      else
        (case closing of
           Some c_rate \<Rightarrow> Some c_rate
         | None \<Rightarrow> None))"

definition row_rate :: "database \<Rightarrow> forex_cache \<Rightarrow> fs_row \<Rightarrow> rat option" where
  \<comment> \<open>the part shared by \<^verbatim>\<open>_apply_forex_rates\<close> and \<^verbatim>\<open>_calculate_and_save_forex_rates\<close>,
      which repeat it line by line: the gate on \<^verbatim>\<open>mainCategory\<close>, the cache lookup,
      the classification and the choice of the rate\<close>
  "row_rate db forex_cache row =
     (let main_category = py_strip (or_empty (mainCategory row))
      in if main_category = [] then None
         else
           (let cur = upper (py_strip (or_empty (localCurrencyCode row)))
            in case lookup_fx db forex_cache row cur of
                 None \<Rightarrow> None
               | Some fx \<Rightarrow>
                   (let brd_cls = lower (py_strip (or_empty (category1 row)));
                        main_category_lower = lower main_category;
                        is_pl = is_pl_row brd_cls main_category_lower;
                        opening = py_or_rate (opening_rate fx) (initial_rate fx);
                        closing = py_or_rate (closing_rate fx) (latest_rate fx)
                    in select_rate is_pl opening closing)))"

definition apply_forex_row :: "database \<Rightarrow> forex_cache \<Rightarrow> fs_row \<Rightarrow> fs_row \<times> bool" where
  \<comment> \<open>body of the loop of \<^verbatim>\<open>_apply_forex_rates\<close>; the flag says whether \<^verbatim>\<open>updated\<close> grew\<close>
  "apply_forex_row db forex_cache row =
     (case row_rate db forex_cache row of
        None \<Rightarrow> (row, False)
      | Some rate \<Rightarrow>
          (let row = row\<lparr>Avg_Fx_Rt := Some rate\<rparr>;
               row = (case transactionAmount row of
                        Some amt \<Rightarrow> row\<lparr>transactionAmountUSD := Some (amt * rate)\<rparr>
                      | None \<Rightarrow> row)
           in (row, True)))"

definition apply_forex_rates :: "database \<Rightarrow> fs_row list \<Rightarrow> forex_cache \<Rightarrow> fs_row list \<times> nat" where
  \<comment> \<open>\<^verbatim>\<open>_apply_forex_rates(rows, forex_cache)\<close>: the rows as mutated, and \<^verbatim>\<open>updated\<close>\<close>
  "apply_forex_rates db rows forex_cache =
     (let results = map (apply_forex_row db forex_cache) rows
      in (map fst results, length (filter snd results)))"

record fx_update =
  u_sl_no :: nat
  u_avg_fx_rt :: rat
  u_transaction_amount_usd :: "rat option"

definition calculate_forex_row :: "database \<Rightarrow> forex_cache \<Rightarrow> bool \<Rightarrow> fs_row
    \<Rightarrow> fs_row \<times> fx_update option \<times> bool" where
  \<comment> \<open>body of the loop of \<^verbatim>\<open>_calculate_and_save_forex_rates\<close>: the row as mutated, the
      entry appended to \<^verbatim>\<open>updates_to_save\<close>, and whether \<^verbatim>\<open>updated_count\<close> grew\<close>
  "calculate_forex_row db forex_cache save_to_db row =
     (case row_rate db forex_cache row of
        None \<Rightarrow> (row, None, False)
      | Some rate \<Rightarrow>
          (let amt = transactionAmount row;
               transaction_amount_usd = (case amt of Some a \<Rightarrow> Some (a * rate) | None \<Rightarrow> None);
               row = row\<lparr>Avg_Fx_Rt := Some rate\<rparr>;
               row = (case transaction_amount_usd of
                        Some usd \<Rightarrow> row\<lparr>transactionAmountUSD := Some usd\<rparr>
                      | None \<Rightarrow> row);
               upd = (if save_to_db then
                        (case sl_no row of
                           Some n \<Rightarrow> if n \<noteq> 0
                                     then Some \<lparr> u_sl_no = n, u_avg_fx_rt = rate,
                                                 u_transaction_amount_usd = transaction_amount_usd \<rparr>
                                     else None
                         | None \<Rightarrow> None)
                      else None)
           in (row, upd, True)))"

definition save_fx_update :: "fs_row list \<Rightarrow> fx_update \<Rightarrow> fs_row list" where
  \<comment> \<open>\<^verbatim>\<open>UPDATE final_structured SET Avg_Fx_Rt = %s, transactionAmountUSD = %s WHERE sl_no = %s\<close>\<close>
  "save_fx_update table u =
     map (\<lambda>r. if sl_no r = Some (u_sl_no u)
               then r\<lparr>Avg_Fx_Rt := Some (u_avg_fx_rt u),
                      transactionAmountUSD := u_transaction_amount_usd u\<rparr>
               else r) table"

definition calculate_and_save_forex_rates :: "database \<Rightarrow> fs_row list \<Rightarrow> forex_cache \<Rightarrow> bool
    \<Rightarrow> fs_row list \<times> database \<times> nat" where
  \<comment> \<open>\<^verbatim>\<open>_calculate_and_save_forex_rates(rows, forex_cache, save_to_db)\<close>: the rows as mutated,
      the database after the batch of updates, and \<^verbatim>\<open>updated_count\<close>\<close>
  "calculate_and_save_forex_rates db rows forex_cache save_to_db =
     (let results = map (calculate_forex_row db forex_cache save_to_db) rows;
          updates_to_save = List.map_filter (\<lambda>res. fst (snd res)) results;
          db' = db\<lparr>final_structured := foldl save_fx_update (final_structured db) updates_to_save\<rparr>
      in (map fst results, db', length (filter (\<lambda>res. snd (snd res)) results)))"

definition row_is_pl :: "fs_row \<Rightarrow> bool" where
  \<comment> \<open>the value of \<^verbatim>\<open>is_pl\<close> for a row\<close>
  "row_is_pl row = is_pl_row (lower (py_strip (or_empty (category1 row))))
                             (lower (py_strip (or_empty (mainCategory row))))"

definition with_rate :: "fs_row \<Rightarrow> rat \<Rightarrow> fs_row" where
  \<comment> \<open>a row after the assignments \<^verbatim>\<open>row["Avg_Fx_Rt"] = rate\<close> and, when the amount is
      not \<^verbatim>\<open>None\<close>, \<^verbatim>\<open>row["transactionAmountUSD"] = float(amt) * rate\<close>\<close>
  "with_rate row rate =
     row\<lparr>Avg_Fx_Rt := Some rate,
         transactionAmountUSD := (case transactionAmount row of
                                    Some amt \<Rightarrow> Some (amt * rate)
                                  | None \<Rightarrow> transactionAmountUSD row)\<rparr>"

definition cache_wf :: "forex_cache \<Rightarrow> bool" where
  \<comment> \<open>in every entry the compatibility keys repeat the opening and the closing rate\<close>
  "cache_wf cache = (\<forall>k fx. cache k = Some fx \<longrightarrow>
      initial_rate fx = opening_rate fx \<and> latest_rate fx = closing_rate fx)"

section \<open>Example data\<close>

definition example_db :: database where
  "example_db =
     \<lparr> entity_master = [(1, ''E1''), (2, ''E2''), (3, ''E3'')],
       entity_forex_rates =
         [\<lparr> efr_entity_id = 1, efr_currency = ''INR'', efr_financial_year = ''2024-25'',
            efr_opening_rate = Some 80, efr_closing_rate = Some 84 \<rparr>,
          \<lparr> efr_entity_id = 2, efr_currency = ''EUR'', efr_financial_year = ''2024-25'',
            efr_opening_rate = Some 90, efr_closing_rate = None \<rparr>,
          \<lparr> efr_entity_id = 3, efr_currency = ''JPY'', efr_financial_year = ''2024-25'',
            efr_opening_rate = None, efr_closing_rate = Some 2 \<rparr>],
       forex_master = [],
       code_master = [],
       final_structured = [],
       financial_year_master = [] \<rparr>"

definition example_row :: "nat \<Rightarrow> string \<Rightarrow> string \<Rightarrow> string \<Rightarrow> string option \<Rightarrow> fs_row" where
  "example_row n code cur main_cat cat1 =
     \<lparr> sl_no = Some n, Particular = ''Sales'', entityName = None, entityCode = Some code,
       localCurrencyCode = Some cur, transactionAmount = Some 100, Month = Some ''April'',
       selectedMonth = Some ''April'', mainCategory = Some main_cat, category1 = cat1,
       category2 = None, category3 = None, category4 = None, category5 = None,
       Avg_Fx_Rt = None, transactionAmountUSD = None, Year = Some 2024,
       financial_year = Some ''2024-25'', entity_id = None \<rparr>"

definition pl_row :: fs_row where
  "pl_row = example_row 7 ''E1'' ''inr '' ''Profit and Loss'' (Some ''Revenue'')"

definition bs_row :: fs_row where
  "bs_row = example_row 8 ''E1'' ''INR'' ''Balance Sheet'' (Some ''Assets'')"

definition pl_row_opening_only :: fs_row where
  "pl_row_opening_only = example_row 9 ''E2'' ''EUR'' ''Expenses'' (Some ''P&L'')"

definition pl_row_closing_only :: fs_row where
  "pl_row_closing_only = example_row 10 ''E3'' ''JPY'' ''Profit & Loss'' None"

definition example_rows :: "fs_row list" where
  "example_rows = [pl_row, bs_row, pl_row_opening_only, pl_row_closing_only]"

definition example_table_db :: database where
  "example_table_db = example_db\<lparr>final_structured := example_rows\<rparr>"

section \<open>Reference formulation of the year lookup\<close>

text \<open>The first year of a list of candidate years for which an entity-specific rate exists,
  with the rate found.\<close>

fun first_rate :: "database \<Rightarrow> int \<Rightarrow> string \<Rightarrow> int list \<Rightarrow> (int \<times> entity_forex_rate) option" where
  "first_rate db eid cur [] = None"
| "first_rate db eid cur (y # ys) =
     (case get_entity_fy_forex_rate db eid cur y of
        Some r \<Rightarrow> Some (y, r)
      | None \<Rightarrow> first_rate db eid cur ys)"

section \<open>More example data\<close>

definition legacy_db :: database where
  "legacy_db = example_db\<lparr>forex_master :=
     [\<lparr> fx_id = 1, fm_currency = ''USDIN'', fm_initial_rate = Some 82, fm_latest_rate = Some 83,
        fm_month = None, fm_updated_at = Some 100 \<rparr>,
      \<lparr> fx_id = 2, fm_currency = ''GBPIN'', fm_initial_rate = Some 100, fm_latest_rate = Some 104,
        fm_month = None, fm_updated_at = Some 200 \<rparr>,
      \<lparr> fx_id = 3, fm_currency = ''GBPIN'', fm_initial_rate = Some 101, fm_latest_rate = Some 105,
        fm_month = None, fm_updated_at = Some 200 \<rparr>,
      \<lparr> fx_id = 4, fm_currency = ''GBPIN'', fm_initial_rate = Some 99, fm_latest_rate = Some 98,
        fm_month = None, fm_updated_at = None \<rparr>,
      \<lparr> fx_id = 5, fm_currency = ''INR'', fm_initial_rate = Some 1, fm_latest_rate = Some 1,
        fm_month = None, fm_updated_at = Some 50 \<rparr>]\<rparr>"

definition other_entity_row :: fs_row where
  "other_entity_row = example_row 11 ''E2'' ''INR'' ''Balance Sheet'' None"

definition adjacent_db :: database where
  "adjacent_db = example_db\<lparr>entity_forex_rates :=
     [\<lparr> efr_entity_id = 1, efr_currency = ''USD'', efr_financial_year = ''2023-24'',
        efr_opening_rate = Some 70, efr_closing_rate = Some 71 \<rparr>,
      \<lparr> efr_entity_id = 1, efr_currency = ''USD'', efr_financial_year = ''2025-26'',
        efr_opening_rate = Some 90, efr_closing_rate = Some 91 \<rparr>]\<rparr>"

definition adjacent_row :: fs_row where
  "adjacent_row = example_row 12 ''E1'' ''usd'' ''Balance Sheet'' None"

section \<open>Category sync and hard de-duplication\<close>

text \<open>
  The two SQL statements act on the table as a whole. A column compared with \<^verbatim>\<open>NULL\<close>
  makes the comparison not true. The columns \<^verbatim>\<open>Particular\<close> and \<^verbatim>\<open>RawParticulars\<close> are
  never \<^verbatim>\<open>NULL\<close>.
\<close>

definition sql_norm :: "string \<Rightarrow> string" where
  \<comment> \<open>\<^verbatim>\<open>LOWER(TRIM(s))\<close>\<close>
  "sql_norm s = lower (sql_trim s)"

definition sql_blank :: "string option \<Rightarrow> bool" where
  \<comment> \<open>\<^verbatim>\<open>col IS NULL OR TRIM(col) = ''\<close>\<close>
  "sql_blank v = (case v of None \<Rightarrow> True | Some s \<Rightarrow> sql_trim s = [])"

definition sql_norm_eq :: "string option \<Rightarrow> string option \<Rightarrow> bool" where
  \<comment> \<open>\<^verbatim>\<open>LOWER(TRIM(a)) = LOWER(TRIM(b))\<close>; a comparison with \<^verbatim>\<open>NULL\<close> is not true\<close>
  "sql_norm_eq a b = (case (a, b) of (Some x, Some y) \<Rightarrow> sql_norm x = sql_norm y | _ \<Rightarrow> False)"

definition missing_category :: "fs_row \<Rightarrow> bool" where
  \<comment> \<open>the \<^verbatim>\<open>WHERE\<close> clause of the sync\<close>
  "missing_category fs =
     (sql_blank (mainCategory fs) \<or> sql_blank (category1 fs) \<or> sql_blank (category2 fs)
      \<or> sql_blank (category3 fs) \<or> sql_blank (category4 fs) \<or> sql_blank (category5 fs))"

definition matching_code :: "code_master_row list \<Rightarrow> fs_row \<Rightarrow> code_master_row option" where
  \<comment> \<open>the row of \<^verbatim>\<open>code_master\<close> joined to a row of \<^verbatim>\<open>final_structured\<close>; a row is
      updated once, and where several mappings match, the first in table order is taken\<close>
  "matching_code cms fs = find (\<lambda>cm. sql_norm (Particular fs) = sql_norm (RawParticulars cm)) cms"

definition set_categories :: "fs_row \<Rightarrow> code_master_row \<Rightarrow> fs_row" where
  \<comment> \<open>the \<^verbatim>\<open>SET\<close> clause of the sync\<close>
  "set_categories fs cm =
     fs\<lparr>mainCategory := cm_mainCategory cm, category1 := cm_category1 cm,
        category2 := cm_category2 cm, category3 := cm_category3 cm,
        category4 := cm_category4 cm, category5 := cm_category5 cm\<rparr>"

definition sync_row :: "code_master_row list \<Rightarrow> fs_row \<Rightarrow> fs_row" where
  "sync_row cms fs =
     (case matching_code cms fs of
        Some cm \<Rightarrow> if missing_category fs then set_categories fs cm else fs
      | None \<Rightarrow> fs)"

definition sync_final_structured_with_code_master :: "database \<Rightarrow> database" where
  \<comment> \<open>\<^verbatim>\<open>_sync_final_structured_with_code_master()\<close>; a failing statement changes nothing
      and is not modelled\<close>
  "sync_final_structured_with_code_master db =
     db\<lparr>final_structured := map (sync_row (code_master db)) (final_structured db)\<rparr>"

definition sql_amount_close :: "rat option \<Rightarrow> rat option \<Rightarrow> bool" where
  \<comment> \<open>\<^verbatim>\<open>ABS(a - b) < 0.01\<close>\<close>
  "sql_amount_close a b = (case (a, b) of (Some x, Some y) \<Rightarrow> \<bar>x - y\<bar> < 1 / 100 | _ \<Rightarrow> False)"

definition same_dedup_key :: "fs_row \<Rightarrow> fs_row \<Rightarrow> bool" where
  \<comment> \<open>the join condition of the de-duplication without the comparison of \<^verbatim>\<open>sl_no\<close>\<close>
  "same_dedup_key fs1 fs2 =
     (sql_norm (Particular fs1) = sql_norm (Particular fs2)
      \<and> sql_norm_eq (entityCode fs1) (entityCode fs2)
      \<and> sql_norm_eq (selectedMonth fs1) (selectedMonth fs2)
      \<and> (case (Year fs1, Year fs2) of (Some y1, Some y2) \<Rightarrow> y1 = y2 | _ \<Rightarrow> False)
      \<and> sql_norm_eq (Month fs1) (Month fs2)
      \<and> sql_amount_close (transactionAmount fs1) (transactionAmount fs2))"

definition sl_no_greater :: "fs_row \<Rightarrow> fs_row \<Rightarrow> bool" where
  \<comment> \<open>\<^verbatim>\<open>fs1.sl_no > fs2.sl_no\<close>\<close>
  "sl_no_greater fs1 fs2 = (case (sl_no fs1, sl_no fs2) of (Some a, Some b) \<Rightarrow> a > b | _ \<Rightarrow> False)"

definition in_dedup_scope :: "string \<Rightarrow> string \<Rightarrow> int \<Rightarrow> fs_row \<Rightarrow> bool" where
  \<comment> \<open>the \<^verbatim>\<open>WHERE\<close> clause of the de-duplication\<close>
  "in_dedup_scope entity_code month_name year fs1 =
     (sql_norm_eq (entityCode fs1) (Some entity_code)
      \<and> sql_norm_eq (selectedMonth fs1) (Some month_name)
      \<and> Year fs1 = Some year)"

definition dedup_deleted :: "fs_row list \<Rightarrow> string \<Rightarrow> string \<Rightarrow> int \<Rightarrow> fs_row \<Rightarrow> bool" where
  \<comment> \<open>whether \<^verbatim>\<open>DELETE fs1 ... JOIN ... WHERE ...\<close> deletes the row \<open>fs1\<close> of the table\<close>
  "dedup_deleted table entity_code month_name year fs1 =
     (in_dedup_scope entity_code month_name year fs1
      \<and> list_ex (\<lambda>fs2. same_dedup_key fs1 fs2 \<and> sl_no_greater fs1 fs2) table)"

definition deduplicate_final_structured_for_entity_month_year ::
    "database \<Rightarrow> string \<Rightarrow> string \<Rightarrow> int \<Rightarrow> database" where
  "deduplicate_final_structured_for_entity_month_year db entity_code month_name year =
     db\<lparr>final_structured :=
          filter (\<lambda>fs1. \<not> dedup_deleted (final_structured db) entity_code month_name year fs1)
                 (final_structured db)\<rparr>"

section \<open>Example ledgers\<close>

definition cash_mapping :: code_master_row where
  "cash_mapping = \<lparr> code_id = 1, RawParticulars = ''Cash'', cm_mainCategory = Some ''Balance Sheet'',
     cm_category1 = Some ''Assets'', cm_category2 = None, cm_category3 = None,
     cm_category4 = None, cm_category5 = None \<rparr>"

definition ledger_row :: "nat \<Rightarrow> string \<Rightarrow> string \<Rightarrow> rat \<Rightarrow> fs_row" where
  "ledger_row n particular sel_month amount =
     \<lparr> sl_no = Some n, Particular = particular, entityName = None, entityCode = Some ''E1'',
       localCurrencyCode = Some ''INR'', transactionAmount = Some amount, Month = Some sel_month,
       selectedMonth = Some sel_month, mainCategory = None, category1 = None,
       category2 = None, category3 = None, category4 = None, category5 = None,
       Avg_Fx_Rt = None, transactionAmountUSD = None, Year = Some 2024,
       financial_year = Some ''2024-25'', entity_id = None \<rparr>"

definition overridden_row :: fs_row where
  "overridden_row = (ledger_row 2 '' cash'' ''April'' 50)
     \<lparr> mainCategory := Some ''Profit and Loss'', category1 := Some ''a'', category2 := Some ''b'',
       category3 := Some ''c'', category4 := Some ''d'', category5 := Some ''e'' \<rparr>"

definition sync_example_db :: database where
  "sync_example_db = example_db
     \<lparr> code_master := [cash_mapping],
       final_structured := [ledger_row 1 ''CASH '' ''April'' 100, overridden_row,
                            ledger_row 3 ''Bank'' ''April'' 70] \<rparr>"

definition dedup_example_db :: database where
  "dedup_example_db = example_db
     \<lparr> final_structured :=
         [ledger_row 1 ''Cash'' ''April'' 100, ledger_row 2 '' cash'' ''april '' (100 + 1 / 200),
          ledger_row 3 ''Cash'' ''April'' 200, ledger_row 4 ''Cash'' ''April'' 100,
          ledger_row 5 ''Cash'' ''May'' 100, ledger_row 6 ''Cash'' ''May'' 100] \<rparr>"

section \<open>Python floats\<close>

text \<open>
  The amount read from the text of a cell is the result of \<^verbatim>\<open>float\<close>, a double: the decimal
  value of the text rounded to the nearest binary64 number, a tie going to the even mantissa,
  and an infinity when the rounded magnitude reaches \<open>2 ^ 1024\<close>. A double is modelled by its
  exact rational value. The two zeros are one value: the comparisons with zero, \<^verbatim>\<open>abs\<close> and
  the database do not tell them apart. \<^verbatim>\<open>float\<close> never returns a NaN on the texts the
  pattern of the parser returns.
\<close>

datatype float_value = Finite rat | Infinity | Neg_Infinity

function two_power :: "int \<Rightarrow> int" where
  \<comment> \<open>\<open>2 ^ n\<close> by repeated squaring\<close>
  "two_power n =
     (if n \<le> 0 then 1
      else if even n then two_power (n div 2) * two_power (n div 2)
      else 2 * (two_power (n div 2) * two_power (n div 2)))"
  by pat_completeness auto
termination by (relation "measure nat") auto

definition pow2 :: "int \<Rightarrow> rat" where
  \<comment> \<open>\<open>2 ^ e\<close> for an integer \<open>e\<close>, negative or not\<close>
  "pow2 e = (if e \<ge> 0 then of_int (two_power e) else 1 / of_int (two_power (- e)))"

definition floor_log2 :: "rat \<Rightarrow> int" where
  \<comment> \<open>the binary exponent \<open>k\<close> of a positive number \<open>a\<close>, with \<open>2 ^ k \<le> a < 2 ^ (k + 1)\<close>, from the
      bit lengths of numerator and denominator\<close>
  "floor_log2 a =
     (let (p, q) = quotient_of a;
          d = bitlen p - bitlen q
      in if pow2 d \<le> a then d else d - 1)"

definition round_half_even :: "rat \<Rightarrow> int" where
  \<comment> \<open>the nearest integer, a tie to the even one\<close>
  "round_half_even y =
     (let f = floor y; d = y - of_int f
      in if d < 1 / 2 then f
         else if d > 1 / 2 then f + 1
         else if even f then f else f + 1)"

definition round_double :: "rat \<Rightarrow> float_value" where
  \<comment> \<open>the double nearest to \<open>x\<close>: 53 bits of mantissa, and the spacing \<open>2 ^ (- 1074)\<close> of
      the subnormal numbers at the least\<close>
  "round_double x =
     (if x = 0 then Finite 0
      else
        (let a = \<bar>x\<bar>;
             e = max (- 1074) (floor_log2 a - 52);
             m = round_half_even (a / pow2 e);
             r = of_int m * pow2 e
         in if pow2 1024 \<le> r then (if x < 0 then Neg_Infinity else Infinity)
            else Finite (if x < 0 then - r else r)))"

fun float_negative :: "float_value \<Rightarrow> bool" where
  \<comment> \<open>\<^verbatim>\<open>amount < 0\<close>\<close>
  "float_negative (Finite r) = (r < 0)"
| "float_negative Infinity = False"
| "float_negative Neg_Infinity = True"

fun float_positive :: "float_value \<Rightarrow> bool" where
  \<comment> \<open>\<^verbatim>\<open>amount > 0\<close>\<close>
  "float_positive (Finite r) = (0 < r)"
| "float_positive Infinity = True"
| "float_positive Neg_Infinity = False"

fun float_abs :: "float_value \<Rightarrow> float_value" where
  "float_abs (Finite r) = Finite \<bar>r\<bar>"
| "float_abs Infinity = Infinity"
| "float_abs Neg_Infinity = Infinity"

fun float_uminus :: "float_value \<Rightarrow> float_value" where
  "float_uminus (Finite r) = Finite (- r)"
| "float_uminus Infinity = Neg_Infinity"
| "float_uminus Neg_Infinity = Infinity"

section \<open>Parsing amounts (routes/upload\_data.py)\<close>

text \<open>
  The spreadsheet is read with \<^verbatim>\<open>dtype=str\<close>, so a cell is a string, or \<^term>\<open>None\<close> when
  the column is missing.
\<close>

definition is_dc :: "char \<Rightarrow> bool" where
  \<comment> \<open>the character class \<^verbatim>\<open>[\d,]\<close> (ASCII digits)\<close>
  "is_dc c = (is_digit c \<or> c = CHR '','')"

definition match_body :: "string \<Rightarrow> string" where
  \<comment> \<open>the greedy match of \<^verbatim>\<open>[\d,]+\.?\d*\<close> at the start of a string that starts with a
      character of the class\<close>
  "match_body s =
     (let run = takeWhile is_dc s;
          rest = dropWhile is_dc s
      in case rest of
           c # rest' \<Rightarrow> if c = CHR ''.'' then run @ c # takeWhile is_digit rest' else run
         | [] \<Rightarrow> run)"

fun regex_search :: "string \<Rightarrow> string option" where
  \<comment> \<open>\<^verbatim>\<open>re.search(r'-?[\d,]+\.?\d*', s)\<close>: the leftmost match, \<^term>\<open>None\<close> when there is none\<close>
  "regex_search [] = None"
| "regex_search (c # cs) =
     (if c = CHR ''-'' \<and> (case cs of d # ds \<Rightarrow> is_dc d | [] \<Rightarrow> False) then Some (c # match_body cs)
      else if is_dc c then Some (match_body (c # cs))
      else regex_search cs)"

definition remove_commas :: "string \<Rightarrow> string" where
  \<comment> \<open>\<^verbatim>\<open>s.replace(',', '')\<close>\<close>
  "remove_commas s = filter (\<lambda>c. c \<noteq> CHR '','') s"

definition parse_decimal :: "string \<Rightarrow> rat option" where
  \<comment> \<open>the value of unsigned digits with an optional point and decimals; \<^term>\<open>None\<close> when
      the string has another form or no digit\<close>
  "parse_decimal body =
     (let int_part = takeWhile is_digit body;
          rest = dropWhile is_digit body;
          frac = (case rest of
                    [] \<Rightarrow> Some []
                  | c # f \<Rightarrow> if c = CHR ''.'' \<and> list_all is_digit f then Some f else None)
      in case frac of
           None \<Rightarrow> None
         | Some f \<Rightarrow>
             if int_part = [] \<and> f = [] then None
             else Some (of_int (int_of_digits int_part) + of_int (int_of_digits f) / 10 ^ length f))"

definition decimal_value :: "string \<Rightarrow> rat option" where
  \<comment> \<open>the exact value of a decimal numeral with an optional minus sign\<close>
  "decimal_value s =
     (case s of
        c # t \<Rightarrow> if c = CHR ''-'' then map_option uminus (parse_decimal t) else parse_decimal s
      | [] \<Rightarrow> parse_decimal s)"

definition py_float :: "string \<Rightarrow> float_value option" where
  \<comment> \<open>\<^verbatim>\<open>float(s)\<close> on the strings the pattern can return once the commas are removed: an
      optional minus sign, digits, and an optional point with digits. The result is the
      decimal value rounded to a double; \<^term>\<open>None\<close> stands for \<^verbatim>\<open>ValueError\<close>, raised
      when there is no digit at all\<close>
  "py_float s = map_option round_double (decimal_value s)"

datatype amount_type = Dr | Cr

definition parse_amount_and_type :: "string option \<Rightarrow> (float_value \<times> amount_type) option" where
  \<comment> \<open>the source returns the pair \<^verbatim>\<open>(None, None)\<close> where the model returns \<^term>\<open>None\<close>\<close>
  "parse_amount_and_type cell_value =
     (case cell_value of
        None \<Rightarrow> None
      | Some v \<Rightarrow>
          (let cell_str = py_strip v
           in if cell_str = [] \<or> lower cell_str \<in> set [''nan'', ''none'', ''null'', []] then None
              else (case regex_search cell_str of
                      None \<Rightarrow> None
                    | Some amount_match \<Rightarrow>
                        (case py_float (remove_commas amount_match) of
                           None \<Rightarrow> None
                         | Some amount \<Rightarrow>
                             if float_negative amount then Some (float_abs amount, Cr)
                             else if float_positive amount then Some (amount, Dr)
                             else Some (amount, Dr)))))"

definition calculate_amt_tb_lc :: "float_value option \<Rightarrow> amount_type option \<Rightarrow> float_value option" where
  "calculate_amt_tb_lc amount amount_type =
     (case (amount, amount_type) of
        (Some a, Some t) \<Rightarrow> if t = Dr then Some (float_abs a) else Some (float_uminus (float_abs a))
      | _ \<Rightarrow> None)"

definition parse_plain_number :: "string option \<Rightarrow> float_value option" where
  "parse_plain_number cell_value =
     (case cell_value of
        None \<Rightarrow> None
      | Some v \<Rightarrow>
          (let cell_str = py_strip v
           in if cell_str = [] \<or> lower cell_str \<in> set [''nan'', ''none'', ''null''] then None
              else (case regex_search cell_str of
                      None \<Rightarrow> None
                    | Some m \<Rightarrow> py_float (remove_commas m))))"

definition derived_amount :: "string option \<Rightarrow> float_value option" where
  \<comment> \<open>\<^verbatim>\<open>amt_tb_lc\<close> of the derived row made from a cell (lines 1346 to 1349 and 1365 to
      1368 of \<^verbatim>\<open>upload_file\<close>); \<^term>\<open>None\<close> when no row is made\<close>
  "derived_amount cell_value =
     (case parse_amount_and_type cell_value of
        None \<Rightarrow> None
      | Some (amount, amount_type) \<Rightarrow> calculate_amt_tb_lc (Some amount) (Some amount_type))"

definition marker_text :: "string \<Rightarrow> bool" where
  \<comment> \<open>text without digit, comma, point or minus sign, such as \<^verbatim>\<open>Dr\<close> and \<^verbatim>\<open>Cr\<close>\<close>
  "marker_text t = list_all (\<lambda>c. \<not> is_dc c \<and> c \<noteq> CHR ''.'' \<and> c \<noteq> CHR ''-'') t"

definition literal_value :: "bool \<Rightarrow> string \<Rightarrow> string \<Rightarrow> rat" where
  \<comment> \<open>the number written with the digits and thousands separators \<open>ds\<close>, the decimals
      \<open>fs\<close> and a minus sign when \<open>neg\<close>\<close>
  "literal_value neg ds fs =
     (if neg then - 1 else 1)
       * (of_int (int_of_digits (remove_commas ds)) + of_int (int_of_digits fs) / 10 ^ length fs)"

definition literal_text :: "bool \<Rightarrow> string \<Rightarrow> string \<Rightarrow> string" where
  "literal_text neg ds fs =
     (if neg then ''-'' else []) @ ds @ (if fs = [] then [] else CHR ''.'' # fs)"

definition neutral :: "char \<Rightarrow> bool" where
  \<comment> \<open>a character that can neither start nor continue a match of the pattern\<close>
  "neutral c = (\<not> is_dc c \<and> c \<noteq> CHR ''.'' \<and> c \<noteq> CHR ''-'')"

definition tiny_cell :: string where
  \<comment> \<open>the text of \<open>- 1 / 10 ^ 324\<close>: a minus sign, \<^verbatim>\<open>0.\<close>, 323 zeros and a one\<close>
  "tiny_cell = ''-0.'' @ replicate 323 (CHR ''0'') @ ''1''"

section \<open>Financial-year validation (routes/financial\_year\_master.py)\<close>

definition date_in_period :: "date \<Rightarrow> fy_master_row \<Rightarrow> bool" where
  \<comment> \<open>\<^verbatim>\<open>is_active = 1 AND d >= start_date AND d <= end_date\<close>\<close>
  "date_in_period d p = (is_active p \<and> start_date p \<le> d \<and> d \<le> end_date p)"

definition validate_date_against_fy_master :: "fy_master_row list \<Rightarrow> date \<Rightarrow> fy_master_row option" where
  \<comment> \<open>the period found, for \<^verbatim>\<open>valid = True\<close>; \<^term>\<open>None\<close> for \<^verbatim>\<open>valid = False\<close>\<close>
  "validate_date_against_fy_master periods check_date = find (date_in_period check_date) periods"

definition suggested_fy :: "date \<Rightarrow> string" where
  "suggested_fy check_date =
     (let (year, month, day) = check_date
      in if month \<le> 3 then show_int (year - 1) @ ''-'' @ last2 (show_int year)
         else show_int year @ ''-'' @ last2 (show_int (year + 1)))"

definition check_if_previous_fy :: "fy_master_row list \<Rightarrow> date \<Rightarrow> bool \<times> string option" where
  \<comment> \<open>the keys \<^verbatim>\<open>is_previous\<close> and \<^verbatim>\<open>suggested_fy\<close> of the result; the earliest active
      period is the first row in the order of \<^verbatim>\<open>start_date\<close>\<close>
  "check_if_previous_fy periods check_date =
     (case sort_key start_date (filter is_active periods) of
        [] \<Rightarrow> (True, Some (suggested_fy check_date))
      | earliest_fy # others \<Rightarrow>
          if check_date < start_date earliest_fy then (True, Some (suggested_fy check_date))
          else (False, None))"

definition get_current_financial_year :: "fy_master_row list \<Rightarrow> date \<Rightarrow> fy_master_row option" where
  \<comment> \<open>the second argument is \<^verbatim>\<open>date.today()\<close>; the period found, for \<^verbatim>\<open>found = True\<close>\<close>
  "get_current_financial_year periods today = find (date_in_period today) periods"

section \<open>Upload (routes/upload\_data.py)\<close>

datatype upload_error =
    PREVIOUS_FINANCIAL_YEAR_NOT_CONFIGURED string
  | FINANCIAL_YEAR_VALIDATION_FAILED
  | NOT_CURRENT_FINANCIAL_YEAR string string
  | SERVER_ERROR

definition month_number :: "string \<Rightarrow> nat" where
  \<comment> \<open>\<^verbatim>\<open>month_map.get(month_name.lower().strip(), 1)\<close>\<close>
  "month_number month_name =
     (case map_of [(''january'', 1), (''february'', 2), (''march'', 3), (''april'', 4),
                   (''may'', 5), (''june'', 6), (''july'', 7), (''august'', 8),
                   (''september'', 9), (''october'', 10), (''november'', 11), (''december'', 12)]
                  (py_strip (lower month_name)) of
        Some n \<Rightarrow> n
      | None \<Rightarrow> 1)"

definition upload_period_check :: "fy_master_row list \<Rightarrow> date \<Rightarrow> date \<Rightarrow> upload_error + string" where
  \<comment> \<open>lines 1044 to 1090 of \<^verbatim>\<open>upload_file\<close>: the error returned, or the label of the
      validated financial year\<close>
  "upload_period_check periods today upload_date =
     (case validate_date_against_fy_master periods upload_date of
        None \<Rightarrow>
          (let previous_fy_check = check_if_previous_fy periods upload_date
           in if fst previous_fy_check
              then Inl (PREVIOUS_FINANCIAL_YEAR_NOT_CONFIGURED (or_empty (snd previous_fy_check)))
              else Inl FINANCIAL_YEAR_VALIDATION_FAILED)
      | Some selected \<Rightarrow>
          (case get_current_financial_year periods today of
             Some current \<Rightarrow>
               if fy_label selected \<noteq> fy_label current
               then Inl (NOT_CURRENT_FINANCIAL_YEAR (fy_label selected) (fy_label current))
               else Inr (fy_label selected)
           | None \<Rightarrow> Inr (fy_label selected)))"

record upload_request =
  req_ent_name :: string
  req_ent_code :: string
  req_lcl_curr :: "string option"
  req_month_name :: string
  req_year :: int
  req_new_company :: int

record sheet_row =
  cell_particular :: "string option"
  cell_opening :: "string option"
  cell_transaction :: "string option"

definition delete_existing_data_for_entity_month_year :: "database \<Rightarrow> string \<Rightarrow> string \<Rightarrow> int \<Rightarrow> database" where
  \<comment> \<open>the part on \<^verbatim>\<open>final_structured\<close>\<close>
  "delete_existing_data_for_entity_month_year db entity_code month_name year =
     db\<lparr>final_structured :=
          filter (\<lambda>r. \<not> in_dedup_scope entity_code month_name year r) (final_structured db)\<rparr>"

definition get_coa_mapping :: "database \<Rightarrow> string \<Rightarrow> code_master_row option" where
  "get_coa_mapping db particular_name =
     (let clean_particular = py_strip particular_name
      in find (\<lambda>cm. sql_norm (RawParticulars cm) = sql_norm clean_particular) (code_master db))"

definition round2 :: "rat \<Rightarrow> rat" where
  \<comment> \<open>\<^verbatim>\<open>round(x, 2)\<close>, to the nearest hundredth, a tie to the even one\<close>
  "round2 x =
     (let n = x * 100; f = floor n; d = n - of_int f
      in if d < 1 / 2 then of_int f / 100
         else if d > 1 / 2 then of_int (f + 1) / 100
         else if even f then of_int f / 100 else of_int (f + 1) / 100)"

type_synonym record_key = "string \<times> string \<times> string \<times> int \<times> string \<times> rat option"

definition next_sl_no :: "fs_row list \<Rightarrow> nat" where
  \<comment> \<open>a fresh \<^verbatim>\<open>AUTO_INCREMENT\<close> value: above every \<^verbatim>\<open>sl_no\<close> of the table\<close>
  "next_sl_no table = Suc (foldl max 0 (List.map_filter sl_no table))"

definition existing_duplicate :: "fs_row list \<Rightarrow> fs_row \<Rightarrow> rat option \<Rightarrow> bool" where
  \<comment> \<open>the duplicate check of \<^verbatim>\<open>insert_structured_data\<close>: \<^verbatim>\<open>COUNT(*) > 0\<close>\<close>
  "existing_duplicate table new amt_rounded =
     list_ex (\<lambda>r. sql_norm (Particular r) = sql_norm (Particular new)
                \<and> sql_norm_eq (entityCode r) (entityCode new)
                \<and> sql_norm_eq (selectedMonth r) (selectedMonth new)
                \<and> ((case (Year r, Year new) of (Some a, Some b) \<Rightarrow> a = b | _ \<Rightarrow> False)
                   \<or> (case (financial_year r, financial_year new) of
                         (Some a, Some b) \<Rightarrow> a = b | _ \<Rightarrow> False))
                \<and> sql_norm_eq (Month r) (Month new)
                \<and> sql_amount_close (transactionAmount r)
                     (Some (case amt_rounded of Some a \<Rightarrow> a | None \<Rightarrow> 0)))
             table"

definition insert_structured_data :: "database \<times> record_key list \<Rightarrow> fs_row
    \<Rightarrow> (database \<times> record_key list) \<times> nat option" where
  \<comment> \<open>the row \<open>data\<close> holds the values of the \<^verbatim>\<open>INSERT\<close>; the result is the database, the
      set \<^verbatim>\<open>inserted_keys_set\<close> and the returned row id (\<^term>\<open>None\<close> when nothing is inserted)\<close>
  "insert_structured_data st data =
     (let (db, inserted_keys_set) = st;
          amt_tb_lc_rounded = map_option round2 (transactionAmount data);
          record_key = (lower (py_strip (Particular data)),
                        lower (py_strip (or_empty (entityCode data))),
                        lower (py_strip (or_empty (selectedMonth data))),
                        (case Year data of Some y \<Rightarrow> y | None \<Rightarrow> 0),
                        lower (py_strip (or_empty (Month data))),
                        amt_tb_lc_rounded)
      in if record_key \<in> set inserted_keys_set then ((db, inserted_keys_set), None)
         else if existing_duplicate (final_structured db) data amt_tb_lc_rounded
         then ((db, inserted_keys_set), None)
         else (let n = next_sl_no (final_structured db);
                   row = data\<lparr>sl_no := Some n\<rparr>
               in ((db\<lparr>final_structured := final_structured db @ [row]\<rparr>,
                    set_add record_key inserted_keys_set), Some n)))"

definition base_data :: "upload_request \<Rightarrow> string \<Rightarrow> code_master_row option \<Rightarrow> fs_row" where
  \<comment> \<open>the dictionary \<^verbatim>\<open>base_data\<close> with the financial-year label that
      \<^verbatim>\<open>insert_structured_data\<close> adds; amount and month label are filled in later\<close>
  "base_data req particular coa_mapping =
     \<lparr> sl_no = None, Particular = particular, entityName = Some (req_ent_name req),
       entityCode = Some (req_ent_code req), localCurrencyCode = req_lcl_curr req,
       transactionAmount = None, Month = None, selectedMonth = Some (req_month_name req),
       mainCategory = (case coa_mapping of Some cm \<Rightarrow> cm_mainCategory cm | None \<Rightarrow> None),
       category1 = (case coa_mapping of Some cm \<Rightarrow> cm_category1 cm | None \<Rightarrow> None),
       category2 = (case coa_mapping of Some cm \<Rightarrow> cm_category2 cm | None \<Rightarrow> None),
       category3 = (case coa_mapping of Some cm \<Rightarrow> cm_category3 cm | None \<Rightarrow> None),
       category4 = (case coa_mapping of Some cm \<Rightarrow> cm_category4 cm | None \<Rightarrow> None),
       category5 = (case coa_mapping of Some cm \<Rightarrow> cm_category5 cm | None \<Rightarrow> None),
       Avg_Fx_Rt = None, transactionAmountUSD = None, Year = Some (req_year req),
       financial_year = (if req_year req \<noteq> 0 then Some (format_financial_year (req_year req)) else None),
       entity_id = None \<rparr>"

definition rows_with_amount :: "fs_row \<Rightarrow> float_value option \<Rightarrow> string \<Rightarrow> fs_row list" where
  \<comment> \<open>the dictionary handed to \<^verbatim>\<open>insert_structured_data\<close> for an amount and a month label.
      MySQL has no infinite number: the statements of an infinite amount fail, the handlers
      around them go on, and no row is inserted, which is modelled by handing over no row\<close>
  "rows_with_amount base amt_tb_lc month =
     (case amt_tb_lc of
        None \<Rightarrow> [base\<lparr>transactionAmount := None, Month := Some month\<rparr>]
      | Some (Finite x) \<Rightarrow> [base\<lparr>transactionAmount := Some x, Month := Some month\<rparr>]
      | Some Infinity \<Rightarrow> []
      | Some Neg_Infinity \<Rightarrow> [])"

definition derived_rows :: "upload_request \<Rightarrow> code_master_row option \<Rightarrow> string \<Rightarrow> sheet_row \<Rightarrow> fs_row list" where
  \<comment> \<open>the rows handed to \<^verbatim>\<open>insert_structured_data\<close> for one line of the sheet: the
      \<^verbatim>\<open>Opening\<close> row of a first upload, then the row of the month\<close>
  "derived_rows req coa_mapping particular row =
     (let base = base_data req particular coa_mapping
      in (if req_new_company req = 1 then
            (case parse_amount_and_type (cell_opening row) of
               Some (opening_amount, opening_type) \<Rightarrow>
                 rows_with_amount base (calculate_amt_tb_lc (Some opening_amount) (Some opening_type))
                   ''Opening''
             | None \<Rightarrow> [])
          else [])
         @ (case parse_amount_and_type (cell_transaction row) of
              Some (transaction_amount, transaction_type) \<Rightarrow>
                rows_with_amount base
                  (calculate_amt_tb_lc (Some transaction_amount) (Some transaction_type))
                  (req_month_name req)
            | None \<Rightarrow> []))"

definition stored_amounts :: "float_value option \<Rightarrow> rat option list" where
  \<comment> \<open>the amounts of the rows made from a derived amount: none when no row is made\<close>
  "stored_amounts amt_tb_lc =
     (case amt_tb_lc of
        None \<Rightarrow> []
      | Some (Finite x) \<Rightarrow> [Some x]
      | Some Infinity \<Rightarrow> []
      | Some Neg_Infinity \<Rightarrow> [])"

definition insert_counted :: "(database \<times> record_key list) \<times> nat \<Rightarrow> fs_row
    \<Rightarrow> (database \<times> record_key list) \<times> nat" where
  \<comment> \<open>an insertion, counted in \<^verbatim>\<open>records_inserted\<close> when a row id is returned\<close>
  "insert_counted acc data =
     (let (st, records_inserted) = acc;
          (st', result) = insert_structured_data st data
      in (st', if result \<noteq> None then records_inserted + 1 else records_inserted))"

definition process_sheet_row :: "upload_request \<Rightarrow> (database \<times> record_key list) \<times> nat \<Rightarrow> sheet_row
    \<Rightarrow> (database \<times> record_key list) \<times> nat" where
  \<comment> \<open>body of the loop over the rows of the sheet\<close>
  "process_sheet_row req acc row =
     (case cell_particular row of
        None \<Rightarrow> acc
      | Some p \<Rightarrow>
          if p = [] then acc
          else (let particular = py_strip p;
                    coa_mapping = get_coa_mapping (fst (fst acc)) particular
                in foldl insert_counted acc (derived_rows req coa_mapping particular row)))"

definition fx_columns :: "fs_row \<Rightarrow> fs_row" where
  \<comment> \<open>the row dictionary of \<^verbatim>\<open>SELECT sl_no, Particular, mainCategory, category1,
      localCurrencyCode, Avg_Fx_Rt, transactionAmount\<close>\<close>
  "fx_columns r =
     \<lparr> sl_no = sl_no r, Particular = Particular r, entityName = None, entityCode = None,
       localCurrencyCode = localCurrencyCode r, transactionAmount = transactionAmount r,
       Month = None, selectedMonth = None, mainCategory = mainCategory r,
       category1 = category1 r, category2 = None, category3 = None, category4 = None,
       category5 = None, Avg_Fx_Rt = Avg_Fx_Rt r, transactionAmountUSD = None,
       Year = None, financial_year = None, entity_id = None \<rparr>"

definition select_new_rows :: "database \<Rightarrow> string \<Rightarrow> string \<Rightarrow> int \<Rightarrow> fs_row list" where
  \<comment> \<open>the query \<^verbatim>\<open>new_rows_query\<close>: the rows of the upload with a main category and no
      rate, with the seven selected columns; \<^verbatim>\<open>Avg_Fx_Rt = ''\<close> holds for a rate of zero\<close>
  "select_new_rows db ent_code month_name year =
     map fx_columns
         (filter (\<lambda>r. entityCode r = Some ent_code \<and> selectedMonth r = Some month_name
                     \<and> Year r = Some year \<and> \<not> sql_blank (mainCategory r)
                     \<and> (Avg_Fx_Rt r = None \<or> Avg_Fx_Rt r = Some 0))
                 (final_structured db))"

definition ingestion_fx_pass :: "database \<Rightarrow> string \<Rightarrow> string \<Rightarrow> int \<Rightarrow> database" where
  \<comment> \<open>lines 1427 to 1452: rates for the rows of the upload\<close>
  "ingestion_fx_pass db ent_code month_name year =
     (let new_rows = select_new_rows db ent_code month_name year
      in if new_rows = [] then db
         else (let forex_cache = build_forex_cache db new_rows
               in fst (snd (calculate_and_save_forex_rates db new_rows forex_cache True))))"

definition upload_file :: "database \<Rightarrow> date \<Rightarrow> upload_request \<Rightarrow> sheet_row list
    \<Rightarrow> (upload_error + nat) \<times> database" where
  \<comment> \<open>\<^verbatim>\<open>upload_file\<close> from line 1031 on, for a request whose entity and month are
      resolved: the error or \<^verbatim>\<open>records_inserted\<close>, and the database. The second argument is
      today's date. A year outside 1 to 9999 makes \<^verbatim>\<open>datetime\<close> raise, which the handler
      turns into an error response.\<close>
  "upload_file db today req sheet =
     (if req_year req < 1 \<or> req_year req > 9999 then (Inl SERVER_ERROR, db)
      else
        (let upload_date = (req_year req, month_number (req_month_name req), 1)
         in case upload_period_check (financial_year_master db) today upload_date of
              Inl err \<Rightarrow> (Inl err, db)
            | Inr fy \<Rightarrow>
                (let db1 = delete_existing_data_for_entity_month_year db (req_ent_code req)
                             (req_month_name req) (req_year req);
                     ((db2, keys), records_inserted) = foldl (process_sheet_row req) ((db1, []), 0) sheet;
                     db3 = deduplicate_final_structured_for_entity_month_year db2 (req_ent_code req)
                             (req_month_name req) (req_year req);
                     db4 = (if records_inserted > 0
                            then ingestion_fx_pass db3 (req_ent_code req) (req_month_name req) (req_year req)
                            else db3)
                 in (Inr records_inserted, db4))))"

definition fy_2023 :: fy_master_row where
  "fy_2023 = \<lparr> fy_id = 1, fy_label = ''2023-24'', start_date = (2023, 4, 1),
               end_date = (2024, 3, 31), is_active = True \<rparr>"

definition fy_2024 :: fy_master_row where
  "fy_2024 = \<lparr> fy_id = 2, fy_label = ''2024-25'', start_date = (2024, 4, 1),
               end_date = (2025, 3, 31), is_active = True \<rparr>"

definition upload_db :: database where
  "upload_db = example_db\<lparr> code_master := [cash_mapping], financial_year_master := [fy_2023, fy_2024] \<rparr>"

definition cash_request :: upload_request where
  "cash_request = \<lparr> req_ent_name = ''Entity One'', req_ent_code = ''E1'', req_lcl_curr = Some ''INR'',
     req_month_name = ''April'', req_year = 2024, req_new_company = 1 \<rparr>"

definition cash_sheet :: "sheet_row list" where
  "cash_sheet = [\<lparr> cell_particular = Some ''Cash'', cell_opening = Some ''1000'',
                   cell_transaction = Some ''-200'' \<rparr>]"

definition upload_date_of :: "upload_request \<Rightarrow> date" where
  "upload_date_of req = (req_year req, month_number (req_month_name req), 1)"

definition stale_today :: date where
  "stale_today = (2026, 11, 4)"

definition request_for :: "string \<Rightarrow> int \<Rightarrow> upload_request" where
  "request_for month_name year = cash_request\<lparr>req_month_name := month_name, req_year := year\<rparr>"

section \<open>Endpoints that write rates (routes/structure\_data.py)\<close>

datatype endpoint_error = BAD_REQUEST | NOT_FOUND

definition ends_with :: "string \<Rightarrow> string \<Rightarrow> bool" where
  \<comment> \<open>\<^verbatim>\<open>s.endswith(x)\<close>, written \<open>ends_with x s\<close>\<close>
  "ends_with x s = starts_with (rev x) (rev s)"

definition matching_currencies :: "string \<Rightarrow> string list" where
  "matching_currencies currency =
     (if ends_with ''IN'' currency
      then (let base_currency = take (length currency - 2) currency
            in [base_currency, currency])
      else [currency] @ (if length currency = 3 then [currency @ ''IN''] else []))"

definition sql_pl_label :: "string option \<Rightarrow> bool" where
  \<comment> \<open>\<^verbatim>\<open>col IS NOT NULL AND (LOWER(TRIM(col)) = 'profit and loss' OR ... = 'profit & loss'
      OR ... = 'p&l')\<close>\<close>
  "sql_pl_label v =
     (case v of
        None \<Rightarrow> False
      | Some s \<Rightarrow> sql_norm s = ''profit and loss'' \<or> sql_norm s = ''profit & loss''
                  \<or> sql_norm s = ''p&l'')"

definition sql_pl_classified :: "fs_row \<Rightarrow> bool" where
  "sql_pl_classified r = (sql_pl_label (category1 r) \<or> sql_pl_label (mainCategory r))"

definition recalc_scope :: "string list \<Rightarrow> fs_row \<Rightarrow> bool" where
  \<comment> \<open>\<^verbatim>\<open>mainCategory IS NOT NULL AND TRIM(mainCategory) != '' AND transactionAmount IS NOT NULL
      AND (UPPER(TRIM(localCurrencyCode)) = %s OR ...)\<close>\<close>
  "recalc_scope currency_params r =
     (\<not> sql_blank (mainCategory r) \<and> transactionAmount r \<noteq> None
      \<and> (case localCurrencyCode r of
            None \<Rightarrow> False
          | Some c \<Rightarrow> upper (sql_trim c) \<in> set currency_params))"

definition sql_set_rate :: "rat \<Rightarrow> fs_row \<Rightarrow> fs_row" where
  \<comment> \<open>\<^verbatim>\<open>SET Avg_Fx_Rt = %s, transactionAmountUSD = transactionAmount * %s\<close>\<close>
  "sql_set_rate rate r =
     r\<lparr>Avg_Fx_Rt := Some rate,
       transactionAmountUSD := (case transactionAmount r of
                                  Some amt \<Rightarrow> Some (amt * rate)
                                | None \<Rightarrow> None)\<rparr>"

definition sql_update_rate :: "(fs_row \<Rightarrow> bool) \<Rightarrow> rat \<Rightarrow> fs_row list \<Rightarrow> fs_row list" where
  "sql_update_rate cond rate table = map (\<lambda>r. if cond r then sql_set_rate rate r else r) table"

definition recalculate_avg_fx_rate :: "database \<Rightarrow> string option
    \<Rightarrow> (endpoint_error + nat) \<times> database" where
  \<comment> \<open>\<^verbatim>\<open>recalculate_avg_fx_rate\<close> (and \<^verbatim>\<open>recalculate_avg_fx_rate_internal\<close> of
      routes/forex.py, which runs the same statements): the error or \<^verbatim>\<open>updated_count\<close>, and
      the database\<close>
  "recalculate_avg_fx_rate db payload_currency =
     (let currency = py_strip (upper (if truthy_str payload_currency
                                       then or_empty payload_currency else ''USDIN''))
      in case get_latest_row_for_currency db currency of
           None \<Rightarrow> (Inl NOT_FOUND, db)
         | Some forex_row \<Rightarrow>
             (let initial_rate = fm_initial_rate forex_row;
                  latest_rate = fm_latest_rate forex_row
              in if initial_rate = None \<and> latest_rate = None then (Inl BAD_REQUEST, db)
                 else
                   (let avg_rate_pl = (case (initial_rate, latest_rate) of
                                         (Some i, Some l) \<Rightarrow> Some ((i + l) / 2)
                                       | _ \<Rightarrow> None);
                        currency_params = map upper (matching_currencies currency);
                        bs_cond = (\<lambda>r. recalc_scope currency_params r \<and> \<not> sql_pl_classified r);
                        pl_cond = (\<lambda>r. recalc_scope currency_params r \<and> sql_pl_classified r);
                        updated_count = 0;
                        table = final_structured db;
                        table = (case latest_rate of
                                   Some l \<Rightarrow> sql_update_rate bs_cond l table
                                 | None \<Rightarrow> table);
                        updated_count = (case latest_rate of
                                           Some l \<Rightarrow> updated_count + length (filter bs_cond table)
                                         | None \<Rightarrow> updated_count);
                        table = (case avg_rate_pl of
                                   Some a \<Rightarrow> sql_update_rate pl_cond a table
                                 | None \<Rightarrow> table);
                        updated_count = (case avg_rate_pl of
                                           Some a \<Rightarrow> updated_count + length (filter pl_cond table)
                                         | None \<Rightarrow> updated_count)
                    in (Inr updated_count, db\<lparr>final_structured := table\<rparr>))))"

definition or_none :: "string option \<Rightarrow> string option" where
  \<comment> \<open>\<^verbatim>\<open>v or None\<close>\<close>
  "or_none v = (if truthy_str v then v else None)"

definition set_code_categories :: "code_master_row \<Rightarrow> fs_row \<Rightarrow> fs_row" where
  "set_code_categories code_result r =
     r\<lparr>mainCategory := or_none (cm_mainCategory code_result),
       category1 := or_none (cm_category1 code_result),
       category2 := or_none (cm_category2 code_result),
       category3 := or_none (cm_category3 code_result),
       category4 := or_none (cm_category4 code_result),
       category5 := or_none (cm_category5 code_result)\<rparr>"

definition update_by_particular :: "database \<Rightarrow> string option
    \<Rightarrow> (endpoint_error + nat \<times> nat) \<times> database" where
  \<comment> \<open>\<^verbatim>\<open>update_by_particular\<close>: the error or \<^verbatim>\<open>(updated_count, fx_calculated_count)\<close>, and
      the database\<close>
  "update_by_particular db payload_particular =
     (let particular = py_strip (or_empty payload_particular)
      in if particular = [] then (Inl BAD_REQUEST, db)
         else
           (case rev (sort_key code_id
                        (filter (\<lambda>cm. sql_norm (RawParticulars cm) = sql_norm particular)
                                (code_master db))) of
              [] \<Rightarrow> (Inl NOT_FOUND, db)
            | code_result # _ \<Rightarrow>
                (let matches = (\<lambda>r. sql_norm (Particular r) = sql_norm particular);
                     db = db\<lparr>final_structured :=
                               map (\<lambda>r. if matches r then set_code_categories code_result r else r)
                                   (final_structured db)\<rparr>;
                     updated_count = length (filter matches (final_structured db));
                     updated_rows = map fx_columns (filter matches (final_structured db));
                     rows_with_main_category =
                       filter (\<lambda>row. py_strip (or_empty (mainCategory row)) \<noteq> []) updated_rows
                 in if rows_with_main_category \<noteq> [] then
                      (let forex_cache = build_forex_cache db rows_with_main_category;
                           saved = calculate_and_save_forex_rates db rows_with_main_category
                                     forex_cache True
                       in (Inr (updated_count, snd (snd saved)), fst (snd saved)))
                    else (Inr (updated_count, 0), db))))"

definition fx_gated :: "fs_row list \<Rightarrow> bool" where
  \<comment> \<open>the gating invariant on a table\<close>
  "fx_gated table = (\<forall>r \<in> set table. Avg_Fx_Rt r \<noteq> None \<longrightarrow> \<not> sql_blank (mainCategory r))"

definition snapshot_of :: "fs_row list \<Rightarrow> fs_row list \<Rightarrow> bool" where
  \<comment> \<open>the row dictionaries carry the main category the table holds under their \<^verbatim>\<open>sl_no\<close>\<close>
  "snapshot_of table rows =
     (\<forall>row \<in> set rows. \<forall>r \<in> set table. sl_no r = sl_no row \<longrightarrow> mainCategory r = mainCategory row)"

definition code_master_valid :: "database \<Rightarrow> bool" where
  \<comment> \<open>every writer of \<^verbatim>\<open>code_master\<close> (routes/code\_master.py) refuses an empty main
      category after \<^verbatim>\<open>strip()\<close>\<close>
  "code_master_valid db = (\<forall>cm \<in> set (code_master db). \<not> sql_blank (cm_mainCategory cm))"

definition gating_db :: database where
  "gating_db = legacy_db
     \<lparr> code_master := [cash_mapping],
       financial_year_master := [fy_2023, fy_2024],
       final_structured :=
         [(ledger_row 1 ''Cash'' ''April'' 100)\<lparr>mainCategory := Some ''Balance Sheet''\<rparr>,
          ledger_row 2 ''cash '' ''May'' 50,
          (ledger_row 3 ''Bank'' ''April'' 70)\<lparr>mainCategory := Some ''Assets'',
                                               localCurrencyCode := Some ''CHF''\<rparr>,
          (ledger_row 4 ''Sales'' ''April'' (-30))\<lparr>mainCategory := Some ''Income'',
                                                  category1 := Some ''P&L''\<rparr>] \<rparr>"

definition unrated_db :: database where
  "unrated_db = gating_db\<lparr>forex_master := []\<rparr>"

definition gate_key :: "fs_row \<Rightarrow> nat option \<times> string option" where
  "gate_key r = (sl_no r, mainCategory r)"

definition upload_invariant :: "fs_row list \<Rightarrow> bool" where
  \<comment> \<open>the gating invariant together with the primary key \<^verbatim>\<open>sl_no\<close>\<close>
  "upload_invariant table = (fx_gated table \<and> distinct (map sl_no table))"

section \<open>Example ledgers for the de-duplication\<close>

definition dedup_link :: "fs_row list \<Rightarrow> fs_row \<Rightarrow> fs_row \<Rightarrow> bool" where
  \<comment> \<open>the join of the de-duplication pairs \<open>fs1\<close> with a row \<open>fs2\<close> of the table\<close>
  "dedup_link table fs1 fs2 = (fs2 \<in> set table \<and> same_dedup_key fs1 fs2 \<and> sl_no_greater fs1 fs2)"

definition key_transitive :: "fs_row list \<Rightarrow> bool" where
  \<comment> \<open>sharing the key is transitive on the rows of the table, as it is when no two amounts
      differ by less than 0.01 without being equal\<close>
  "key_transitive table =
     (\<forall>a \<in> set table. \<forall>b \<in> set table. \<forall>c \<in> set table.
        same_dedup_key a b \<and> same_dedup_key b c \<longrightarrow> same_dedup_key a c)"

definition opening_example_db :: database where
  "opening_example_db = example_db
     \<lparr> final_structured :=
         [(ledger_row 1 ''Cash'' ''April'' 100)\<lparr>Month := Some ''Opening''\<rparr>,
          (ledger_row 2 ''Cash'' ''April'' 100)\<lparr>Month := Some ''Opening''\<rparr>] \<rparr>"

definition chain_example_db :: database where
  "chain_example_db = example_db
     \<lparr> final_structured :=
         [ledger_row 1 ''Cash'' ''April'' 100, ledger_row 2 ''Cash'' ''April'' (100 + 1 / 200),
          ledger_row 3 ''Cash'' ''April'' (100 + 1 / 100)] \<rparr>"

section \<open>Verified properties\<close>

subsection \<open>Auxiliary facts\<close>

lemma find_Some_set: "find P xs = Some x \<Longrightarrow> x \<in> set xs \<and> P x"
  by (induction xs) (auto split: if_splits)

lemma set_map_filter: "set (List.map_filter f xs) = {y. \<exists>x \<in> set xs. f x = Some y}"
  by (induction xs) (auto split: option.splits)

lemma py_or_rate_same: "py_or_rate a a = a"
  by (simp add: py_or_rate_def split: option.splits)

lemma row_rate_resolved:
  assumes "py_strip (or_empty (mainCategory row)) \<noteq> []"
    and "lookup_fx db cache row (upper (row_currency row)) = Some fx"
  shows "row_rate db cache row =
           select_rate (row_is_pl row) (py_or_rate (opening_rate fx) (initial_rate fx))
                       (py_or_rate (closing_rate fx) (latest_rate fx))"
  using assms by (simp add: row_rate_def row_currency_def row_is_pl_def Let_def)

lemma apply_forex_row_rate:
  "apply_forex_row db cache row =
     (case row_rate db cache row of None \<Rightarrow> (row, False) | Some rate \<Rightarrow> (with_rate row rate, True))"
  by (auto simp: apply_forex_row_def with_rate_def Let_def split: option.splits)

lemma calculate_forex_row_rate:
  "fst (calculate_forex_row db cache s row) =
     (case row_rate db cache row of None \<Rightarrow> row | Some rate \<Rightarrow> with_rate row rate)"
  by (auto simp: calculate_forex_row_def with_rate_def Let_def split: option.splits)

lemma foldl_save_fx_update:
  "foldl save_fx_update t us =
     map (\<lambda>r. case find (\<lambda>u. sl_no r = Some (u_sl_no u)) (rev us) of
                 None \<Rightarrow> r
               | Some u \<Rightarrow> r\<lparr>Avg_Fx_Rt := Some (u_avg_fx_rt u),
                              transactionAmountUSD := u_transaction_amount_usd u\<rparr>) t"
proof (induction us rule: rev_induct)
  case Nil
  then show ?case by simp
next
  case (snoc u us)
  show ?case
    unfolding foldl_append foldl_Cons foldl_Nil snoc.IH
    by (auto simp: save_fx_update_def split: option.splits)
qed

lemma saved_row_cases:
  assumes "r \<in> set (foldl save_fx_update t us)"
  shows "r \<in> set t \<and> (\<forall>u \<in> set us. sl_no r \<noteq> Some (u_sl_no u))
       \<or> (\<exists>r0 \<in> set t. \<exists>u \<in> set us. sl_no r0 = Some (u_sl_no u) \<and>
             r = r0\<lparr>Avg_Fx_Rt := Some (u_avg_fx_rt u),
                     transactionAmountUSD := u_transaction_amount_usd u\<rparr>)"
proof -
  from assms obtain r0 where r0: "r0 \<in> set t"
    and r: "r = (case find (\<lambda>u. sl_no r0 = Some (u_sl_no u)) (rev us) of
                 None \<Rightarrow> r0
               | Some u \<Rightarrow> r0\<lparr>Avg_Fx_Rt := Some (u_avg_fx_rt u),
                              transactionAmountUSD := u_transaction_amount_usd u\<rparr>)"
    unfolding foldl_save_fx_update by auto
  show ?thesis
  proof (cases "find (\<lambda>u. sl_no r0 = Some (u_sl_no u)) (rev us)")
    case None
    then have "\<forall>u \<in> set us. sl_no r0 \<noteq> Some (u_sl_no u)"
      by (auto simp: find_None_iff)
    with None r r0 show ?thesis by simp
  next
    case (Some u)
    then have "u \<in> set us" "sl_no r0 = Some (u_sl_no u)"
      using find_Some_set[OF Some] by auto
    with Some r r0 show ?thesis by auto
  qed
qed

lemma updates_of_batch:
  assumes "u \<in> set (List.map_filter (\<lambda>res. fst (snd res)) (map (calculate_forex_row db cache s) rows))"
  shows "\<exists>row \<in> set rows. \<exists>rate. row_rate db cache row = Some rate \<and> sl_no row = Some (u_sl_no u)
           \<and> u_sl_no u \<noteq> 0 \<and> u_avg_fx_rt u = rate
           \<and> u_transaction_amount_usd u = map_option (\<lambda>a. a * rate) (transactionAmount row)"
proof -
  from assms obtain row where row: "row \<in> set rows"
    and u: "fst (snd (calculate_forex_row db cache s row)) = Some u"
    by (auto simp: set_map_filter)
  from u obtain rate where rate: "row_rate db cache row = Some rate"
    by (cases "row_rate db cache row") (auto simp: calculate_forex_row_def)
  from u rate have "sl_no row = Some (u_sl_no u) \<and> u_sl_no u \<noteq> 0 \<and> u_avg_fx_rt u = rate
      \<and> u_transaction_amount_usd u = map_option (\<lambda>a. a * rate) (transactionAmount row)"
    by (auto simp: calculate_forex_row_def Let_def split: option.splits if_splits)
  with row rate show ?thesis by blast
qed

lemma batch_emits_update:
  assumes "row \<in> set rows" "row_rate db cache row = Some rate" "sl_no row = Some n" "n \<noteq> 0"
  shows "\<exists>u \<in> set (List.map_filter (\<lambda>res. fst (snd res)) (map (calculate_forex_row db cache True) rows)).
           u_sl_no u = n"
proof -
  let ?u = "\<lparr> u_sl_no = n, u_avg_fx_rt = rate,
             u_transaction_amount_usd = (case transactionAmount row of Some a \<Rightarrow> Some (a * rate) | None \<Rightarrow> None) \<rparr>"
  have "fst (snd (calculate_forex_row db cache True row)) = Some ?u"
    using assms by (simp add: calculate_forex_row_def Let_def split: option.splits)
  then have "?u \<in> set (List.map_filter (\<lambda>res. fst (snd res)) (map (calculate_forex_row db cache True) rows))"
    using assms(1) by (force simp: set_map_filter)
  then show ?thesis by (intro bexI[of _ ?u]) simp_all
qed

lemma entity_step_wf: "cache_wf (fst acc) \<Longrightarrow> cache_wf (fst (entity_step db acc t))"
  by (cases acc; cases t)
     (auto simp: entity_step_def cache_wf_def entity_entry_def split: option.splits)

lemma foldl_entity_step_wf:
  "cache_wf (fst acc) \<Longrightarrow> cache_wf (fst (foldl (entity_step db) acc ts))"
  by (induction ts arbitrary: acc) (simp_all add: entity_step_wf)

lemma legacy_step_wf: "cache_wf cache \<Longrightarrow> cache_wf (legacy_step db cache c)"
  by (auto simp: legacy_step_def cache_wf_def legacy_entry_def split: option.splits)

lemma foldl_legacy_step_wf: "cache_wf cache \<Longrightarrow> cache_wf (foldl (legacy_step db) cache cs)"
  by (induction cs arbitrary: cache) (simp_all add: legacy_step_wf)

lemma build_forex_cache_wf: "cache_wf (build_forex_cache db rows)"
proof -
  have "cache_wf (fst (Map.empty, [] :: string list))" by (simp add: cache_wf_def)
  then have "cache_wf (fst (entity_pass db ts))" for ts
    unfolding entity_pass_def by (rule foldl_entity_step_wf)
  then show ?thesis
    unfolding build_forex_cache_def Let_def legacy_pass_def
    by (rule foldl_legacy_step_wf)
qed

lemma lookup_fx_in_cache:
  "lookup_fx db cache row cur = Some fx \<Longrightarrow> \<exists>k. cache k = Some fx"
  by (auto simp: lookup_fx_def Let_def split: option.splits if_splits)

subsection \<open>Rate selection\<close>

text \<open>
  Claim C1. A row with a non-blank main category whose resolved FX record has opening rate
  80 and closing rate 84 gets the rate 82 when its category1 or mainCategory text classifies
  it as Profit and Loss, and the rate 84 otherwise (Balance Sheet or anything else). This
  holds for the in-memory pass \<^const>\<open>apply_forex_row\<close>, for the in-memory result of
  \<^const>\<open>calculate_forex_row\<close>, and for the table after
  \<^const>\<open>calculate_and_save_forex_rates\<close> has saved a batch in which the row's
  \<^verbatim>\<open>sl_no\<close> occurs once.
\<close>

theorem fx_rate_80_84:
  assumes gate: "py_strip (or_empty (mainCategory row)) \<noteq> []"
    and lk: "lookup_fx db cache row (upper (row_currency row)) = Some fx"
    and op: "opening_rate fx = Some 80" and cl: "closing_rate fx = Some 84"
  shows "Avg_Fx_Rt (fst (apply_forex_row db cache row)) = Some (if row_is_pl row then 82 else 84)
       \<and> Avg_Fx_Rt (fst (calculate_forex_row db cache save_to_db row)) = Some (if row_is_pl row then 82 else 84)
       \<and> (\<forall>rows n r. row \<in> set rows \<and> sl_no row = Some n \<and> n \<noteq> 0
             \<and> (\<forall>row' \<in> set rows. sl_no row' = Some n \<longrightarrow> row' = row)
             \<and> r \<in> set (final_structured (fst (snd (calculate_and_save_forex_rates db rows cache True))))
             \<and> sl_no r = Some n
           \<longrightarrow> Avg_Fx_Rt r = Some (if row_is_pl row then 82 else 84))"
proof -
  let ?R = "if row_is_pl row then 82 else 84 :: rat"
  have rr: "row_rate db cache row = Some ?R"
    unfolding row_rate_resolved[OF gate lk] by (simp add: op cl py_or_rate_def select_rate_def)
  have a: "Avg_Fx_Rt (fst (apply_forex_row db cache row)) = Some ?R"
    by (simp add: apply_forex_row_def rr Let_def split: option.splits)
  have b: "Avg_Fx_Rt (fst (calculate_forex_row db cache save_to_db row)) = Some ?R"
    by (simp add: calculate_forex_row_def rr Let_def split: option.splits)
  have c: "Avg_Fx_Rt r = Some ?R"
    if row: "row \<in> set rows" and n: "sl_no row = Some n" "n \<noteq> 0"
      and uniq: "\<forall>row' \<in> set rows. sl_no row' = Some n \<longrightarrow> row' = row"
      and r: "r \<in> set (final_structured (fst (snd (calculate_and_save_forex_rates db rows cache True))))"
      and rn: "sl_no r = Some n" for rows n r
  proof -
    let ?us = "List.map_filter (\<lambda>res. fst (snd res)) (map (calculate_forex_row db cache True) rows)"
    from r have r': "r \<in> set (foldl save_fx_update (final_structured db) ?us)"
      by (simp add: calculate_and_save_forex_rates_def Let_def)
    from batch_emits_update[OF row rr n] obtain u0 where u0: "u0 \<in> set ?us" "u_sl_no u0 = n"
      by blast
    from saved_row_cases[OF r'] u0 rn obtain r0 u where
      u: "u \<in> set ?us" "sl_no r0 = Some (u_sl_no u)"
      and req: "r = r0\<lparr>Avg_Fx_Rt := Some (u_avg_fx_rt u), transactionAmountUSD := u_transaction_amount_usd u\<rparr>"
      by blast
    from req rn u have un: "u_sl_no u = n" by simp
    from updates_of_batch[OF u(1)] un uniq rr have "u_avg_fx_rt u = ?R" by auto
    with req show ?thesis by simp
  qed
  from a b c show ?thesis by blast
qed

theorem fx_rate_80_84_witness:
  "py_strip (or_empty (mainCategory pl_row)) \<noteq> []
   \<and> map_option opening_rate (lookup_fx example_table_db (build_forex_cache example_table_db example_rows) pl_row
         (upper (row_currency pl_row))) = Some (Some 80)
   \<and> row_is_pl pl_row
   \<and> Avg_Fx_Rt (fst (apply_forex_row example_table_db (build_forex_cache example_table_db example_rows) pl_row)) = Some 82
   \<and> Avg_Fx_Rt (fst (calculate_forex_row example_table_db (build_forex_cache example_table_db example_rows) True pl_row)) = Some 82
   \<and> map Avg_Fx_Rt (final_structured (fst (snd (calculate_and_save_forex_rates example_table_db example_rows
         (build_forex_cache example_table_db example_rows) True)))) = [Some 82, Some 84, None, Some 2]
   \<and> \<not> row_is_pl bs_row
   \<and> Avg_Fx_Rt (fst (apply_forex_row example_table_db (build_forex_cache example_table_db example_rows) bs_row)) = Some 84"
proof -
  let ?db = example_table_db
  let ?cache = "build_forex_cache example_table_db example_rows"
  let ?fx = "\<lparr> fx_source = ''entity_forex_rates'', fx_entity_id = Some 1, fx_currency = ''INR'',
       fx_currency_used = None, fx_financial_year = Some 2024,
       opening_rate = Some 80, closing_rate = Some 84,
       initial_rate = Some 80, latest_rate = Some 84 \<rparr>"
  have g1: "py_strip (or_empty (mainCategory pl_row)) \<noteq> []" by code_simp
  have l1: "lookup_fx ?db ?cache pl_row (upper (row_currency pl_row)) = Some ?fx" by code_simp
  have g2: "py_strip (or_empty (mainCategory bs_row)) \<noteq> []" by code_simp
  have l2: "lookup_fx ?db ?cache bs_row (upper (row_currency bs_row)) = Some ?fx" by code_simp
  have pl: "row_is_pl pl_row" by code_simp
  have bs: "\<not> row_is_pl bs_row" by code_simp
  have tbl: "map Avg_Fx_Rt (final_structured (fst (snd (calculate_and_save_forex_rates ?db example_rows ?cache True))))
     = [Some 82, Some 84, None, Some 2]" by code_simp
  note t1 = fx_rate_80_84[OF g1 l1, simplified, of True]
  note t2 = fx_rate_80_84[OF g2 l2, simplified, of True]
  from t1 t2 g1 l1 pl bs tbl show ?thesis by simp
qed

text \<open>
  Claim C2, as amended. For a row with a non-blank main category and an FX record resolved
  from the cache of \<^const>\<open>build_forex_cache\<close>: a P&L-like row gets the average of the
  opening and the closing rate when both exist, and the closing rate when only the closing
  rate exists; any other row gets the closing rate; and whenever the closing rate is absent
  the row is skipped and left as it was, also a P&L-like row whose record has an opening
  rate. The USD amount is the amount times the rate when the amount exists.
\<close>

theorem effective_rate_selection:
  assumes gate: "py_strip (or_empty (mainCategory row)) \<noteq> []"
    and lk: "lookup_fx db (build_forex_cache db rows) row (upper (row_currency row)) = Some fx"
  shows "(row_is_pl row \<and> opening_rate fx = Some a \<and> closing_rate fx = Some b \<longrightarrow>
            fst (apply_forex_row db (build_forex_cache db rows) row) = with_rate row ((a + b) / 2) \<and>
            fst (calculate_forex_row db (build_forex_cache db rows) s row) = with_rate row ((a + b) / 2))
       \<and> (row_is_pl row \<and> opening_rate fx = None \<and> closing_rate fx = Some b \<longrightarrow>
            fst (apply_forex_row db (build_forex_cache db rows) row) = with_rate row b \<and>
            fst (calculate_forex_row db (build_forex_cache db rows) s row) = with_rate row b)
       \<and> (\<not> row_is_pl row \<and> closing_rate fx = Some b \<longrightarrow>
            fst (apply_forex_row db (build_forex_cache db rows) row) = with_rate row b \<and>
            fst (calculate_forex_row db (build_forex_cache db rows) s row) = with_rate row b)
       \<and> (closing_rate fx = None \<longrightarrow>
            apply_forex_row db (build_forex_cache db rows) row = (row, False) \<and>
            calculate_forex_row db (build_forex_cache db rows) s row = (row, None, False))"
proof -
  let ?cache = "build_forex_cache db rows"
  from lookup_fx_in_cache[OF lk] build_forex_cache_wf[of db rows]
  have wf: "initial_rate fx = opening_rate fx" "latest_rate fx = closing_rate fx"
    by (auto simp: cache_wf_def)
  have rr: "row_rate db ?cache row = select_rate (row_is_pl row) (opening_rate fx) (closing_rate fx)"
    unfolding row_rate_resolved[OF gate lk] by (simp add: wf py_or_rate_same)
  show ?thesis
    unfolding apply_forex_row_rate calculate_forex_row_rate rr
    by (auto simp: select_rate_def calculate_forex_row_def rr split: option.splits)
qed

theorem effective_rate_selection_witness:
  "fst (apply_forex_row example_db (build_forex_cache example_db example_rows) pl_row) = with_rate pl_row 82
   \<and> fst (calculate_forex_row example_db (build_forex_cache example_db example_rows) True pl_row) = with_rate pl_row 82
   \<and> fst (apply_forex_row example_db (build_forex_cache example_db example_rows) pl_row_closing_only)
        = with_rate pl_row_closing_only 2
   \<and> fst (apply_forex_row example_db (build_forex_cache example_db example_rows) bs_row) = with_rate bs_row 84
   \<and> apply_forex_row example_db (build_forex_cache example_db example_rows) pl_row_opening_only
        = (pl_row_opening_only, False)
   \<and> calculate_forex_row example_db (build_forex_cache example_db example_rows) True pl_row_opening_only
        = (pl_row_opening_only, None, False)"
proof -
  let ?cache = "build_forex_cache example_db example_rows"
  let ?fx = "\<lambda>e c (o_rate :: rat option) c_rate.
       \<lparr> fx_source = ''entity_forex_rates'', fx_entity_id = Some e, fx_currency = c,
         fx_currency_used = None, fx_financial_year = Some 2024,
         opening_rate = o_rate, closing_rate = c_rate,
         initial_rate = o_rate, latest_rate = c_rate \<rparr>"
  have g1: "py_strip (or_empty (mainCategory pl_row)) \<noteq> []" by code_simp
  have l1: "lookup_fx example_db ?cache pl_row (upper (row_currency pl_row))
              = Some (?fx 1 ''INR'' (Some 80) (Some 84))" by code_simp
  have g2: "py_strip (or_empty (mainCategory pl_row_closing_only)) \<noteq> []" by code_simp
  have l2: "lookup_fx example_db ?cache pl_row_closing_only (upper (row_currency pl_row_closing_only))
              = Some (?fx 3 ''JPY'' None (Some 2))" by code_simp
  have g3: "py_strip (or_empty (mainCategory bs_row)) \<noteq> []" by code_simp
  have l3: "lookup_fx example_db ?cache bs_row (upper (row_currency bs_row))
              = Some (?fx 1 ''INR'' (Some 80) (Some 84))" by code_simp
  have g4: "py_strip (or_empty (mainCategory pl_row_opening_only)) \<noteq> []" by code_simp
  have l4: "lookup_fx example_db ?cache pl_row_opening_only (upper (row_currency pl_row_opening_only))
              = Some (?fx 2 ''EUR'' (Some 90) None)" by code_simp
  have c1: "row_is_pl pl_row" by code_simp
  have c2: "row_is_pl pl_row_closing_only" by code_simp
  have c3: "\<not> row_is_pl bs_row" by code_simp
  note t1 = effective_rate_selection[OF g1 l1, of 80 84 True, simplified]
  note t2 = effective_rate_selection[OF g2 l2, of 0 2 True, simplified]
  note t3 = effective_rate_selection[OF g3 l3, of 0 84 True, simplified]
  note t4 = effective_rate_selection[OF g4 l4, of 0 0 True, simplified]
  from t1 t2 t3 t4 c1 c2 c3 show ?thesis by simp
qed

theorem pl_opening_only_counterexample:
  "row_is_pl pl_row_opening_only
   \<and> map_option opening_rate
        (lookup_fx example_db (build_forex_cache example_db [pl_row_opening_only]) pl_row_opening_only
           (upper (row_currency pl_row_opening_only))) = Some (Some 90)
   \<and> map_option closing_rate
        (lookup_fx example_db (build_forex_cache example_db [pl_row_opening_only]) pl_row_opening_only
           (upper (row_currency pl_row_opening_only))) = Some None
   \<and> Avg_Fx_Rt (fst (apply_forex_row example_db (build_forex_cache example_db [pl_row_opening_only])
        pl_row_opening_only)) = None
   \<and> Avg_Fx_Rt (fst (calculate_forex_row example_db (build_forex_cache example_db [pl_row_opening_only])
        True pl_row_opening_only)) = None"
  by code_simp

subsection \<open>Cache keys\<close>

lemma upper_char_fixed: "\<forall>d \<in> set ''ABCDEFGHIJKLMNOPQRSTUVWXYZ''. upper_char d = d"
  by code_simp

lemma upper_char_idem: "upper_char (upper_char c) = upper_char c"
proof (cases "map_of (zip ''abcdefghijklmnopqrstuvwxyz'' ''ABCDEFGHIJKLMNOPQRSTUVWXYZ'') c")
  case None
  then show ?thesis by (simp only: upper_char_def option.case)
next
  case (Some d)
  then have "(c, d) \<in> set (zip ''abcdefghijklmnopqrstuvwxyz'' ''ABCDEFGHIJKLMNOPQRSTUVWXYZ'')"
    by (rule map_of_SomeD)
  then have "d \<in> set ''ABCDEFGHIJKLMNOPQRSTUVWXYZ''"
    by (rule set_zip_rightD)
  with upper_char_fixed have "upper_char d = d" by (rule bspec)
  moreover from Some have "upper_char c = d" by (simp only: upper_char_def option.case)
  ultimately show ?thesis by (simp only:)
qed

lemma upper_idem: "upper (upper s) = upper s"
  by (simp add: upper_def upper_char_idem)

lemma upper_Nil_iff: "upper s = [] \<longleftrightarrow> s = []"
  by (simp add: upper_def)

lemma digit_table: "\<forall>k \<in> set [0, 1, 2, 3, 4, 5, 6, 7, 8, 9].
    digit_char k \<in> set ''0123456789'' \<and> digit_val (digit_char k) = k"
  by code_simp

lemma digit_char_mod: "digit_char d = digit_char (d mod 10)"
  by (simp add: digit_char_def)

lemma mod10_in_table: "(d::int) mod 10 \<in> set [0, 1, 2, 3, 4, 5, 6, 7, 8, 9]"
proof -
  have "0 \<le> d mod 10" "d mod 10 < 10" by simp_all
  then have "d mod 10 = 0 \<or> d mod 10 = 1 \<or> d mod 10 = 2 \<or> d mod 10 = 3 \<or> d mod 10 = 4
      \<or> d mod 10 = 5 \<or> d mod 10 = 6 \<or> d mod 10 = 7 \<or> d mod 10 = 8 \<or> d mod 10 = 9" by arith
  then show ?thesis by (simp only: list.set insert_iff) blast
qed

lemma digit_char_cases: "digit_char d \<in> set ''0123456789''"
  using bspec[OF digit_table mod10_in_table[of d]] digit_char_mod[of d] by (simp only:)

lemma digit_val_digit_char: "digit_val (digit_char d) = d mod 10"
  using bspec[OF digit_table mod10_in_table[of d]] digit_char_mod[of d] by (simp only:)

lemma digits_of_int_digits: "set (digits_of_int n) \<subseteq> set ''0123456789''"
proof (induction n rule: digits_of_int.induct)
  case (1 n)
  show ?case
  proof (cases "n < 10")
    case True
    then show ?thesis using digit_char_cases[of n] by (subst digits_of_int.simps) simp
  next
    case False
    with 1 digit_char_cases[of "n mod 10"] show ?thesis
      by (subst digits_of_int.simps) simp
  qed
qed

lemma digits_of_int_nonempty: "digits_of_int n \<noteq> []"
  by (subst digits_of_int.simps) simp

lemma int_of_digits_snoc: "int_of_digits (ds @ [c]) = 10 * int_of_digits ds + digit_val c"
  by (simp add: int_of_digits_def)

lemma int_of_digits_of_int: "0 \<le> n \<Longrightarrow> int_of_digits (digits_of_int n) = n"
proof (induction n rule: digits_of_int.induct)
  case (1 n)
  show ?case
  proof (cases "n < 10")
    case True
    with 1(2) show ?thesis
      by (subst digits_of_int.simps) (simp add: int_of_digits_def digit_val_digit_char)
  next
    case False
    with 1 have "int_of_digits (digits_of_int (n div 10)) = n div 10" by simp
    with False show ?thesis
      by (subst digits_of_int.simps) (simp add: int_of_digits_snoc digit_val_digit_char)
  qed
qed

lemma show_int_inj: "show_int a = show_int b \<Longrightarrow> a = b"
proof -
  assume eq: "show_int a = show_int b"
  have nd: "CHR ''-'' \<notin> set (digits_of_int n)" for n
    using digits_of_int_digits[of n] by auto
  have hd_nd: "hd (digits_of_int n) \<noteq> CHR ''-''" for n
    using nd[of n] digits_of_int_nonempty[of n] by (cases "digits_of_int n") auto
  show ?thesis
  proof (cases "a < 0"; cases "b < 0")
    assume "a < 0" "b < 0"
    with eq have "digits_of_int (- a) = digits_of_int (- b)" by (simp add: show_int_def)
    then have "int_of_digits (digits_of_int (- a)) = int_of_digits (digits_of_int (- b))" by simp
    with \<open>a < 0\<close> \<open>b < 0\<close> show ?thesis by (simp add: int_of_digits_of_int)
  next
    assume "a < 0" "\<not> b < 0"
    with eq have "CHR ''-'' # digits_of_int (- a) = digits_of_int b" by (simp add: show_int_def)
    with hd_nd[of b] show ?thesis by (metis list.sel(1))
  next
    assume "\<not> a < 0" "b < 0"
    with eq have "digits_of_int a = CHR ''-'' # digits_of_int (- b)" by (simp add: show_int_def)
    with hd_nd[of a] show ?thesis by (metis list.sel(1))
  next
    assume "\<not> a < 0" "\<not> b < 0"
    with eq have "digits_of_int a = digits_of_int b" by (simp add: show_int_def)
    then have "int_of_digits (digits_of_int a) = int_of_digits (digits_of_int b)" by simp
    with \<open>\<not> a < 0\<close> \<open>\<not> b < 0\<close> show ?thesis by (simp add: int_of_digits_of_int)
  qed
qed

lemma show_int_chars:
  assumes "c \<in> set (show_int a)"
  shows "c = CHR ''-'' \<or> c \<in> set ''0123456789''"
proof (cases "a < 0")
  case True
  with assms have "c = CHR ''-'' \<or> c \<in> set (digits_of_int (- a))"
    by (simp add: show_int_def)
  with digits_of_int_digits[of "- a"] show ?thesis by blast
next
  case False
  with assms have "c \<in> set (digits_of_int a)" by (simp add: show_int_def)
  with digits_of_int_digits[of a] show ?thesis by blast
qed

lemma show_int_no_underscore: "CHR ''_'' \<notin> set (show_int a)"
proof
  assume "CHR ''_'' \<in> set (show_int a)"
  from show_int_chars[OF this] show False by simp
qed

lemma show_int_nonempty: "show_int a \<noteq> []"
  by (simp add: show_int_def digits_of_int_nonempty)

lemma split_at_first:
  assumes "xs @ c # ys = xs' @ c # ys'" "c \<notin> set xs" "c \<notin> set xs'"
  shows "xs = xs' \<and> ys = ys'"
proof -
  have "takeWhile (\<lambda>x. x \<noteq> c) (xs @ c # ys) = xs" using assms(2) by (subst takeWhile_append2) auto
  moreover have "takeWhile (\<lambda>x. x \<noteq> c) (xs' @ c # ys') = xs'" using assms(3) by (subst takeWhile_append2) auto
  ultimately have "xs = xs'" using assms(1) by simp
  with assms(1) show ?thesis by simp
qed

lemma entity_cache_key_inj:
  assumes "entity_cache_key e c y = entity_cache_key e' c' y'"
  shows "e = e' \<and> c = c' \<and> y = y'"
proof -
  from assms have 1: "show_int e @ CHR ''_'' # (c @ ''_'' @ show_int y)
                    = show_int e' @ CHR ''_'' # (c' @ ''_'' @ show_int y')"
    by (simp add: entity_cache_key_def)
  from split_at_first[OF 1 show_int_no_underscore show_int_no_underscore]
  have e: "show_int e = show_int e'" and 2: "c @ ''_'' @ show_int y = c' @ ''_'' @ show_int y'"
    by simp_all
  from 2 have "rev (c @ ''_'' @ show_int y) = rev (c' @ ''_'' @ show_int y')" by simp
  then have 3: "rev (show_int y) @ CHR ''_'' # rev c = rev (show_int y') @ CHR ''_'' # rev c'"
    by simp
  have "rev (show_int y) = rev (show_int y') \<and> rev c = rev c'"
    by (rule split_at_first[OF 3]) (simp_all add: show_int_no_underscore)
  with e show ?thesis by (auto dest: show_int_inj)
qed

lemma entity_key_has_underscore: "CHR ''_'' \<in> set (entity_cache_key e c y)"
  by (simp add: entity_cache_key_def)

lemma legacy_key_has_underscore: "CHR ''_'' \<in> set (legacy_cache_key c)"
  by (simp add: legacy_cache_key_def)

lemma entity_key_not_legacy: "entity_cache_key e c y \<noteq> legacy_cache_key c'"
proof
  assume eq: "entity_cache_key e c y = legacy_cache_key c'"
  obtain d ds where d: "show_int e = d # ds" using show_int_nonempty[of e] by (cases "show_int e") auto
  then have "d \<in> set (show_int e)" by simp
  from show_int_chars[OF this] have "d \<noteq> CHR ''l''" by auto
  moreover from eq d have "d = CHR ''l''" by (simp add: entity_cache_key_def legacy_cache_key_def)
  ultimately show False by simp
qed

lemma legacy_cache_key_inj: "legacy_cache_key c = legacy_cache_key c' \<Longrightarrow> c = c'"
  by (simp add: legacy_cache_key_def)

subsection \<open>Contents of the forex cache\<close>

lemma resolve_entity_rate_first:
  "resolve_entity_rate db eid cur fy =
     map_option (\<lambda>(y, r). (entity_cache_key eid cur y, y, r))
       (first_rate db eid cur [fy, fy + 1, fy - 1])"
  by (auto simp: resolve_entity_rate_def Let_def split: option.splits)

lemma resolve_entity_rate_SomeD:
  assumes "resolve_entity_rate db eid cur fy = Some (k, y, r)"
  shows "k = entity_cache_key eid cur y \<and> get_entity_fy_forex_rate db eid cur y = Some r
         \<and> (y = fy \<or> y = fy + 1 \<or> y = fy - 1)"
  using assms unfolding resolve_entity_rate_first
  by (auto split: option.splits)

lemma set_set_add: "set (set_add x xs) = insert x (set xs)"
  by (auto simp: set_add_def)

lemma entity_pass_snoc: "entity_pass db (ts @ [t]) = entity_step db (entity_pass db ts) t"
  by (simp add: entity_pass_def)

lemma entity_pass_Nil: "entity_pass db [] = (Map.empty, [])"
  by (simp add: entity_pass_def)

lemma entity_step_cases:
  "entity_step db (cache, found) (e, c, fy) =
     (case resolve_entity_rate db e c fy of
        Some (k, y, r) \<Rightarrow> (cache(k \<mapsto> entity_entry e c y r), set_add (upper c) found)
      | None \<Rightarrow> (cache, found))"
  by (simp add: entity_step_def split: option.splits)

lemma entity_pass_entries:
  assumes "fst (entity_pass db ts) k = Some fx"
  shows "\<exists>e c y r. k = entity_cache_key e c y \<and> get_entity_fy_forex_rate db e c y = Some r
           \<and> fx = entity_entry e c y r"
  using assms
proof (induction ts arbitrary: k fx rule: rev_induct)
  case Nil
  then show ?case by (simp add: entity_pass_Nil)
next
  case (snoc t ts)
  obtain cache found where p: "entity_pass db ts = (cache, found)" by (cases "entity_pass db ts")
  obtain e c fy where t: "t = (e, c, fy)" by (cases t)
  show ?case
  proof (cases "resolve_entity_rate db e c fy")
    case None
    with snoc p t show ?thesis by (simp add: entity_pass_snoc entity_step_cases)
  next
    case (Some res)
    obtain k' y r where res: "res = (k', y, r)" by (cases res)
    from resolve_entity_rate_SomeD[OF Some[unfolded res]]
    have k': "k' = entity_cache_key e c y" and g: "get_entity_fy_forex_rate db e c y = Some r"
      by simp_all
    show ?thesis
    proof (cases "k = k'")
      case True
      with snoc.prems p t Some res have "fx = entity_entry e c y r"
        by (simp add: entity_pass_snoc entity_step_cases)
      with True k' g show ?thesis by blast
    next
      case False
      with snoc.prems p t Some res have "fst (entity_pass db ts) k = Some fx"
        by (simp add: entity_pass_snoc entity_step_cases)
      then show ?thesis by (rule snoc.IH)
    qed
  qed
qed

lemma entity_step_found_mono: "set (snd acc) \<subseteq> set (snd (entity_step db acc t))"
  by (cases acc; cases t) (auto simp: entity_step_cases set_set_add split: option.splits)

lemma entity_pass_found:
  assumes "(e, c, fy) \<in> set ts" and "resolve_entity_rate db e c fy \<noteq> None"
  shows "upper c \<in> set (snd (entity_pass db ts))"
  using assms(1)
proof (induction ts rule: rev_induct)
  case Nil
  then show ?case by simp
next
  case (snoc t ts)
  obtain cache found where p: "entity_pass db ts = (cache, found)" by (cases "entity_pass db ts")
  show ?case
  proof (cases "t = (e, c, fy)")
    case True
    with assms(2) p show ?thesis
      by (auto simp: entity_pass_snoc entity_step_cases set_set_add)
  next
    case False
    with snoc have "upper c \<in> set (snd (entity_pass db ts))" by simp
    with entity_step_found_mono[of "entity_pass db ts" db t] show ?thesis
      by (auto simp: entity_pass_snoc)
  qed
qed

lemma entity_pass_keeps:
  assumes "(e, c, fy) \<in> set ts" and "resolve_entity_rate db e c fy = Some (k, y, r)"
  shows "fst (entity_pass db ts) k = Some (entity_entry e c y r)"
  using assms(1)
proof (induction ts rule: rev_induct)
  case Nil
  then show ?case by simp
next
  case (snoc t ts)
  obtain cache found where p: "entity_pass db ts = (cache, found)" by (cases "entity_pass db ts")
  obtain e' c' fy' where t: "t = (e', c', fy')" by (cases t)
  from resolve_entity_rate_SomeD[OF assms(2)]
  have k: "k = entity_cache_key e c y" and g: "get_entity_fy_forex_rate db e c y = Some r"
    by simp_all
  show ?case
  proof (cases "resolve_entity_rate db e' c' fy'")
    case None
    with snoc assms(2) t have "(e, c, fy) \<in> set ts" by auto
    from snoc.IH[OF this] None p t show ?thesis
      by (simp add: entity_pass_snoc entity_step_cases)
  next
    case (Some res)
    obtain k' y' r' where res: "res = (k', y', r')" by (cases res)
    from resolve_entity_rate_SomeD[OF Some[unfolded res]]
    have k': "k' = entity_cache_key e' c' y'" and g': "get_entity_fy_forex_rate db e' c' y' = Some r'"
      by simp_all
    show ?thesis
    proof (cases "k = k'")
      case True
      with k k' have "e = e' \<and> c = c' \<and> y = y'" by (auto dest: entity_cache_key_inj)
      with g g' have "entity_entry e' c' y' r' = entity_entry e c y r" by simp
      with True Some res p t show ?thesis
        by (simp add: entity_pass_snoc entity_step_cases)
    next
      case False
      have "(e, c, fy) \<in> set ts"
      proof (rule ccontr)
        assume "(e, c, fy) \<notin> set ts"
        with snoc.prems t have "(e, c, fy) = (e', c', fy')" by simp
        with Some res assms(2) have "k = k'" by simp
        with False show False by simp
      qed
      from snoc.IH[OF this] False Some res p t show ?thesis
        by (simp add: entity_pass_snoc entity_step_cases)
    qed
  qed
qed

lemma legacy_pass_snoc: "legacy_pass db cache (cs @ [c]) = legacy_step db (legacy_pass db cache cs) c"
  by (simp add: legacy_pass_def)

lemma legacy_pass_other:
  assumes "\<forall>c \<in> set cs. k \<noteq> legacy_cache_key c"
  shows "legacy_pass db cache cs k = cache k"
  using assms
proof (induction cs rule: rev_induct)
  case Nil
  then show ?case by (simp add: legacy_pass_def)
next
  case (snoc c cs)
  then show ?case
    by (auto simp: legacy_pass_snoc legacy_step_def split: option.splits)
qed

lemma legacy_pass_entries:
  assumes "legacy_pass db cache cs k = Some fx"
  shows "cache k = Some fx
       \<or> (\<exists>c \<in> set cs. \<exists>code fx_row. k = legacy_cache_key c
             \<and> legacy_search db (legacy_variants c) [] = Some (code, fx_row)
             \<and> fx = legacy_entry c code fx_row)"
  using assms
proof (induction cs arbitrary: fx rule: rev_induct)
  case Nil
  then show ?case by (simp add: legacy_pass_def)
next
  case (snoc c cs)
  show ?case
  proof (cases "legacy_search db (legacy_variants c) []")
    case None
    with snoc.prems have "legacy_pass db cache cs k = Some fx"
      by (simp add: legacy_pass_snoc legacy_step_def)
    from snoc.IH[OF this] show ?thesis by auto
  next
    case (Some res)
    obtain code fx_row where res: "res = (code, fx_row)" by (cases res)
    show ?thesis
    proof (cases "k = legacy_cache_key c")
      case True
      with snoc.prems Some res have "fx = legacy_entry c code fx_row"
        by (simp add: legacy_pass_snoc legacy_step_def)
      with True Some res show ?thesis by auto
    next
      case False
      with snoc.prems Some res have "legacy_pass db cache cs k = Some fx"
        by (simp add: legacy_pass_snoc legacy_step_def)
      from snoc.IH[OF this] show ?thesis by auto
    qed
  qed
qed

lemma build_forex_cache_entity_key:
  "build_forex_cache db rows (entity_cache_key e c y)
     = fst (entity_pass db (fst (collect_keys db rows))) (entity_cache_key e c y)"
  unfolding build_forex_cache_def Let_def
  by (rule legacy_pass_other) (simp add: entity_key_not_legacy)

lemma build_forex_cache_entries:
  assumes "build_forex_cache db rows k = Some fx"
  shows "(\<exists>e c y r. k = entity_cache_key e c y \<and> get_entity_fy_forex_rate db e c y = Some r
            \<and> fx = entity_entry e c y r)
       \<or> (\<exists>c code fx_row. k = legacy_cache_key c
            \<and> c \<in> set (snd (collect_keys db rows))
            \<and> c \<notin> set (snd (entity_pass db (fst (collect_keys db rows))))
            \<and> legacy_search db (legacy_variants c) [] = Some (code, fx_row)
            \<and> fx = legacy_entry c code fx_row)"
proof -
  from assms have "legacy_pass db (fst (entity_pass db (fst (collect_keys db rows))))
      (filter (\<lambda>c. c \<notin> set (snd (entity_pass db (fst (collect_keys db rows))))) (snd (collect_keys db rows))) k
      = Some fx"
    by (simp add: build_forex_cache_def Let_def)
  from legacy_pass_entries[OF this] show ?thesis
    using entity_pass_entries[of db "fst (collect_keys db rows)" k fx] by auto
qed

lemma collect_row_triples:
  assumes "t \<in> set (fst (collect_row db acc row))"
  shows "t \<in> set (fst acc) \<or> (\<exists>e y. t = (e, upper (row_currency row), y) \<and> row_currency row \<noteq> []
           \<and> row_entity_id db row = Some e \<and> e \<noteq> 0 \<and> row_financial_year row = Some y \<and> y \<noteq> 0)"
  using assms
  by (cases acc) (auto simp: collect_row_def Let_def set_set_add split: option.splits if_splits)

lemma collect_keys_triples:
  assumes "t \<in> set (fst (collect_keys db rows))"
  shows "\<exists>row \<in> set rows. \<exists>e y. t = (e, upper (row_currency row), y) \<and> row_currency row \<noteq> []
           \<and> row_entity_id db row = Some e \<and> e \<noteq> 0 \<and> row_financial_year row = Some y \<and> y \<noteq> 0"
  using assms
proof (induction rows arbitrary: t rule: rev_induct)
  case Nil
  then show ?case by (simp add: collect_keys_def)
next
  case (snoc row rows)
  from snoc.prems have "t \<in> set (fst (collect_row db (collect_keys db rows) row))"
    by (simp add: collect_keys_def)
  from collect_row_triples[OF this] show ?case
  proof
    assume "t \<in> set (fst (collect_keys db rows))"
    from snoc.IH[OF this] show ?thesis by auto
  next
    assume "\<exists>e y. t = (e, upper (row_currency row), y) \<and> row_currency row \<noteq> []
           \<and> row_entity_id db row = Some e \<and> e \<noteq> 0 \<and> row_financial_year row = Some y \<and> y \<noteq> 0"
    then show ?thesis by auto
  qed
qed

lemma fm_order_key_le:
  "fm_order_key a \<le> fm_order_key b \<Longrightarrow>
     fm_timestamp a < fm_timestamp b \<or> (fm_timestamp a = fm_timestamp b \<and> fx_id a \<le> fx_id b)"
proof -
  assume "fm_order_key a \<le> fm_order_key b"
  then have "fm_timestamp a < fm_timestamp b \<or> (fm_timestamp a \<le> fm_timestamp b \<and> fx_id a \<le> fx_id b)"
    by (simp add: fm_order_key_def fm_timestamp_def)
  then show ?thesis by linarith
qed

lemma sorted_map_last:
  "sorted (map f xs) \<Longrightarrow> x \<in> set xs \<Longrightarrow> f x \<le> f (last xs)"
  by (induction xs) (auto)

lemma get_latest_row_None_iff:
  "get_latest_row_for_currency db code = None
     \<longleftrightarrow> \<not> (\<exists>r \<in> set (forex_master db). fm_currency r = code)"
proof -
  let ?xs = "sort_key fm_order_key (filter (\<lambda>r. fm_currency r = code) (forex_master db))"
  have "get_latest_row_for_currency db code = None \<longleftrightarrow> rev ?xs = []"
    by (simp add: get_latest_row_for_currency_def split: list.splits)
  also have "\<dots> \<longleftrightarrow> set ?xs = {}" by (simp only: rev_is_Nil_conv set_empty)
  also have "\<dots> \<longleftrightarrow> set (filter (\<lambda>r. fm_currency r = code) (forex_master db)) = {}"
    by (simp only: set_sort)
  also have "\<dots> \<longleftrightarrow> \<not> (\<exists>r \<in> set (forex_master db). fm_currency r = code)"
    by auto
  finally show ?thesis .
qed

lemma get_latest_row_Some:
  assumes "get_latest_row_for_currency db code = Some r"
  shows "r \<in> set (forex_master db) \<and> fm_currency r = code
       \<and> (\<forall>r' \<in> set (forex_master db). fm_currency r' = code \<longrightarrow>
             fm_timestamp r' < fm_timestamp r
             \<or> (fm_timestamp r' = fm_timestamp r \<and> fx_id r' \<le> fx_id r))"
proof -
  let ?xs = "sort_key fm_order_key (filter (\<lambda>r. fm_currency r = code) (forex_master db))"
  from assms obtain rest where rv: "rev ?xs = r # rest"
    by (auto simp: get_latest_row_for_currency_def split: list.splits)
  then have ne: "?xs \<noteq> []" by auto
  from rv have "hd (rev ?xs) = r" by simp
  with ne have last: "last ?xs = r" by (simp add: hd_rev)
  from ne last have "r \<in> set ?xs" using last_in_set by blast
  then have mem: "r \<in> set (forex_master db)" "fm_currency r = code" by auto
  have srt: "sorted (map fm_order_key ?xs)" by (rule sorted_sort_key)
  have "fm_order_key r' \<le> fm_order_key r"
    if "r' \<in> set (forex_master db)" "fm_currency r' = code" for r'
  proof -
    from that have "r' \<in> set ?xs" by simp
    from sorted_map_last[OF srt this] last show ?thesis by simp
  qed
  then have "fm_timestamp r' < fm_timestamp r
             \<or> (fm_timestamp r' = fm_timestamp r \<and> fx_id r' \<le> fx_id r)"
    if "r' \<in> set (forex_master db)" "fm_currency r' = code" for r'
    using that fm_order_key_le[of r' r] by blast
  with mem show ?thesis by blast
qed

lemma legacy_search_find:
  assumes "\<forall>c \<in> set seen. get_latest_row_for_currency db c = None"
  shows "legacy_search db variants seen =
     (case find (\<lambda>code. get_latest_row_for_currency db code \<noteq> None) variants of
        None \<Rightarrow> None
      | Some code \<Rightarrow> map_option (Pair code) (get_latest_row_for_currency db code))"
  using assms
proof (induction variants arbitrary: seen)
  case Nil
  then show ?case by simp
next
  case (Cons code variants)
  show ?case
  proof (cases "code \<in> set seen")
    case True
    with Cons.prems have "get_latest_row_for_currency db code = None" by blast
    with True Cons.IH[OF Cons.prems] show ?thesis by simp
  next
    case False
    show ?thesis
    proof (cases "get_latest_row_for_currency db code")
      case None
      with Cons.prems have "\<forall>c \<in> set (code # seen). get_latest_row_for_currency db c = None"
        by simp
      from Cons.IH[OF this] None False show ?thesis by simp
    next
      case (Some r)
      with False show ?thesis by simp
    qed
  qed
qed

text \<open>
  Claim C6. For a currency without an entity-specific rate the legacy fallback takes the first
  of the codes: the currency as it is, the currency with \<^verbatim>\<open>IN\<close> appended when it has three
  characters, \<^verbatim>\<open>USDIN\<close>, \<^verbatim>\<open>USD\<close>, for which the legacy table has a row; the row taken
  for a code is the latest one, by time stamp and then by row id, both descending (a missing
  time stamp counts as 1900-01-01); and the cache entry is stored under the legacy key of the
  currency.
\<close>

theorem legacy_fallback_order:
  "legacy_search db (legacy_variants cur) [] =
     (case find (\<lambda>code. \<exists>r \<in> set (forex_master db). fm_currency r = code)
                ([cur] @ (if length cur = 3 then [cur @ ''IN''] else []) @ [''USDIN'', ''USD'']) of
        None \<Rightarrow> None
      | Some code \<Rightarrow> map_option (Pair code) (get_latest_row_for_currency db code))
   \<and> (\<forall>code. (get_latest_row_for_currency db code = None)
                = (\<not> (\<exists>r \<in> set (forex_master db). fm_currency r = code)))
   \<and> (\<forall>code r. get_latest_row_for_currency db code = Some r \<longrightarrow>
         r \<in> set (forex_master db) \<and> fm_currency r = code
         \<and> (\<forall>r' \<in> set (forex_master db). fm_currency r' = code \<longrightarrow>
               fm_timestamp r' < fm_timestamp r
               \<or> (fm_timestamp r' = fm_timestamp r \<and> fx_id r' \<le> fx_id r)))
   \<and> (\<forall>cache. legacy_step db cache cur =
         (case legacy_search db (legacy_variants cur) [] of
            None \<Rightarrow> cache
          | Some (code, fx_row) \<Rightarrow>
              cache(legacy_cache_key cur \<mapsto> legacy_entry cur code fx_row)))"
proof -
  have eq: "(\<lambda>code. get_latest_row_for_currency db code \<noteq> None)
          = (\<lambda>code. \<exists>r \<in> set (forex_master db). fm_currency r = code)"
    by (rule ext) (simp add: get_latest_row_None_iff)
  have 1: "legacy_search db (legacy_variants cur) [] =
     (case find (\<lambda>code. \<exists>r \<in> set (forex_master db). fm_currency r = code)
                ([cur] @ (if length cur = 3 then [cur @ ''IN''] else []) @ [''USDIN'', ''USD'']) of
        None \<Rightarrow> None
      | Some code \<Rightarrow> map_option (Pair code) (get_latest_row_for_currency db code))"
    using legacy_search_find[of "[]" db "legacy_variants cur"]
    unfolding eq legacy_variants_def by simp
  have 4: "legacy_step db cache cur =
         (case legacy_search db (legacy_variants cur) [] of
            None \<Rightarrow> cache
          | Some (code, fx_row) \<Rightarrow>
              cache(legacy_cache_key cur \<mapsto> legacy_entry cur code fx_row))" for cache
    by (simp add: legacy_step_def split: option.splits)
  from 1 4 get_latest_row_None_iff get_latest_row_Some show ?thesis by blast
qed

theorem legacy_fallback_order_witness:
  "legacy_search legacy_db (legacy_variants ''GBP'') []
     = Some (''GBPIN'', \<lparr> fx_id = 3, fm_currency = ''GBPIN'', fm_initial_rate = Some 101,
                          fm_latest_rate = Some 105, fm_month = None, fm_updated_at = Some 200 \<rparr>)
   \<and> map_option fst (legacy_search legacy_db (legacy_variants ''CHF'') []) = Some ''USDIN''
   \<and> map_option fst (legacy_search legacy_db (legacy_variants ''INR'') []) = Some ''INR''
   \<and> legacy_search example_db (legacy_variants ''GBP'') [] = None"
proof -
  have a: "find (\<lambda>code. \<exists>r \<in> set (forex_master legacy_db). fm_currency r = code)
            ([''GBP''] @ (if length ''GBP'' = 3 then [''GBP'' @ ''IN''] else []) @ [''USDIN'', ''USD''])
          = Some ''GBPIN''" by code_simp
  have b: "get_latest_row_for_currency legacy_db ''GBPIN''
          = Some \<lparr> fx_id = 3, fm_currency = ''GBPIN'', fm_initial_rate = Some 101,
                   fm_latest_rate = Some 105, fm_month = None, fm_updated_at = Some 200 \<rparr>"
    by code_simp
  have c: "find (\<lambda>code. \<exists>r \<in> set (forex_master legacy_db). fm_currency r = code)
            ([''CHF''] @ (if length ''CHF'' = 3 then [''CHF'' @ ''IN''] else []) @ [''USDIN'', ''USD''])
          = Some ''USDIN''" by code_simp
  have d: "get_latest_row_for_currency legacy_db ''USDIN'' \<noteq> None" by code_simp
  have e: "find (\<lambda>code. \<exists>r \<in> set (forex_master legacy_db). fm_currency r = code)
            ([''INR''] @ (if length ''INR'' = 3 then [''INR'' @ ''IN''] else []) @ [''USDIN'', ''USD''])
          = Some ''INR''" by code_simp
  have f: "get_latest_row_for_currency legacy_db ''INR'' \<noteq> None" by code_simp
  have g: "find (\<lambda>code. \<exists>r \<in> set (forex_master example_db). fm_currency r = code)
            ([''GBP''] @ (if length ''GBP'' = 3 then [''GBP'' @ ''IN''] else []) @ [''USDIN'', ''USD''])
          = None" by code_simp
  note t1 = legacy_fallback_order[of legacy_db "''GBP''", THEN conjunct1, unfolded a]
  note t2 = legacy_fallback_order[of legacy_db "''CHF''", THEN conjunct1, unfolded c]
  note t3 = legacy_fallback_order[of legacy_db "''INR''", THEN conjunct1, unfolded e]
  note t4 = legacy_fallback_order[of example_db "''GBP''", THEN conjunct1, unfolded g]
  from t1 t2 t3 t4 b d f show ?thesis by auto
qed

text \<open>
  Claim C5. For every (entity, currency, financial year) triple of a batch, the cache builder
  looks up the entity-specific rate of the exact year, then of the year plus one, then of
  the year minus one; the first lookup that finds a rate decides the cache key, and the
  cache built for the batch holds that rate's opening and closing rates under this key.
\<close>

theorem fy_lookup_order:
  assumes "(eid, cur, fy) \<in> set (fst (collect_keys db rows))"
  shows "(case first_rate db eid cur [fy, fy + 1, fy - 1] of
            None \<Rightarrow> resolve_entity_rate db eid cur fy = None
          | Some (y, r) \<Rightarrow>
              resolve_entity_rate db eid cur fy = Some (entity_cache_key eid cur y, y, r)
              \<and> build_forex_cache db rows (entity_cache_key eid cur y) = Some (entity_entry eid cur y r))"
proof (cases "first_rate db eid cur [fy, fy + 1, fy - 1]")
  case None
  then show ?thesis by (simp add: resolve_entity_rate_first)
next
  case (Some yr)
  obtain y r where yr: "yr = (y, r)" by (cases yr)
  from Some yr have res: "resolve_entity_rate db eid cur fy = Some (entity_cache_key eid cur y, y, r)"
    by (simp add: resolve_entity_rate_first)
  from entity_pass_keeps[OF assms res]
  have "build_forex_cache db rows (entity_cache_key eid cur y) = Some (entity_entry eid cur y r)"
    by (simp add: build_forex_cache_entity_key)
  with Some yr res show ?thesis by simp
qed

theorem fy_lookup_order_witness:
  "(1, ''USD'', 2024) \<in> set (fst (collect_keys adjacent_db [adjacent_row]))
   \<and> map_option fst (first_rate adjacent_db 1 ''USD'' [2024, 2024 + 1, 2024 - 1]) = Some 2025
   \<and> map_option (fst \<circ> snd) (resolve_entity_rate adjacent_db 1 ''USD'' 2024) = Some 2025
   \<and> map_option closing_rate (build_forex_cache adjacent_db [adjacent_row] ''1_USD_2025'') = Some (Some 91)"
proof -
  let ?r = "\<lparr> efr_entity_id = 1, efr_currency = ''USD'', efr_financial_year = ''2025-26'',
        efr_opening_rate = Some 90, efr_closing_rate = Some 91 \<rparr>"
  have m: "(1, ''USD'', 2024) \<in> set (fst (collect_keys adjacent_db [adjacent_row]))" by code_simp
  have f: "first_rate adjacent_db 1 ''USD'' [2024, 2024 + 1, 2024 - 1] = Some (2025, ?r)" by code_simp
  have k: "entity_cache_key 1 ''USD'' 2025 = ''1_USD_2025''" by code_simp
  from fy_lookup_order[OF m] m f k show ?thesis
    by (simp add: entity_entry_def)
qed

text \<open>
  Claim C10. The legacy fallback is decided per currency code: when some triple of the batch
  with currency \<open>cur\<close> has an entity-specific rate, the cache has no legacy entry for
  \<open>cur\<close>, and a row with that currency whose own entity has no entity-specific rate for the
  row's year or an adjacent year finds no rate and is left as it was. (The currency code
  is assumed to contain no underscore, the separator of the cache keys.)
\<close>

theorem legacy_fallback_per_currency:
  assumes batch: "(e1, cur, fy1) \<in> set (fst (collect_keys db rows))"
    and found: "resolve_entity_rate db e1 cur fy1 \<noteq> None"
    and cur_row: "upper (row_currency row) = cur"
    and nounder: "CHR ''_'' \<notin> set cur"
    and e2: "row_entity_id db row = Some e2"
    and y2: "row_financial_year row = Some y2"
    and norate: "first_rate db e2 cur [y2, y2 + 1, y2 - 1] = None"
  shows "build_forex_cache db rows (legacy_cache_key cur) = None
       \<and> lookup_fx db (build_forex_cache db rows) row cur = None
       \<and> apply_forex_row db (build_forex_cache db rows) row = (row, False)
       \<and> calculate_forex_row db (build_forex_cache db rows) save_to_db row = (row, None, False)"
proof -
  let ?cache = "build_forex_cache db rows"
  let ?found = "snd (entity_pass db (fst (collect_keys db rows)))"
  from collect_keys_triples[OF batch] have up: "upper cur = cur" by (auto simp: upper_idem)
  from entity_pass_found[OF batch found] up have infound: "cur \<in> set ?found" by simp
  have leg: "?cache (legacy_cache_key cur) = None"
  proof (rule ccontr)
    assume "?cache (legacy_cache_key cur) \<noteq> None"
    then obtain fx where "?cache (legacy_cache_key cur) = Some fx" by auto
    from build_forex_cache_entries[OF this] infound show False
      by (auto simp: entity_key_not_legacy[symmetric] dest!: legacy_cache_key_inj)
  qed
  have ent: "?cache (entity_cache_key e2 cur y) = None"
    if "get_entity_fy_forex_rate db e2 cur y = None" for y
  proof (rule ccontr)
    assume "?cache (entity_cache_key e2 cur y) \<noteq> None"
    then obtain fx where "?cache (entity_cache_key e2 cur y) = Some fx" by auto
    from build_forex_cache_entries[OF this] that show False
      by (auto simp: entity_key_not_legacy dest!: entity_cache_key_inj)
  qed
  have bare: "?cache cur = None"
  proof (rule ccontr)
    assume "?cache cur \<noteq> None"
    then obtain fx where "?cache cur = Some fx" by auto
    from build_forex_cache_entries[OF this] nounder show False
      using entity_key_has_underscore legacy_key_has_underscore by metis
  qed
  from norate have n: "get_entity_fy_forex_rate db e2 cur y2 = None"
      "get_entity_fy_forex_rate db e2 cur (y2 + 1) = None"
      "get_entity_fy_forex_rate db e2 cur (y2 - 1) = None"
    by (auto split: option.splits)
  have lk: "lookup_fx db ?cache row cur = None"
    by (simp add: lookup_fx_def Let_def e2 y2 ent[OF n(1)] ent[OF n(2)] ent[OF n(3)] leg bare)
  have rr: "row_rate db ?cache row = None"
    using lk cur_row by (simp add: row_rate_def Let_def row_currency_def)
  show ?thesis
    using leg lk rr by (simp add: apply_forex_row_def calculate_forex_row_def)
qed

theorem legacy_fallback_per_currency_witness:
  "(1, ''INR'', 2024) \<in> set (fst (collect_keys legacy_db [pl_row, other_entity_row]))
   \<and> resolve_entity_rate legacy_db 1 ''INR'' 2024 \<noteq> None
   \<and> first_rate legacy_db 2 ''INR'' [2024, 2024 + 1, 2024 - 1] = None
   \<and> apply_forex_row legacy_db (build_forex_cache legacy_db [pl_row, other_entity_row]) other_entity_row
       = (other_entity_row, False)
   \<and> fst (apply_forex_row legacy_db (build_forex_cache legacy_db [other_entity_row]) other_entity_row)
       = with_rate other_entity_row 1"
proof -
  have b: "(1, ''INR'', 2024) \<in> set (fst (collect_keys legacy_db [pl_row, other_entity_row]))"
    by code_simp
  have f: "resolve_entity_rate legacy_db 1 ''INR'' 2024 \<noteq> None" by code_simp
  have c: "upper (row_currency other_entity_row) = ''INR''" by code_simp
  have u: "CHR ''_'' \<notin> set ''INR''" by simp
  have e: "row_entity_id legacy_db other_entity_row = Some 2" by code_simp
  have y: "row_financial_year other_entity_row = Some 2024" by code_simp
  have n: "first_rate legacy_db 2 ''INR'' [2024, 2024 + 1, 2024 - 1] = None" by code_simp
  have alone: "fst (apply_forex_row legacy_db (build_forex_cache legacy_db [other_entity_row]) other_entity_row)
       = with_rate other_entity_row 1" by code_simp
  from legacy_fallback_per_currency[OF b f c u e y n, of True] b f n alone
  show ?thesis by simp
qed

subsection \<open>Category sync\<close>

lemma sync_row_idem: "sync_row cms (sync_row cms fs) = sync_row cms fs"
proof (cases "matching_code cms fs")
  case None
  then show ?thesis by (simp add: sync_row_def)
next
  case (Some cm)
  have m: "matching_code cms (set_categories fs cm) = Some cm"
    using Some by (simp add: matching_code_def set_categories_def)
  have s: "set_categories (set_categories fs cm) cm = set_categories fs cm"
    by (simp add: set_categories_def)
  show ?thesis
    using Some m s by (simp add: sync_row_def)
qed

text \<open>
  Claim C7. The sync never adds or removes a row or a mapping. It replaces the six category
  fields of a row by those of the matching mapping when the row's normalised particular
  matches a mapping and at least one category field of the row is null or blank; a row
  without a matching mapping, and a row whose six category fields are all populated, is
  left as it is; and running the sync a second time changes nothing.
\<close>

theorem category_sync:
  "length (final_structured (sync_final_structured_with_code_master db)) = length (final_structured db)
   \<and> code_master (sync_final_structured_with_code_master db) = code_master db
   \<and> (\<forall>i < length (final_structured db).
        (\<forall>cm. matching_code (code_master db) (final_structured db ! i) = Some cm
              \<and> missing_category (final_structured db ! i)
          \<longrightarrow> final_structured (sync_final_structured_with_code_master db) ! i
                = set_categories (final_structured db ! i) cm)
        \<and> (matching_code (code_master db) (final_structured db ! i) = None
          \<longrightarrow> final_structured (sync_final_structured_with_code_master db) ! i = final_structured db ! i)
        \<and> (\<not> missing_category (final_structured db ! i)
          \<longrightarrow> final_structured (sync_final_structured_with_code_master db) ! i = final_structured db ! i))
   \<and> sync_final_structured_with_code_master (sync_final_structured_with_code_master db)
        = sync_final_structured_with_code_master db"
  by (auto simp: sync_final_structured_with_code_master_def sync_row_def sync_row_idem[unfolded sync_row_def]
           split: option.splits)


theorem category_sync_witness:
  "final_structured (sync_final_structured_with_code_master sync_example_db) ! 0
     = (ledger_row 1 ''CASH '' ''April'' 100)
         \<lparr> mainCategory := Some ''Balance Sheet'', category1 := Some ''Assets'' \<rparr>
   \<and> final_structured (sync_final_structured_with_code_master sync_example_db) ! 1 = overridden_row
   \<and> final_structured (sync_final_structured_with_code_master sync_example_db) ! 2
       = ledger_row 3 ''Bank'' ''April'' 70
   \<and> sync_final_structured_with_code_master (sync_final_structured_with_code_master sync_example_db)
       = sync_final_structured_with_code_master sync_example_db"
proof -
  have len: "length (final_structured sync_example_db) = 3" by (simp add: sync_example_db_def)
  have r0: "final_structured sync_example_db ! 0 = ledger_row 1 ''CASH '' ''April'' 100"
    and r1: "final_structured sync_example_db ! 1 = overridden_row"
    and r2: "final_structured sync_example_db ! 2 = ledger_row 3 ''Bank'' ''April'' 70"
    by (simp_all add: sync_example_db_def)
  have m0: "matching_code (code_master sync_example_db) (ledger_row 1 ''CASH '' ''April'' 100) = Some cash_mapping"
    by code_simp
  have n0: "missing_category (ledger_row 1 ''CASH '' ''April'' 100)" by code_simp
  have n1: "\<not> missing_category overridden_row" by code_simp
  have m2: "matching_code (code_master sync_example_db) (ledger_row 3 ''Bank'' ''April'' 70) = None"
    by code_simp
  have s0: "set_categories (ledger_row 1 ''CASH '' ''April'' 100) cash_mapping
     = (ledger_row 1 ''CASH '' ''April'' 100)
         \<lparr> mainCategory := Some ''Balance Sheet'', category1 := Some ''Assets'' \<rparr>"
    by (simp add: set_categories_def cash_mapping_def ledger_row_def)
  note t = category_sync[of sync_example_db]
  note q = t[THEN conjunct2, THEN conjunct2, THEN conjunct1, rule_format]
  have l0: "(0::nat) < length (final_structured sync_example_db)"
    and l1: "(1::nat) < length (final_structured sync_example_db)"
    and l2: "(2::nat) < length (final_structured sync_example_db)"
    by (simp_all add: len)
  from q[OF l0, THEN conjunct1, rule_format, of cash_mapping] m0 n0 r0
  have a: "final_structured (sync_final_structured_with_code_master sync_example_db) ! 0
      = set_categories (final_structured sync_example_db ! 0) cash_mapping"
    by simp
  from q[OF l1, THEN conjunct2, THEN conjunct2] n1 r1
  have b: "final_structured (sync_final_structured_with_code_master sync_example_db) ! 1
      = final_structured sync_example_db ! 1"
    by simp
  from q[OF l2, THEN conjunct2, THEN conjunct1] m2 r2
  have c: "final_structured (sync_final_structured_with_code_master sync_example_db) ! 2
      = final_structured sync_example_db ! 2"
    by simp
  note d = t[THEN conjunct2, THEN conjunct2, THEN conjunct2]
  from a b c d r0 r1 r2 s0 show ?thesis by (simp only:) 
qed


subsection \<open>Hard de-duplication\<close>

lemma same_dedup_key_sym: "same_dedup_key a b \<Longrightarrow> same_dedup_key b a"
  by (auto simp: same_dedup_key_def sql_norm_eq_def sql_amount_close_def abs_minus_commute
           split: option.splits)

lemma sl_no_greater_trans: "sl_no_greater a b \<Longrightarrow> sl_no_greater b c \<Longrightarrow> sl_no_greater a c"
  by (auto simp: sl_no_greater_def split: option.splits)

lemma same_key_scope:
  assumes "in_dedup_scope ec mn yr a" and "same_dedup_key a b"
  shows "in_dedup_scope ec mn yr b"
  using assms
  by (auto simp: in_dedup_scope_def same_dedup_key_def sql_norm_eq_def split: option.splits)

lemma dedup_deleted_iff:
  "dedup_deleted t ec mn yr r \<longleftrightarrow>
     in_dedup_scope ec mn yr r \<and> (\<exists>r' \<in> set t. same_dedup_key r r' \<and> sl_no_greater r r')"
  by (simp add: dedup_deleted_def list_ex_iff)

lemma dedup_chain:
  assumes "dedup_deleted t ec mn yr r" and "sl_no r = Some n"
  shows "\<exists>s \<in> set t. \<not> dedup_deleted t ec mn yr s \<and> tranclp (dedup_link t) r s"
  using assms
proof (induction n arbitrary: r rule: less_induct)
  case (less n)
  from less.prems(1) obtain r' where r': "r' \<in> set t" "same_dedup_key r r'" "sl_no_greater r r'"
    unfolding dedup_deleted_iff by blast
  then have l: "dedup_link t r r'" by (simp add: dedup_link_def)
  from r'(3) less.prems(2) obtain m where m: "sl_no r' = Some m" "m < n"
    by (auto simp: sl_no_greater_def split: option.splits)
  show ?case
  proof (cases "dedup_deleted t ec mn yr r'")
    case False
    with r'(1) l show ?thesis by blast
  next
    case True
    from less.IH[OF m(2) True m(1)] obtain s where
      s: "s \<in> set t" "\<not> dedup_deleted t ec mn yr s" "tranclp (dedup_link t) r' s" by blast
    from l s(3) have "tranclp (dedup_link t) r s" by (rule tranclp_into_tranclp2)
    with s show ?thesis by blast
  qed
qed

lemma dedup_group_lowest:
  assumes tr: "key_transitive t" and r: "r \<in> set t"
    and del: "dedup_deleted t ec mn yr r" and n: "sl_no r = Some n"
  shows "\<exists>s \<in> set t. \<not> dedup_deleted t ec mn yr s \<and> same_dedup_key r s \<and> sl_no_greater r s"
  using r del n
proof (induction n arbitrary: r rule: less_induct)
  case (less n)
  from less.prems(2) obtain r' where r': "r' \<in> set t" "same_dedup_key r r'" "sl_no_greater r r'"
    unfolding dedup_deleted_iff by blast
  from r'(3) less.prems(3) obtain m where m: "sl_no r' = Some m" "m < n"
    by (auto simp: sl_no_greater_def split: option.splits)
  show ?case
  proof (cases "dedup_deleted t ec mn yr r'")
    case False
    with r' show ?thesis by blast
  next
    case True
    from less.IH[OF m(2) r'(1) True m(1)] obtain s where
      s: "s \<in> set t" "\<not> dedup_deleted t ec mn yr s" "same_dedup_key r' s" "sl_no_greater r' s"
      by blast
    from tr less.prems(1) r'(1) s(1) r'(2) s(3) have "same_dedup_key r s"
      unfolding key_transitive_def by blast
    moreover from r'(3) s(4) have "sl_no_greater r s" by (rule sl_no_greater_trans)
    ultimately show ?thesis using s by blast
  qed
qed

text \<open>
  Claim C8 (as amended). The scope of the hard de-duplication is (entity code, selected month,
  year). A row of the table is deleted exactly when it is in the scope and a row of the table
  with the same normalised key (particular, entity code, selected month, year, month label,
  amounts less than 0.01 apart) has a lower \<^verbatim>\<open>sl_no\<close>; the rows are compared in pairs.
  Nothing is added; no two rows that remain in the scope share the key with different
  \<^verbatim>\<open>sl_no\<close>; every deleted row is linked to a remaining row through rows of the table that
  share the key pairwise with falling \<^verbatim>\<open>sl_no\<close>; where sharing the key is transitive on
  the table, a remaining row shares the key of each deleted row and has the lowest
  \<^verbatim>\<open>sl_no\<close> among the rows that share it; a table without such duplicates is left unchanged;
  and a second run deletes nothing.
\<close>

theorem hard_dedup:
  "(\<forall>r \<in> set (final_structured db).
       (r \<in> set (final_structured (deduplicate_final_structured_for_entity_month_year db ec mn yr)))
       = (in_dedup_scope ec mn yr r \<longrightarrow>
            (\<forall>r' \<in> set (final_structured db). same_dedup_key r r' \<longrightarrow> \<not> sl_no_greater r r')))
   \<and> set (final_structured (deduplicate_final_structured_for_entity_month_year db ec mn yr))
        \<subseteq> set (final_structured db)
   \<and> (\<forall>r \<in> set (final_structured (deduplicate_final_structured_for_entity_month_year db ec mn yr)).
       \<forall>r' \<in> set (final_structured (deduplicate_final_structured_for_entity_month_year db ec mn yr)).
         in_dedup_scope ec mn yr r \<and> same_dedup_key r r' \<longrightarrow> \<not> sl_no_greater r r')
   \<and> (\<forall>r \<in> set (final_structured db).
         r \<notin> set (final_structured (deduplicate_final_structured_for_entity_month_year db ec mn yr))
         \<longrightarrow> (\<exists>s \<in> set (final_structured (deduplicate_final_structured_for_entity_month_year db ec mn yr)).
                tranclp (dedup_link (final_structured db)) r s))
   \<and> (key_transitive (final_structured db) \<longrightarrow>
        (\<forall>r \<in> set (final_structured db).
           r \<notin> set (final_structured (deduplicate_final_structured_for_entity_month_year db ec mn yr))
           \<longrightarrow> (\<exists>s \<in> set (final_structured (deduplicate_final_structured_for_entity_month_year db ec mn yr)).
                  same_dedup_key r s \<and> sl_no_greater r s
                  \<and> (\<forall>u \<in> set (final_structured db). same_dedup_key r u \<longrightarrow> \<not> sl_no_greater s u))))
   \<and> ((\<forall>r \<in> set (final_structured db). \<forall>r' \<in> set (final_structured db).
          in_dedup_scope ec mn yr r \<and> same_dedup_key r r' \<longrightarrow> \<not> sl_no_greater r r')
        \<longrightarrow> deduplicate_final_structured_for_entity_month_year db ec mn yr = db)
   \<and> deduplicate_final_structured_for_entity_month_year
        (deduplicate_final_structured_for_entity_month_year db ec mn yr) ec mn yr
      = deduplicate_final_structured_for_entity_month_year db ec mn yr"
proof -
  let ?t = "final_structured db"
  let ?d = "deduplicate_final_structured_for_entity_month_year db ec mn yr"
  note del = dedup_deleted_iff
  have mem: "r \<in> set (final_structured ?d) \<longleftrightarrow> r \<in> set ?t \<and> \<not> dedup_deleted ?t ec mn yr r" for r
    by (simp add: deduplicate_final_structured_for_entity_month_year_def)
  have 1: "\<forall>r \<in> set ?t. (r \<in> set (final_structured ?d))
       = (in_dedup_scope ec mn yr r \<longrightarrow>
            (\<forall>r' \<in> set ?t. same_dedup_key r r' \<longrightarrow> \<not> sl_no_greater r r'))"
    using mem del by blast
  have 2: "set (final_structured ?d) \<subseteq> set ?t" using mem by blast
  have 3: "\<forall>r \<in> set (final_structured ?d). \<forall>r' \<in> set (final_structured ?d).
         in_dedup_scope ec mn yr r \<and> same_dedup_key r r' \<longrightarrow> \<not> sl_no_greater r r'"
  proof (intro ballI impI)
    fix r r'
    assume r: "r \<in> set (final_structured ?d)" and r': "r' \<in> set (final_structured ?d)"
      and k: "in_dedup_scope ec mn yr r \<and> same_dedup_key r r'"
    from r mem have "\<not> dedup_deleted ?t ec mn yr r" by blast
    moreover from r' mem have "r' \<in> set ?t" by blast
    ultimately show "\<not> sl_no_greater r r'" using k del by blast
  qed
  have gone: "dedup_deleted ?t ec mn yr r \<and> (\<exists>n. sl_no r = Some n)"
    if "r \<in> set ?t" "r \<notin> set (final_structured ?d)" for r
  proof -
    from that mem have d: "dedup_deleted ?t ec mn yr r" by blast
    then obtain r' where "sl_no_greater r r'" unfolding del by blast
    then have "\<exists>n. sl_no r = Some n" by (auto simp: sl_no_greater_def split: option.splits)
    with d show ?thesis by simp
  qed
  have 4: "\<forall>r \<in> set ?t. r \<notin> set (final_structured ?d)
         \<longrightarrow> (\<exists>s \<in> set (final_structured ?d). tranclp (dedup_link ?t) r s)"
  proof (intro ballI impI)
    fix r
    assume "r \<in> set ?t" "r \<notin> set (final_structured ?d)"
    from gone[OF this] obtain n where "dedup_deleted ?t ec mn yr r" "sl_no r = Some n" by blast
    from dedup_chain[OF this] mem
    show "\<exists>s \<in> set (final_structured ?d). tranclp (dedup_link ?t) r s" by blast
  qed
  have 5: "key_transitive ?t \<longrightarrow>
        (\<forall>r \<in> set ?t. r \<notin> set (final_structured ?d)
           \<longrightarrow> (\<exists>s \<in> set (final_structured ?d).
                  same_dedup_key r s \<and> sl_no_greater r s
                  \<and> (\<forall>u \<in> set ?t. same_dedup_key r u \<longrightarrow> \<not> sl_no_greater s u)))"
  proof (intro impI ballI)
    fix r
    assume tr: "key_transitive ?t" and r: "r \<in> set ?t" and g: "r \<notin> set (final_structured ?d)"
    from gone[OF r g] obtain n where d: "dedup_deleted ?t ec mn yr r" and n: "sl_no r = Some n"
      by blast
    from dedup_group_lowest[OF tr r d n] obtain s where
      s: "s \<in> set ?t" "\<not> dedup_deleted ?t ec mn yr s" "same_dedup_key r s" "sl_no_greater r s"
      by blast
    from d have "in_dedup_scope ec mn yr r" unfolding del by blast
    then have sc: "in_dedup_scope ec mn yr s" using s(3) by (rule same_key_scope)
    have "\<not> sl_no_greater s u" if u: "u \<in> set ?t" and k: "same_dedup_key r u" for u
    proof -
      from s(3) have "same_dedup_key s r" by (rule same_dedup_key_sym)
      with tr s(1) r u k have "same_dedup_key s u" unfolding key_transitive_def by blast
      with s(2) sc u show ?thesis unfolding del by blast
    qed
    with s mem show "\<exists>s \<in> set (final_structured ?d).
                  same_dedup_key r s \<and> sl_no_greater r s
                  \<and> (\<forall>u \<in> set ?t. same_dedup_key r u \<longrightarrow> \<not> sl_no_greater s u)"
      by blast
  qed
  have clean: "deduplicate_final_structured_for_entity_month_year db' ec mn yr = db'"
    if "\<forall>r \<in> set (final_structured db'). \<forall>r' \<in> set (final_structured db').
          in_dedup_scope ec mn yr r \<and> same_dedup_key r r' \<longrightarrow> \<not> sl_no_greater r r'" for db'
  proof -
    from that have "\<forall>r \<in> set (final_structured db'). \<not> dedup_deleted (final_structured db') ec mn yr r"
      using del by blast
    then have "filter (\<lambda>fs1. \<not> dedup_deleted (final_structured db') ec mn yr fs1) (final_structured db')
        = final_structured db'"
      by (simp add: filter_id_conv)
    then show ?thesis by (simp add: deduplicate_final_structured_for_entity_month_year_def)
  qed
  have 7: "deduplicate_final_structured_for_entity_month_year ?d ec mn yr = ?d"
    using 3 by (rule clean)
  from 1 2 3 4 5 clean[of db] 7 show ?thesis by blast
qed

text \<open>
  Claim C8 as stated does not hold. Two duplicate rows with the month label
  \<^verbatim>\<open>Opening\<close>, filed under April, are left alone by a run for \<^verbatim>\<open>Opening\<close> and reduced to
  one by a run for April: the scope is the selected month. And of three rows with the amounts
  100, 100.005 and 100.01 only the first remains, although the third is not within 0.01 of it.
\<close>

theorem hard_dedup_counterexample:
  "deduplicate_final_structured_for_entity_month_year opening_example_db ''E1'' ''Opening'' 2024
     = opening_example_db
   \<and> map sl_no (final_structured
        (deduplicate_final_structured_for_entity_month_year opening_example_db ''E1'' ''April'' 2024))
     = [Some 1]
   \<and> map sl_no (final_structured
        (deduplicate_final_structured_for_entity_month_year chain_example_db ''E1'' ''April'' 2024))
     = [Some 1]
   \<and> \<not> same_dedup_key (ledger_row 3 ''Cash'' ''April'' (100 + 1 / 100)) (ledger_row 1 ''Cash'' ''April'' 100)"
  by code_simp

text \<open>The example ledger: rows 2 and 4 repeat row 1; the rows of May are outside the scope.\<close>

theorem hard_dedup_witness:
  "map sl_no (final_structured
      (deduplicate_final_structured_for_entity_month_year dedup_example_db ''e1'' ''April'' 2024))
     = [Some 1, Some 3, Some 5, Some 6]
   \<and> ledger_row 2 '' cash'' ''april '' (100 + 1 / 200) \<notin> set (final_structured
      (deduplicate_final_structured_for_entity_month_year dedup_example_db ''e1'' ''April'' 2024))
   \<and> (\<exists>s \<in> set (final_structured
          (deduplicate_final_structured_for_entity_month_year dedup_example_db ''e1'' ''April'' 2024)).
        same_dedup_key (ledger_row 4 ''Cash'' ''April'' 100) s
        \<and> sl_no_greater (ledger_row 4 ''Cash'' ''April'' 100) s)
   \<and> deduplicate_final_structured_for_entity_month_year
        (deduplicate_final_structured_for_entity_month_year dedup_example_db ''e1'' ''April'' 2024)
        ''e1'' ''April'' 2024
      = deduplicate_final_structured_for_entity_month_year dedup_example_db ''e1'' ''April'' 2024"
proof -
  let ?r2 = "ledger_row 2 '' cash'' ''april '' (100 + 1 / 200)"
  let ?r1 = "ledger_row 1 ''Cash'' ''April'' 100"
  let ?r4 = "ledger_row 4 ''Cash'' ''April'' 100"
  let ?d = "deduplicate_final_structured_for_entity_month_year dedup_example_db ''e1'' ''April'' 2024"
  have a: "map sl_no (final_structured ?d) = [Some 1, Some 3, Some 5, Some 6]" by code_simp
  have m2: "?r2 \<in> set (final_structured dedup_example_db)"
    and m1: "?r1 \<in> set (final_structured dedup_example_db)"
    and m4: "?r4 \<in> set (final_structured dedup_example_db)"
    by (simp_all add: dedup_example_db_def)
  have sc: "in_dedup_scope ''e1'' ''April'' 2024 ?r2" by code_simp
  have k: "same_dedup_key ?r2 ?r1" by code_simp
  have g: "sl_no_greater ?r2 ?r1" by code_simp
  have kt: "key_transitive (final_structured dedup_example_db)" by code_simp
  have g4: "?r4 \<notin> set (final_structured ?d)" by code_simp
  note t = hard_dedup[of dedup_example_db "''e1''" "''April''" 2024]
  note t1 = t[THEN conjunct1, rule_format, OF m2]
  from t1 m1 sc k g have b: "?r2 \<notin> set (final_structured ?d)" by blast
  note t5 = t[THEN conjunct2, THEN conjunct2, THEN conjunct2, THEN conjunct2, THEN conjunct1,
              THEN mp, OF kt, THEN bspec, OF m4, THEN mp, OF g4]
  from t5 have c: "\<exists>s \<in> set (final_structured ?d). same_dedup_key ?r4 s \<and> sl_no_greater ?r4 s"
    by blast
  note t7 = t[THEN conjunct2, THEN conjunct2, THEN conjunct2, THEN conjunct2, THEN conjunct2,
              THEN conjunct2]
  from a b c t7 show ?thesis by blast
qed

subsection \<open>Rounding to a double\<close>


lemma two_power_eq: "two_power n = 2 ^ nat n"
proof (induction n rule: two_power.induct)
  case (1 n)
  show ?case
  proof (cases "n \<le> 0")
    case True
    then show ?thesis by simp
  next
    case False
    then have h: "two_power (n div 2) = 2 ^ nat (n div 2)" using 1 by (cases "even n") simp_all
    show ?thesis
    proof (cases "even n")
      case True
      then obtain k where k: "n = 2 * k" by (auto elim: evenE)
      with False have "0 < k" by simp
      then have "nat n = nat k + nat k" using k by simp
      with False True h k show ?thesis by (simp add: power_add)
    next
      case odd: False
      then obtain k where k: "n = 2 * k + 1" by (auto elim: oddE)
      with False have "0 \<le> k" by simp
      then have "nat n = Suc (nat k + nat k)" using k by simp
      moreover have "n div 2 = k" using k by simp
      ultimately show ?thesis using False odd h by (simp add: power_add)
    qed
  qed
qed

lemma pow2_power_int: "pow2 e = power_int 2 e"
proof (cases "0 \<le> e")
  case True
  then have "pow2 e = of_int (2 ^ nat e)" by (simp only: pow2_def two_power_eq if_True)
  also have "\<dots> = 2 ^ nat e" by (simp only: of_int_power of_int_numeral)
  also have "\<dots> = power_int 2 e" using True by (simp only: power_int_def if_True)
  finally show ?thesis .
next
  case False
  then have "pow2 e = 1 / of_int (2 ^ nat (- e))" by (simp only: pow2_def two_power_eq if_False)
  also have "\<dots> = 1 / 2 ^ nat (- e)" by (simp only: of_int_power of_int_numeral)
  also have "\<dots> = inverse 2 ^ nat (- e)" by (simp only: power_one_over inverse_eq_divide)
  also have "\<dots> = power_int 2 e" using False by (simp only: power_int_def if_False)
  finally show ?thesis .
qed

lemma pow2_pos: "0 < pow2 e"
  by (simp add: pow2_power_int)

lemma pow2_add: "pow2 (m + n) = pow2 m * pow2 n"
  by (simp add: pow2_power_int power_int_add)

lemma pow2_diff: "pow2 (m - n) = pow2 m / pow2 n"
  by (simp add: pow2_power_int power_int_diff)

lemma pow2_nat: "pow2 (int n) = 2 ^ n"
  by (simp add: pow2_power_int)

lemma pow2_mono: "m \<le> n \<Longrightarrow> pow2 m \<le> pow2 n"
proof -
  assume "m \<le> n"
  then obtain k where k: "n = m + int k" using zle_iff_zadd by blast
  have "(1::rat) \<le> 2 ^ k" by simp
  then have "pow2 m * 1 \<le> pow2 m * 2 ^ k" using pow2_pos[of m] by (simp del: mult_1_right)
  then show ?thesis by (simp add: k pow2_add pow2_nat)
qed

lemma pow2_less_imp: "pow2 m < pow2 n \<Longrightarrow> m < n"
  using pow2_mono[of n m] by (cases "m < n") auto

lemma pow2_less: "m < n \<Longrightarrow> pow2 m < pow2 n"
proof -
  assume "m < n"
  then obtain k where k: "n = m + 1 + int k" using zle_iff_zadd[of "m + 1" n] by auto
  have "(1::rat) \<le> 2 ^ k" by simp
  then have "(1::rat) < 2 * 2 ^ k" by linarith
  then have "pow2 m * 1 < pow2 m * (2 * 2 ^ k)" using pow2_pos[of m] by (simp del: mult_1_right)
  moreover have "pow2 1 = 2" by (simp add: pow2_power_int)
  ultimately show ?thesis by (simp add: k pow2_add pow2_nat)
qed

lemma floor_log2_bounds:
  assumes "0 < a"
  shows "pow2 (floor_log2 a) \<le> a \<and> a < pow2 (floor_log2 a + 1)"
proof -
  obtain p q where pq: "quotient_of a = (p, q)" by (cases "quotient_of a")
  then have q: "0 < q" by (rule quotient_of_denom_pos)
  from pq have a: "a = of_int p / of_int q" by (rule quotient_of_div)
  with assms q have p: "0 < p" by (simp add: zero_less_divide_iff)
  define bp where "bp = bitlen p"
  define bq where "bq = bitlen q"
  from bitlen_bounds[OF p] have p1: "2 ^ nat (bp - 1) \<le> p" and p2: "p < 2 ^ nat bp"
    by (simp_all add: bp_def)
  from bitlen_bounds[OF q] have q1: "2 ^ nat (bq - 1) \<le> q" and q2: "q < 2 ^ nat bq"
    by (simp_all add: bq_def)
  have bp1: "1 \<le> bp" using p bitlen_eq_zero_iff[of p] bitlen_nonneg[of p] by (simp add: bp_def)
  have bq1: "1 \<le> bq" using q bitlen_eq_zero_iff[of q] bitlen_nonneg[of q] by (simp add: bq_def)
  have P1: "pow2 (bp - 1) \<le> of_int p"
  proof -
    from p1 have "(of_int (2 ^ nat (bp - 1)) :: rat) \<le> of_int p" by (simp only: of_int_le_iff)
    moreover have "pow2 (bp - 1) = 2 ^ nat (bp - 1)" using bp1 pow2_nat[of "nat (bp - 1)"] by simp
    ultimately show ?thesis by simp
  qed
  have P2: "of_int p < pow2 bp"
  proof -
    from p2 have "(of_int p :: rat) < of_int (2 ^ nat bp)" by (simp only: of_int_less_iff)
    moreover have "pow2 bp = 2 ^ nat bp" using bp1 pow2_nat[of "nat bp"] by simp
    ultimately show ?thesis by simp
  qed
  have Q1: "pow2 (bq - 1) \<le> of_int q"
  proof -
    from q1 have "(of_int (2 ^ nat (bq - 1)) :: rat) \<le> of_int q" by (simp only: of_int_le_iff)
    moreover have "pow2 (bq - 1) = 2 ^ nat (bq - 1)" using bq1 pow2_nat[of "nat (bq - 1)"] by simp
    ultimately show ?thesis by simp
  qed
  have Q2: "of_int q < pow2 bq"
  proof -
    from q2 have "(of_int q :: rat) < of_int (2 ^ nat bq)" by (simp only: of_int_less_iff)
    moreover have "pow2 bq = 2 ^ nat bq" using bq1 pow2_nat[of "nat bq"] by simp
    ultimately show ?thesis by simp
  qed
  have qr: "(0::rat) < of_int q" using q by simp
  have low: "pow2 (bp - bq - 1) \<le> a"
  proof -
    have "pow2 (bp - bq - 1) * of_int q \<le> pow2 (bp - bq - 1) * pow2 bq"
      using Q2 pow2_pos[of "bp - bq - 1"] by (simp add: less_imp_le)
    also have "\<dots> = pow2 (bp - 1)" by (simp add: pow2_add[symmetric])
    also have "\<dots> \<le> of_int p" by (rule P1)
    finally show ?thesis using qr by (simp add: a pos_le_divide_eq)
  qed
  have high: "a < pow2 (bp - bq + 1)"
  proof -
    have "of_int p < pow2 bp" by (rule P2)
    also have "\<dots> = pow2 (bp - bq + 1) * pow2 (bq - 1)" by (simp add: pow2_add[symmetric])
    also have "\<dots> \<le> pow2 (bp - bq + 1) * of_int q"
      using Q1 pow2_pos[of "bp - bq + 1"] by simp
    finally show ?thesis using qr by (simp add: a pos_divide_less_eq)
  qed
  have fl: "floor_log2 a = (if pow2 (bp - bq) \<le> a then bp - bq else bp - bq - 1)"
    by (simp add: floor_log2_def pq bp_def bq_def)
  show ?thesis
  proof (cases "pow2 (bp - bq) \<le> a")
    case True
    with fl high show ?thesis by simp
  next
    case False
    with fl low show ?thesis by simp
  qed
qed

lemma round_half_even_near: "\<bar>of_int (round_half_even y) - y\<bar> \<le> 1 / 2"
proof -
  have "of_int \<lfloor>y\<rfloor> \<le> y" "y < of_int \<lfloor>y\<rfloor> + 1" by linarith+
  then show ?thesis by (auto simp: round_half_even_def Let_def)
qed

lemma round_half_even_ge1: "1 / 2 < y \<Longrightarrow> 1 \<le> round_half_even y"
proof -
  assume h: "1 / 2 < y"
  then have f0: "0 \<le> \<lfloor>y\<rfloor>" by linarith
  show ?thesis
  proof (cases "\<lfloor>y\<rfloor> = 0")
    case True
    with h show ?thesis by (simp add: round_half_even_def Let_def)
  next
    case False
    with f0 have "1 \<le> \<lfloor>y\<rfloor>" by linarith
    then show ?thesis by (auto simp: round_half_even_def Let_def)
  qed
qed

lemma round_half_even_zero: "0 \<le> y \<Longrightarrow> y \<le> 1 / 2 \<Longrightarrow> round_half_even y = 0"
proof -
  assume "0 \<le> y" "y \<le> 1 / 2"
  then have "\<lfloor>y\<rfloor> = 0" by linarith
  with \<open>y \<le> 1 / 2\<close> show ?thesis by (simp add: round_half_even_def Let_def)
qed

lemma round_half_even_nonneg: "0 \<le> y \<Longrightarrow> 0 \<le> round_half_even y"
proof -
  assume "0 \<le> y"
  then have "0 \<le> \<lfloor>y\<rfloor>" by linarith
  then show ?thesis by (auto simp: round_half_even_def Let_def)
qed

lemma round_half_even_int: "round_half_even (of_int k) = k"
  by (simp add: round_half_even_def)

lemma round_double_minus: "round_double (- x) = float_uminus (round_double x)"
  by (cases "x = 0"; cases "x < 0") (auto simp: round_double_def Let_def)

lemma pow2_half: "pow2 (- 1075) = pow2 (- 1074) * (1 / 2)"
proof -
  have "pow2 (- 1) = 1 / 2" by (simp add: pow2_power_int)
  then show ?thesis using pow2_add[of "- 1074" "- 1"] by simp
qed

lemma round_double_above:
  assumes "pow2 (- 1075) < x"
  shows "float_positive (round_double x)"
proof -
  from assms pow2_pos[of "- 1075"] have x0: "0 < x" by simp
  define e where "e = max (- 1074) (floor_log2 x - 52)"
  define m where "m = round_half_even (x / pow2 e)"
  have "1 / 2 < x / pow2 e"
  proof (cases "- 1074 \<le> floor_log2 x - 52")
    case True
    then have "e = floor_log2 x - 52" by (simp add: e_def)
    then have "pow2 e \<le> pow2 (floor_log2 x)" by (simp add: pow2_mono)
    with floor_log2_bounds[OF x0] have "pow2 e \<le> x" by simp
    then have "1 \<le> x / pow2 e" using pow2_pos[of e] by (simp add: pos_le_divide_eq)
    then show ?thesis by linarith
  next
    case False
    then have e: "e = - 1074" by (simp add: e_def)
    from assms have "pow2 (- 1074) * (1 / 2) < x" by (simp only: pow2_half)
    then show ?thesis unfolding e using pow2_pos[of "- 1074"]
      by (simp add: pos_less_divide_eq mult.commute)
  qed
  then have "1 \<le> m" unfolding m_def by (rule round_half_even_ge1)
  then have "0 < (of_int m :: rat) * pow2 e" using pow2_pos[of e] by simp
  moreover have "round_double x = (if pow2 1024 \<le> of_int m * pow2 e then Infinity
                                   else Finite (of_int m * pow2 e))"
    using x0 by (simp add: round_double_def Let_def m_def e_def)
  ultimately show ?thesis by simp
qed

lemma round_double_underflow:
  assumes "0 < x" and "x \<le> pow2 (- 1075)"
  shows "round_double x = Finite 0"
proof -
  have "pow2 (- 1075) < pow2 (- 1074)" using pow2_pos[of "- 1074"] by (simp add: pow2_half)
  with floor_log2_bounds[OF assms(1)] assms(2) have "pow2 (floor_log2 x) < pow2 (- 1074)" by simp
  then have "floor_log2 x < - 1074" by (rule pow2_less_imp)
  then have e: "max (- 1074) (floor_log2 x - 52) = - 1074" by simp
  from assms(2) have "x \<le> pow2 (- 1074) * (1 / 2)" by (simp only: pow2_half)
  then have "x / pow2 (- 1074) \<le> 1 / 2" using pow2_pos[of "- 1074"]
    by (simp add: pos_divide_le_eq mult.commute)
  moreover have "0 \<le> x / pow2 (- 1074)" using assms(1) pow2_pos[of "- 1074"] by simp
  ultimately have "round_half_even (x / pow2 (- 1074)) = 0" by (rule round_half_even_zero[rotated])
  moreover have "\<not> pow2 1024 \<le> 0" using pow2_pos[of 1024] by simp
  ultimately show ?thesis using assms(1) by (simp add: round_double_def Let_def e)
qed

lemma round_double_positive_iff: "float_positive (round_double x) \<longleftrightarrow> pow2 (- 1075) < x"
proof
  assume "pow2 (- 1075) < x"
  then show "float_positive (round_double x)" by (rule round_double_above)
next
  assume p: "float_positive (round_double x)"
  show "pow2 (- 1075) < x"
  proof (rule ccontr)
    assume "\<not> pow2 (- 1075) < x"
    then have le: "x \<le> pow2 (- 1075)" by simp
    consider "x < 0" | "x = 0" | "0 < x" by linarith
    then show False
    proof cases
      case 1
      define m where "m = round_half_even (\<bar>x\<bar> / pow2 (max (- 1074) (floor_log2 \<bar>x\<bar> - 52)))"
      have "0 \<le> \<bar>x\<bar> / pow2 (max (- 1074) (floor_log2 \<bar>x\<bar> - 52))"
        using pow2_pos[of "max (- 1074) (floor_log2 \<bar>x\<bar> - 52)"] by simp
      then have "0 \<le> m" unfolding m_def by (rule round_half_even_nonneg)
      then have "0 \<le> (of_int m :: rat) * pow2 (max (- 1074) (floor_log2 \<bar>x\<bar> - 52))"
        using pow2_pos[of "max (- 1074) (floor_log2 \<bar>x\<bar> - 52)"] by simp
      with 1 have "\<not> float_positive (round_double x)"
        by (simp add: round_double_def Let_def m_def)
      with p show False by simp
    next
      case 2
      with p show False by (simp add: round_double_def)
    next
      case 3
      from round_double_underflow[OF 3 le] p show False by simp
    qed
  qed
qed

lemma float_negative_uminus: "float_negative (float_uminus f) = float_positive f"
  by (cases f) simp_all

lemma round_double_negative_iff: "float_negative (round_double x) \<longleftrightarrow> x < - pow2 (- 1075)"
proof -
  have "float_negative (round_double x) = float_positive (round_double (- x))"
    using round_double_minus[of "- x"] by (simp add: float_negative_uminus)
  also have "\<dots> \<longleftrightarrow> pow2 (- 1075) < - x" by (rule round_double_positive_iff)
  finally show ?thesis by linarith
qed

lemma round_double_accurate:
  assumes "pow2 (- 1022) \<le> \<bar>x\<bar>" and "round_double x = Finite r"
  shows "\<bar>r - x\<bar> \<le> \<bar>x\<bar> / 2 ^ 53"
proof -
  have pos: "\<bar>r - x\<bar> \<le> x / 2 ^ 53" if x: "pow2 (- 1022) \<le> x" and r: "round_double x = Finite r" for x r
  proof -
    from x pow2_pos[of "- 1022"] have x0: "0 < x" by simp
    from floor_log2_bounds[OF x0] x have "pow2 (- 1022) < pow2 (floor_log2 x + 1)" by simp
    then have "- 1022 < floor_log2 x + 1" by (rule pow2_less_imp)
    then have me: "max (- 1074) (floor_log2 x - 52) = floor_log2 x - 52" by simp
    define e where "e = floor_log2 x - 52"
    define m where "m = round_half_even (x / pow2 e)"
    have "round_double x = (if pow2 1024 \<le> of_int m * pow2 e then Infinity
                            else Finite (of_int m * pow2 e))"
      using x0 by (simp add: round_double_def Let_def me m_def e_def)
    with r have rr: "r = of_int m * pow2 e" by (simp split: if_splits)
    have "\<bar>of_int m - x / pow2 e\<bar> \<le> 1 / 2" unfolding m_def by (rule round_half_even_near)
    then have "\<bar>of_int m - x / pow2 e\<bar> * pow2 e \<le> 1 / 2 * pow2 e"
      using pow2_pos[of e] by (simp only: mult_le_cancel_right_pos)
    moreover have "\<bar>of_int m - x / pow2 e\<bar> * pow2 e = \<bar>of_int m * pow2 e - x\<bar>"
    proof -
      have "\<bar>of_int m - x / pow2 e\<bar> * pow2 e = \<bar>(of_int m - x / pow2 e) * pow2 e\<bar>"
        using pow2_pos[of e] by (simp add: abs_mult)
      also have "(of_int m - x / pow2 e) * pow2 e = of_int m * pow2 e - x"
        using pow2_pos[of e] by (simp add: left_diff_distrib)
      finally show ?thesis .
    qed
    ultimately have d: "\<bar>r - x\<bar> \<le> pow2 e / 2" by (simp add: rr)
    have "pow2 e = pow2 (floor_log2 x) / 2 ^ 52"
      using pow2_diff[of "floor_log2 x" 52] pow2_nat[of 52] by (simp add: e_def)
    also have "\<dots> \<le> x / 2 ^ 52" using floor_log2_bounds[OF x0] by (simp add: divide_right_mono)
    finally have "pow2 e / 2 \<le> x / 2 ^ 53" by simp
    with d show ?thesis by simp
  qed
  show ?thesis
  proof (cases "0 \<le> x")
    case True
    with assms pos[of x r] show ?thesis by simp
  next
    case False
    from assms(2) have "round_double (- x) = Finite (- r)" by (simp add: round_double_minus)
    with False assms(1) pos[of "- x" "- r"] show ?thesis by simp
  qed
qed

subsection \<open>Sign of the derived amount\<close>

lemma derived_amount_plain: "derived_amount cell = parse_plain_number cell"
proof (cases cell)
  case None
  then show ?thesis
    by (simp add: derived_amount_def parse_amount_and_type_def parse_plain_number_def)
next
  case (Some v)
  show ?thesis
  proof (cases "py_strip v = [] \<or> lower (py_strip v) \<in> set [''nan'', ''none'', ''null'']")
    case True
    with Some show ?thesis
      by (auto simp: derived_amount_def parse_amount_and_type_def parse_plain_number_def Let_def)
  next
    case False
    then have ne: "lower (py_strip v) \<noteq> []" by (simp add: lower_def)
    show ?thesis
    proof (cases "regex_search (py_strip v)")
      case None
      with Some False ne show ?thesis
        by (simp add: derived_amount_def parse_amount_and_type_def parse_plain_number_def Let_def)
    next
      case m: (Some m)
      show ?thesis
      proof (cases "py_float (remove_commas m)")
        case None
        with Some False ne m show ?thesis
          by (simp add: derived_amount_def parse_amount_and_type_def parse_plain_number_def Let_def)
      next
        case a: (Some a)
        have "float_negative a \<longrightarrow> calculate_amt_tb_lc (Some (float_abs a)) (Some Cr) = Some a"
          and "\<not> float_negative a \<longrightarrow> calculate_amt_tb_lc (Some a) (Some Dr) = Some a"
          by (cases a; simp add: calculate_amt_tb_lc_def)+
        with Some False ne m a show ?thesis
          by (simp add: derived_amount_def parse_amount_and_type_def parse_plain_number_def Let_def)
      qed
    qed
  qed
qed

lemma marker_text_iff: "marker_text t \<longleftrightarrow> (\<forall>c \<in> set t. neutral c)"
  by (simp add: marker_text_def neutral_def list_all_iff)

lemma regex_search_neutral_Cons: "neutral c \<Longrightarrow> regex_search (c # s) = regex_search s"
  by (simp add: neutral_def)

lemma regex_search_neutral_prefix:
  "\<forall>c \<in> set p. neutral c \<Longrightarrow> regex_search (p @ s) = regex_search s"
proof (induction p)
  case Nil
  then show ?case by simp
next
  case (Cons a p)
  then have "neutral a" by simp
  then have "regex_search (a # (p @ s)) = regex_search (p @ s)" by (rule regex_search_neutral_Cons)
  with Cons show ?case by simp
qed

lemma takeWhile_snoc_not: "\<not> P c \<Longrightarrow> takeWhile P (xs @ [c]) = takeWhile P xs"
  by (induction xs) simp_all

lemma dropWhile_snoc_not: "\<not> P c \<Longrightarrow> dropWhile P (xs @ [c]) = dropWhile P xs @ [c]"
  by (induction xs) simp_all

lemma is_digit_dc: "is_digit c \<Longrightarrow> is_dc c"
  by (simp add: is_dc_def)

lemma match_body_neutral_snoc:
  assumes "neutral c"
  shows "match_body (s @ [c]) = match_body s"
proof -
  from assms have ndc: "\<not> is_dc c" and nd: "\<not> is_digit c" and np: "c \<noteq> CHR ''.''"
    by (auto simp: neutral_def is_dc_def)
  have tw: "takeWhile is_dc (s @ [c]) = takeWhile is_dc s" using ndc by (rule takeWhile_snoc_not[where P = is_dc])
  have dw: "dropWhile is_dc (s @ [c]) = dropWhile is_dc s @ [c]" using ndc by (rule dropWhile_snoc_not[where P = is_dc])
  show ?thesis
  proof (cases "dropWhile is_dc s")
    case Nil
    show ?thesis
      unfolding match_body_def Let_def tw dw Nil using np by simp
  next
    case (Cons d rest)
    show ?thesis
      unfolding match_body_def Let_def tw dw Cons using nd by (simp add: takeWhile_snoc_not)
  qed
qed

lemma regex_search_neutral_snoc:
  assumes "neutral c"
  shows "regex_search (s @ [c]) = regex_search s"
proof (induction s)
  case Nil
  from assms show ?case by (simp add: neutral_def)
next
  case (Cons a s)
  from assms have ndc: "\<not> is_dc c" by (simp add: neutral_def)
  have hd_eq: "(case s @ [c] of d # ds \<Rightarrow> is_dc d | [] \<Rightarrow> False) = (case s of d # ds \<Rightarrow> is_dc d | [] \<Rightarrow> False)"
    using ndc by (cases s) simp_all
  have mb: "match_body (a # s @ [c]) = match_body (a # s)"
    using match_body_neutral_snoc[OF assms, of "a # s"] by simp
  show ?case
    using Cons hd_eq mb match_body_neutral_snoc[OF assms, of s] by simp
qed

lemma regex_search_neutral_suffix:
  "\<forall>c \<in> set m. neutral c \<Longrightarrow> regex_search (s @ m) = regex_search s"
proof (induction m rule: rev_induct)
  case Nil
  then show ?case by simp
next
  case (snoc c m)
  then have "regex_search ((s @ m) @ [c]) = regex_search (s @ m)"
    by (intro regex_search_neutral_snoc) simp
  with snoc show ?case by simp
qed

lemma space_neutral: "is_space c \<Longrightarrow> neutral c"
  unfolding is_space_def neutral_def is_dc_def is_digit_def by auto

lemma regex_search_dropWhile_space: "regex_search (dropWhile is_space s) = regex_search s"
proof (induction s)
  case Nil
  then show ?case by simp
next
  case (Cons a s)
  show ?case
  proof (cases "is_space a")
    case True
    then have "regex_search (a # s) = regex_search s"
      by (intro regex_search_neutral_Cons space_neutral)
    with True Cons show ?thesis by simp
  next
    case False
    then show ?thesis by simp
  qed
qed

lemma regex_search_rev_dropWhile_space:
  "regex_search (rev (dropWhile is_space (rev s))) = regex_search s"
proof (induction s rule: rev_induct)
  case Nil
  then show ?case by simp
next
  case (snoc c s)
  show ?case
  proof (cases "is_space c")
    case True
    with snoc show ?thesis by (simp add: regex_search_neutral_snoc space_neutral)
  next
    case False
    then show ?thesis by simp
  qed
qed

lemma regex_search_strip: "regex_search (py_strip s) = regex_search s"
  by (simp add: py_strip_def regex_search_rev_dropWhile_space regex_search_dropWhile_space)

lemma regex_search_has_dc: "regex_search s = Some m \<Longrightarrow> \<exists>c \<in> set s. is_dc c"
  by (induction s arbitrary: m) (auto split: if_splits list.splits)

lemma lower_char_dc: "\<forall>c \<in> set ''0123456789,''. lower_char c = c"
  by code_simp

lemma dc_chars: "is_dc c \<Longrightarrow> c \<in> set ''0123456789,''"
  by (auto simp: is_dc_def is_digit_def)

lemma no_dc_in_words: "\<forall>w \<in> set [''nan'', ''none'', ''null'', []]. \<forall>c \<in> set w. \<not> is_dc c"
  by code_simp

lemma nan_check_redundant:
  assumes "cell_str = [] \<or> lower cell_str \<in> set [''nan'', ''none'', ''null'', []]"
  shows "regex_search cell_str = None"
proof (rule ccontr)
  assume "regex_search cell_str \<noteq> None"
  then obtain m where "regex_search cell_str = Some m" by auto
  from regex_search_has_dc[OF this] obtain c where c: "c \<in> set cell_str" "is_dc c" by blast
  from c(2) lower_char_dc dc_chars have "lower_char c = c" by blast
  with c(1) have cl: "c \<in> set (lower cell_str)" by (force simp: lower_def)
  from c(1) have "cell_str \<noteq> []" by auto
  with assms have "lower cell_str \<in> set [''nan'', ''none'', ''null'', []]" by simp
  with no_dc_in_words cl c(2) show False by blast
qed

lemma derived_amount_search:
  "derived_amount (Some v) =
     (case regex_search v of None \<Rightarrow> None | Some m \<Rightarrow> py_float (remove_commas m))"
proof -
  have "parse_plain_number (Some v) =
     (case regex_search (py_strip v) of None \<Rightarrow> None | Some m \<Rightarrow> py_float (remove_commas m))"
    using nan_check_redundant[of "py_strip v"]
    by (auto simp: parse_plain_number_def Let_def)
  then show ?thesis by (simp add: derived_amount_plain regex_search_strip)
qed

lemma takeWhile_append_stop:
  assumes "\<forall>x \<in> set xs. P x" and "ys = [] \<or> \<not> P (hd ys)"
  shows "takeWhile P (xs @ ys) = xs" and "dropWhile P (xs @ ys) = ys"
  using assms by (cases ys; simp add: takeWhile_append2 dropWhile_append2)+

lemma match_body_stop:
  assumes "\<forall>c \<in> set ds. is_dc c" and "rest = [] \<or> \<not> is_dc (hd rest)"
  shows "match_body (ds @ rest) =
           (case rest of
              c # rest' \<Rightarrow> if c = CHR ''.'' then ds @ c # takeWhile is_digit rest' else ds
            | [] \<Rightarrow> ds)"
  unfolding match_body_def Let_def takeWhile_append_stop[OF assms] ..

lemma match_body_literal:
  assumes ds: "\<forall>c \<in> set ds. is_dc c" and fs: "\<forall>c \<in> set fs. is_digit c" and m: "\<forall>c \<in> set m. neutral c"
  shows "match_body (ds @ (if fs = [] then [] else CHR ''.'' # fs) @ m)
           = ds @ (if fs = [] then [] else CHR ''.'' # fs)"
proof (cases "fs = []")
  case True
  have stop: "m = [] \<or> \<not> is_dc (hd m)" using m by (cases m) (auto simp: neutral_def)
  have "match_body (ds @ m) = ds"
    unfolding match_body_stop[OF ds stop] using m by (cases m) (auto simp: neutral_def)
  with True show ?thesis by simp
next
  case False
  have "\<not> is_dc CHR ''.''" by (simp add: is_dc_def is_digit_def)
  then have stop: "CHR ''.'' # fs @ m = [] \<or> \<not> is_dc (hd (CHR ''.'' # fs @ m))" by simp
  have stop2: "m = [] \<or> \<not> is_digit (hd m)" using m by (cases m) (auto simp: neutral_def is_dc_def)
  have "match_body (ds @ CHR ''.'' # fs @ m) = ds @ CHR ''.'' # fs"
    unfolding match_body_stop[OF ds stop] using takeWhile_append_stop(1)[OF fs stop2] by simp
  with False show ?thesis by simp
qed

lemma regex_search_literal:
  assumes ds: "\<forall>c \<in> set ds. is_dc c" and ne: "ds \<noteq> []"
    and fs: "\<forall>c \<in> set fs. is_digit c" and m: "\<forall>c \<in> set m. neutral c"
  shows "regex_search (literal_text neg ds fs @ m) = Some (literal_text neg ds fs)"
proof -
  obtain d ds' where d: "ds = d # ds'" using ne by (cases ds) auto
  with ds have dc: "is_dc d" by simp
  then have nm: "d \<noteq> CHR ''-''" by (auto simp: is_dc_def is_digit_def)
  let ?frac = "if fs = [] then [] else CHR ''.'' # fs"
  have mb: "match_body (ds @ ?frac @ m) = ds @ ?frac" by (rule match_body_literal[OF ds fs m])
  show ?thesis
  proof (cases neg)
    case True
    have "regex_search (CHR ''-'' # (ds @ ?frac @ m)) = Some (CHR ''-'' # match_body (ds @ ?frac @ m))"
      using dc d by simp
    with True mb show ?thesis by (simp add: literal_text_def)
  next
    case False
    have "regex_search (d # (ds' @ ?frac @ m)) = Some (match_body (d # (ds' @ ?frac @ m)))"
      using dc nm by simp
    with False mb d show ?thesis by (simp add: literal_text_def)
  qed
qed

lemma comma_not_digit: "\<not> is_digit CHR '',''"
  by (simp add: is_digit_def)

lemma minus_not_digit: "\<not> is_digit CHR ''-''"
  by (simp add: is_digit_def)

lemma point_not_digit: "\<not> is_digit CHR ''.''"
  by (simp add: is_digit_def)

lemma remove_commas_digits:
  assumes "\<forall>c \<in> set fs. is_digit c"
  shows "remove_commas fs = fs"
proof -
  from assms comma_not_digit have "\<forall>c \<in> set fs. c \<noteq> CHR '',''" by blast
  then show ?thesis by (simp add: remove_commas_def filter_id_conv)
qed

lemma remove_commas_dc: "\<forall>c \<in> set ds. is_dc c \<Longrightarrow> \<forall>c \<in> set (remove_commas ds). is_digit c"
  by (auto simp: remove_commas_def is_dc_def)

lemma parse_decimal_literal:
  assumes ip: "\<forall>c \<in> set ip. is_digit c" and ne: "ip \<noteq> []"
    and fs: "\<forall>c \<in> set fs. is_digit c"
  shows "parse_decimal (ip @ (if fs = [] then [] else CHR ''.'' # fs))
           = Some (of_int (int_of_digits ip) + of_int (int_of_digits fs) / 10 ^ length fs)"
proof (cases "fs = []")
  case True
  have tw: "takeWhile is_digit ip = ip" and dw: "dropWhile is_digit ip = []"
    using ip by (simp_all add: takeWhile_eq_all_conv)
  have "parse_decimal ip = Some (of_int (int_of_digits ip) + of_int (int_of_digits []) / 10 ^ 0)"
    unfolding parse_decimal_def Let_def tw dw using ne by simp
  with True show ?thesis by simp
next
  case False
  have stop: "CHR ''.'' # fs = [] \<or> \<not> is_digit (hd (CHR ''.'' # fs))"
    using point_not_digit by simp
  have "parse_decimal (ip @ CHR ''.'' # fs)
          = Some (of_int (int_of_digits ip) + of_int (int_of_digits fs) / 10 ^ length fs)"
    unfolding parse_decimal_def Let_def takeWhile_append_stop[OF ip stop]
    using ne fs by (simp add: list_all_iff)
  with False show ?thesis by simp
qed

lemma decimal_value_literal:
  assumes ds: "\<forall>c \<in> set ds. is_dc c" and ne: "remove_commas ds \<noteq> []"
    and fs: "\<forall>c \<in> set fs. is_digit c"
  shows "decimal_value (remove_commas (literal_text neg ds fs)) = Some (literal_value neg ds fs)"
proof -
  let ?ip = "remove_commas ds"
  let ?frac = "if fs = [] then [] else CHR ''.'' # fs"
  have ipd: "\<forall>c \<in> set ?ip. is_digit c" by (rule remove_commas_dc[OF ds])
  have rc: "remove_commas (literal_text neg ds fs) = (if neg then ''-'' else []) @ ?ip @ ?frac"
    using remove_commas_digits[OF fs] by (simp add: literal_text_def remove_commas_def)
  obtain d ip' where d: "?ip = d # ip'" using ne by (cases ?ip) auto
  with ipd have "is_digit d" by simp
  with minus_not_digit have dm: "d \<noteq> CHR ''-''" by blast
  note pd = parse_decimal_literal[OF ipd ne fs]
  show ?thesis
  proof (cases neg)
    case True
    then have "decimal_value (remove_commas (literal_text neg ds fs))
        = map_option uminus (parse_decimal (?ip @ ?frac))"
      unfolding rc by (simp add: decimal_value_def)
    with True pd show ?thesis by (simp add: literal_value_def)
  next
    case False
    then have "decimal_value (remove_commas (literal_text neg ds fs)) = parse_decimal (?ip @ ?frac)"
      unfolding rc using d dm by (simp add: decimal_value_def)
    with False pd show ?thesis by (simp add: literal_value_def)
  qed
qed

lemma py_float_literal:
  assumes ds: "\<forall>c \<in> set ds. is_dc c" and ne: "remove_commas ds \<noteq> []"
    and fs: "\<forall>c \<in> set fs. is_digit c"
  shows "py_float (remove_commas (literal_text neg ds fs)) = Some (round_double (literal_value neg ds fs))"
  by (simp add: py_float_def decimal_value_literal[OF assms])

lemma derived_amount_marker:
  assumes p: "\<forall>c \<in> set p. neutral c" and m: "\<forall>c \<in> set m. neutral c"
  shows "derived_amount (Some (p @ s @ m)) = derived_amount (Some s)"
proof -
  have "regex_search (p @ s @ m) = regex_search s"
    using regex_search_neutral_prefix[OF p, of "s @ m"] regex_search_neutral_suffix[OF m, of s]
    by simp
  then show ?thesis by (simp add: derived_amount_search)
qed

lemma derived_amount_literal:
  assumes ds: "\<forall>c \<in> set ds. is_dc c" and ne: "remove_commas ds \<noteq> []"
    and fs: "\<forall>c \<in> set fs. is_digit c"
  shows "derived_amount (Some (literal_text neg ds fs)) = Some (round_double (literal_value neg ds fs))"
proof -
  from ne have ne': "ds \<noteq> []" by (auto simp: remove_commas_def)
  show ?thesis
    using regex_search_literal[OF ds ne' fs, of "[]" neg] py_float_literal[OF ds ne fs, of neg]
    by (simp add: derived_amount_search)
qed

lemma stored_amounts_rows:
  "map transactionAmount (rows_with_amount base (Some a) month) = stored_amounts (Some a)"
  by (cases a) (simp_all add: rows_with_amount_def stored_amounts_def)

lemma calculate_amt_tb_lc_Some: "\<exists>a. calculate_amt_tb_lc (Some x) (Some t) = Some a"
  by (simp add: calculate_amt_tb_lc_def)

lemma derived_rows_cell:
  "map transactionAmount
     (case parse_amount_and_type cell of
        Some (amount, amount_type) \<Rightarrow>
          rows_with_amount base (calculate_amt_tb_lc (Some amount) (Some amount_type)) month
      | None \<Rightarrow> [])
   = stored_amounts (derived_amount cell)"
proof (cases "parse_amount_and_type cell")
  case None
  then show ?thesis by (simp add: derived_amount_def stored_amounts_def)
next
  case (Some pr)
  obtain x t where pr: "pr = (x, t)" by (cases pr)
  from calculate_amt_tb_lc_Some[of x t] obtain a where a: "calculate_amt_tb_lc (Some x) (Some t) = Some a"
    by blast
  with Some pr show ?thesis by (simp add: derived_amount_def stored_amounts_rows)
qed

lemma derived_rows_amounts:
  "map transactionAmount (derived_rows req coa_mapping particular row)
     = (if req_new_company req = 1 then stored_amounts (derived_amount (cell_opening row)) else [])
       @ stored_amounts (derived_amount (cell_transaction row))"
  unfolding derived_rows_def Let_def by (simp add: derived_rows_cell)

lemma replicate_zero_digits: "int_of_digits (replicate n (CHR ''0'') @ s) = int_of_digits s"
proof -
  have z: "digit_val (CHR ''0'') = 0" by (simp add: digit_val_def)
  have "foldl (\<lambda>acc c. 10 * acc + digit_val c) 0 (replicate n (CHR ''0'')) = 0"
  proof (induction n)
    case 0
    show ?case by simp
  next
    case (Suc n)
    have "replicate (Suc n) (CHR ''0'') = replicate n (CHR ''0'') @ ''0''"
      by (simp add: replicate_append_same)
    then show ?case using Suc z by (simp only: foldl_append foldl.simps mult_zero_right add_0)
  qed
  then show ?thesis by (simp add: int_of_digits_def)
qed

lemma float_zero: "\<not> float_positive f \<Longrightarrow> \<not> float_negative f \<Longrightarrow> f = Finite 0"
  by (cases f) simp_all

text \<open>
  Claim C4 (as amended). For a cell made of a number, written as an optional minus sign
  directly followed by digits with thousands separators and optional decimals, between any
  marker texts such as \<^verbatim>\<open>Dr\<close> or \<^verbatim>\<open>Cr\<close>, the amount of the derived row is the double
  nearest to that number (an infinity beyond the range of the doubles, for which no row is
  stored). It is positive exactly when the number is greater than \<open>2 ^ (- 1075)\<close> and
  negative exactly when the number is less than \<open>- 2 ^ (- 1075)\<close>; a number of smaller
  magnitude gives the amount zero. From \<open>2 ^ (- 1022)\<close> on, a finite amount differs from the
  number by at most \<open>2 ^ (- 53)\<close> of its magnitude. For every cell the amount is read from the
  leftmost match of the pattern in the text of the cell and equals the plain number that
  \<^const>\<open>parse_plain_number\<close> reads from the cell; marker text before and after the content
  of a cell never changes it; and the rows made from a line of the sheet carry the amounts
  derived from its cells.
\<close>

theorem amount_sign_from_number:
  assumes ds: "list_all is_dc ds" and ne: "remove_commas ds \<noteq> []"
    and fs: "list_all is_digit fs"
    and p: "marker_text p" and m: "marker_text m"
  shows "derived_amount (Some (p @ literal_text neg ds fs @ m))
           = Some (round_double (literal_value neg ds fs))
       \<and> (float_positive (round_double (literal_value neg ds fs))
            \<longleftrightarrow> pow2 (- 1075) < literal_value neg ds fs)
       \<and> (float_negative (round_double (literal_value neg ds fs))
            \<longleftrightarrow> literal_value neg ds fs < - pow2 (- 1075))
       \<and> (\<forall>r. pow2 (- 1022) \<le> \<bar>literal_value neg ds fs\<bar>
                \<and> round_double (literal_value neg ds fs) = Finite r
              \<longrightarrow> \<bar>r - literal_value neg ds fs\<bar> \<le> \<bar>literal_value neg ds fs\<bar> / 2 ^ 53)
       \<and> (\<forall>v. derived_amount (Some v)
               = (case regex_search v of
                    None \<Rightarrow> None
                  | Some amount_match \<Rightarrow> py_float (remove_commas amount_match)))
       \<and> (\<forall>cell. derived_amount cell = parse_plain_number cell)
       \<and> (\<forall>s. derived_amount (Some (p @ s @ m)) = derived_amount (Some s))
       \<and> (\<forall>req coa_mapping particular row.
             map transactionAmount (derived_rows req coa_mapping particular row)
               = (if req_new_company req = 1 then stored_amounts (derived_amount (cell_opening row))
                  else [])
                 @ stored_amounts (derived_amount (cell_transaction row)))"
proof -
  from ds have ds': "\<forall>c \<in> set ds. is_dc c" by (simp add: list_all_iff)
  from fs have fs': "\<forall>c \<in> set fs. is_digit c" by (simp add: list_all_iff)
  from p have p': "\<forall>c \<in> set p. neutral c" by (simp add: marker_text_iff)
  from m have m': "\<forall>c \<in> set m. neutral c" by (simp add: marker_text_iff)
  have 6: "derived_amount (Some (p @ s @ m)) = derived_amount (Some s)" for s
    using p' m' by (rule derived_amount_marker)
  have 1: "derived_amount (Some (p @ literal_text neg ds fs @ m))
             = Some (round_double (literal_value neg ds fs))"
    by (simp only: 6 derived_amount_literal[OF ds' ne fs'])
  have 4: "\<forall>r. pow2 (- 1022) \<le> \<bar>literal_value neg ds fs\<bar>
                \<and> round_double (literal_value neg ds fs) = Finite r
              \<longrightarrow> \<bar>r - literal_value neg ds fs\<bar> \<le> \<bar>literal_value neg ds fs\<bar> / 2 ^ 53"
    using round_double_accurate by blast
  from 1 round_double_positive_iff round_double_negative_iff 4 derived_amount_search
    derived_amount_plain 6 derived_rows_amounts
  show ?thesis by blast
qed

text \<open>
  Claim C4 as stated does not hold of every cell. The pattern reads a minus sign only when a
  digit or a comma follows it directly, so the cells \<^verbatim>\<open>-.5\<close> and \<^verbatim>\<open>- 5\<close> give the positive
  amount 5; and a negative number below the range of the doubles is rounded to zero.
\<close>

theorem amount_sign_counterexample:
  "derived_amount (Some ''-.5'') = Some (Finite 5)
   \<and> parse_amount_and_type (Some ''-.5'') = Some (Finite 5, Dr)
   \<and> derived_amount (Some ''- 5'') = Some (Finite 5)
   \<and> derived_amount (Some tiny_cell) = Some (Finite 0)"
proof -
  have a: "derived_amount (Some ''-.5'') = Some (Finite 5)" by code_simp
  have b: "parse_amount_and_type (Some ''-.5'') = Some (Finite 5, Dr)" by code_simp
  have c: "derived_amount (Some ''- 5'') = Some (Finite 5)" by code_simp
  let ?fs = "replicate 323 (CHR ''0'') @ ''1''"
  have ds: "\<forall>c \<in> set ''0''. is_dc c" by (simp add: is_dc_def is_digit_def)
  have ne: "remove_commas ''0'' \<noteq> []" by (simp add: remove_commas_def)
  have fs: "\<forall>c \<in> set ?fs. is_digit c" by (auto simp: is_digit_def)
  have t: "tiny_cell = literal_text True ''0'' ?fs" by (simp add: tiny_cell_def literal_text_def)
  have "int_of_digits ''1'' = 1" by code_simp
  then have i1: "int_of_digits ?fs = 1" by (simp only: replicate_zero_digits)
  have i0: "int_of_digits (remove_commas ''0'') = 0" by code_simp
  have len: "length ?fs = 324" by simp
  have v: "literal_value True ''0'' ?fs = - (1 / 10 ^ 324)"
    unfolding literal_value_def i1 i0 len by simp
  have "(2::rat) ^ 1075 < 10 ^ 324" by simp
  then have small: "(1::rat) / 10 ^ 324 < pow2 (- 1075)"
    by (simp add: pow2_def two_power_eq frac_less2)
  have "\<not> float_positive (round_double (- (1 / 10 ^ 324)))"
    unfolding round_double_positive_iff using pow2_pos[of "- 1075"] by simp
  moreover have "\<not> float_negative (round_double (- (1 / 10 ^ 324)))"
    unfolding round_double_negative_iff using small by simp
  ultimately have "round_double (- (1 / 10 ^ 324)) = Finite 0" by (rule float_zero)
  with derived_amount_literal[OF ds ne fs, of True] t v
  have d: "derived_amount (Some tiny_cell) = Some (Finite 0)" by simp
  from a b c d show ?thesis by blast
qed

text \<open>Two cells with marker text, one of them negative.\<close>

theorem amount_sign_from_number_witness:
  "derived_amount (Some ''Bal 1,234.50 Cr'') = Some (Finite (2469 / 2))
   \<and> derived_amount (Some ''-200 Dr'') = Some (Finite (- 200))
   \<and> float_negative (round_double (- 200))
   \<and> parse_amount_and_type (Some ''-200 Dr'') = Some (Finite 200, Cr)"
proof -
  have h1: "list_all is_dc ''1,234''" "remove_commas ''1,234'' \<noteq> []" "list_all is_digit ''50''"
      "marker_text ''Bal ''" "marker_text '' Cr''"
    by code_simp+
  have h2: "list_all is_dc ''200''" "remove_commas ''200'' \<noteq> []" "list_all is_digit []"
      "marker_text []" "marker_text '' Dr''"
    by code_simp+
  have t1: "literal_text False ''1,234'' ''50'' = ''1,234.50''" by (simp add: literal_text_def)
  have t2: "literal_text True ''200'' [] = ''-200''" by (simp add: literal_text_def)
  have v1: "literal_value False ''1,234'' ''50'' = 2469 / 2" by code_simp
  have v2: "literal_value True ''200'' [] = - 200" by code_simp
  have r1: "round_double (2469 / 2) = Finite (2469 / 2)" by code_simp
  have r2: "round_double (- 200) = Finite (- 200)" by code_simp
  have c: "parse_amount_and_type (Some ''-200 Dr'') = Some (Finite 200, Cr)" by code_simp
  have s: "(- 200 :: rat) < - pow2 (- 1075)"
  proof -
    have "pow2 (- 1075) < pow2 0" by (intro pow2_less) simp
    then show ?thesis by (simp add: pow2_def)
  qed
  note w1 = amount_sign_from_number[OF h1, of False]
  note w2 = amount_sign_from_number[OF h2, of True]
  from w2[THEN conjunct2, THEN conjunct2, THEN conjunct1] v2 s
  have n: "float_negative (round_double (- 200))" by simp
  from w1[THEN conjunct1] w2[THEN conjunct1] t1 t2 v1 v2 r1 r2 c n
  show ?thesis by simp
qed

subsection \<open>Upload period validation\<close>

lemma find_None_iff2: "find P xs = None \<longleftrightarrow> \<not> (\<exists>x \<in> set xs. P x)"
  by (induction xs) auto

lemma sort_key_hd_min:
  assumes "sort_key f xs = e # rest" and "x \<in> set xs"
  shows "f e \<le> f x"
proof -
  have "sorted (map f (sort_key f xs))" by (rule sorted_sort_key)
  with assms(1) have "\<forall>y \<in> set rest. f e \<le> f y" by simp
  moreover have "x \<in> set (sort_key f xs)" using assms(2) by simp
  ultimately show ?thesis using assms(1) by auto
qed

lemma check_if_previous_fy_iff:
  "fst (check_if_previous_fy periods d) \<longleftrightarrow> (\<forall>p \<in> set periods. is_active p \<longrightarrow> d < start_date p)"
proof (cases "sort_key start_date (filter is_active periods)")
  case Nil
  then have "set (sort_key start_date (filter is_active periods)) = {}" by simp
  then have "\<forall>p \<in> set periods. \<not> is_active p" by (simp add: filter_empty_conv)
  with Nil show ?thesis by (simp add: check_if_previous_fy_def)
next
  case (Cons e rest)
  then have "e \<in> set (sort_key start_date (filter is_active periods))" by simp
  then have e: "e \<in> set periods" "is_active e" by simp_all
  have min: "start_date e \<le> start_date p" if "p \<in> set periods" "is_active p" for p
    using sort_key_hd_min[OF Cons, of p] that by simp
  show ?thesis
  proof (cases "d < start_date e")
    case True
    with min have "\<forall>p \<in> set periods. is_active p \<longrightarrow> d < start_date p"
      by (meson less_le_trans)
    with True Cons show ?thesis by (simp add: check_if_previous_fy_def)
  next
    case False
    with e have "\<not> (\<forall>p \<in> set periods. is_active p \<longrightarrow> d < start_date p)" by blast
    with False Cons show ?thesis by (simp add: check_if_previous_fy_def)
  qed
qed

lemma check_if_previous_fy_suggested:
  "fst (check_if_previous_fy periods d) \<Longrightarrow> snd (check_if_previous_fy periods d) = Some (suggested_fy d)"
  by (auto simp: check_if_previous_fy_def split: list.splits if_splits)

lemma upload_file_check:
  assumes "1 \<le> req_year req" "req_year req \<le> 9999"
  shows "upload_period_check (financial_year_master db) today (upload_date_of req) = Inl e
           \<Longrightarrow> upload_file db today req sheet = (Inl e, db)"
    and "upload_file db today req sheet = (Inr n, db')
           \<Longrightarrow> \<exists>fy. upload_period_check (financial_year_master db) today (upload_date_of req) = Inr fy"
  using assms
  by (auto simp: upload_file_def upload_date_of_def Let_def split: sum.splits prod.splits)

text \<open>
  Claim C9 (as amended).  An upload is rejected, with the database unchanged, when its target
  date lies in no active configured period: with \<^verbatim>\<open>PREVIOUS_FINANCIAL_YEAR_NOT_CONFIGURED\<close> and
  the suggested label when the date precedes every active period (in particular when there is
  none), and with \<^verbatim>\<open>FINANCIAL_YEAR_VALIDATION_FAILED\<close> otherwise.  It is rejected with
  \<^verbatim>\<open>NOT_CURRENT_FINANCIAL_YEAR\<close> when the period selected for the target date and the period
  selected for today's date carry different labels.  An accepted upload has its target date in
  an active period, and either no active period contains today's date or one that does carries
  the same label.
\<close>

theorem upload_period_policy:
  assumes yr: "1 \<le> req_year req" "req_year req \<le> 9999"
  shows "((\<forall>p \<in> set (financial_year_master db). is_active p \<longrightarrow> upload_date_of req < start_date p)
           \<longrightarrow> upload_file db today req sheet
                 = (Inl (PREVIOUS_FINANCIAL_YEAR_NOT_CONFIGURED (suggested_fy (upload_date_of req))), db))
       \<and> ((\<forall>p \<in> set (financial_year_master db). \<not> date_in_period (upload_date_of req) p)
            \<and> (\<exists>p \<in> set (financial_year_master db). is_active p \<and> start_date p \<le> upload_date_of req)
           \<longrightarrow> upload_file db today req sheet = (Inl FINANCIAL_YEAR_VALIDATION_FAILED, db))
       \<and> (\<forall>selected current.
             validate_date_against_fy_master (financial_year_master db) (upload_date_of req) = Some selected
             \<and> get_current_financial_year (financial_year_master db) today = Some current
             \<and> fy_label selected \<noteq> fy_label current
           \<longrightarrow> upload_file db today req sheet
                 = (Inl (NOT_CURRENT_FINANCIAL_YEAR (fy_label selected) (fy_label current)), db))
       \<and> (\<forall>n db'. upload_file db today req sheet = (Inr n, db')
           \<longrightarrow> (\<exists>selected \<in> set (financial_year_master db).
                   date_in_period (upload_date_of req) selected
                   \<and> ((\<forall>p \<in> set (financial_year_master db). \<not> date_in_period today p)
                      \<or> (\<exists>current \<in> set (financial_year_master db).
                            date_in_period today current \<and> fy_label current = fy_label selected))))"
proof -
  let ?ps = "financial_year_master db"
  let ?d = "upload_date_of req"
  have a: "upload_file db today req sheet
             = (Inl (PREVIOUS_FINANCIAL_YEAR_NOT_CONFIGURED (suggested_fy ?d)), db)"
    if h: "\<forall>p \<in> set ?ps. is_active p \<longrightarrow> ?d < start_date p"
  proof -
    from h have "\<forall>p \<in> set ?ps. \<not> date_in_period ?d p"
      by (auto simp: date_in_period_def)
    then have v: "validate_date_against_fy_master ?ps ?d = None"
      by (simp add: validate_date_against_fy_master_def find_None_iff2)
    from h have f: "fst (check_if_previous_fy ?ps ?d)" by (simp add: check_if_previous_fy_iff)
    from v f check_if_previous_fy_suggested[OF f]
    have "upload_period_check ?ps today ?d
            = Inl (PREVIOUS_FINANCIAL_YEAR_NOT_CONFIGURED (suggested_fy ?d))"
      by (simp add: upload_period_check_def Let_def or_empty_def)
    then show ?thesis by (rule upload_file_check(1)[OF yr])
  qed
  have b: "upload_file db today req sheet = (Inl FINANCIAL_YEAR_VALIDATION_FAILED, db)"
    if h: "\<forall>p \<in> set ?ps. \<not> date_in_period ?d p"
      and e: "\<exists>p \<in> set ?ps. is_active p \<and> start_date p \<le> ?d"
  proof -
    from h have v: "validate_date_against_fy_master ?ps ?d = None"
      by (simp add: validate_date_against_fy_master_def find_None_iff2)
    from e have f: "\<not> fst (check_if_previous_fy ?ps ?d)"
      unfolding check_if_previous_fy_iff by (meson not_le)
    from v f have "upload_period_check ?ps today ?d = Inl FINANCIAL_YEAR_VALIDATION_FAILED"
      by (simp add: upload_period_check_def Let_def)
    then show ?thesis by (rule upload_file_check(1)[OF yr])
  qed
  have c: "upload_file db today req sheet
             = (Inl (NOT_CURRENT_FINANCIAL_YEAR (fy_label selected) (fy_label current)), db)"
    if "validate_date_against_fy_master ?ps ?d = Some selected"
      "get_current_financial_year ?ps today = Some current"
      "fy_label selected \<noteq> fy_label current" for selected current
  proof -
    from that have "upload_period_check ?ps today ?d
        = Inl (NOT_CURRENT_FINANCIAL_YEAR (fy_label selected) (fy_label current))"
      by (simp add: upload_period_check_def)
    then show ?thesis by (rule upload_file_check(1)[OF yr])
  qed
  have d: "\<exists>selected \<in> set ?ps. date_in_period ?d selected
             \<and> ((\<forall>p \<in> set ?ps. \<not> date_in_period today p)
                \<or> (\<exists>current \<in> set ?ps. date_in_period today current
                      \<and> fy_label current = fy_label selected))"
    if "upload_file db today req sheet = (Inr n, db')" for n db'
  proof -
    from upload_file_check(2)[OF yr that] obtain fy
      where fy: "upload_period_check ?ps today ?d = Inr fy" by blast
    then obtain selected where s: "validate_date_against_fy_master ?ps ?d = Some selected"
      by (cases "validate_date_against_fy_master ?ps ?d")
         (auto simp: upload_period_check_def Let_def split: if_splits)
    then have sm: "selected \<in> set ?ps" "date_in_period ?d selected"
      using find_Some_set[of "date_in_period ?d" ?ps selected]
      by (simp_all add: validate_date_against_fy_master_def)
    show ?thesis
    proof (cases "get_current_financial_year ?ps today")
      case None
      then have "\<forall>p \<in> set ?ps. \<not> date_in_period today p"
        by (simp add: get_current_financial_year_def find_None_iff2)
      with sm show ?thesis by blast
    next
      case (Some current)
      then have cm: "current \<in> set ?ps" "date_in_period today current"
        using find_Some_set[of "date_in_period today" ?ps current]
        by (simp_all add: get_current_financial_year_def)
      from fy s Some have "fy_label selected = fy_label current"
        by (auto simp: upload_period_check_def split: if_splits)
      with sm cm show ?thesis by metis
    qed
  qed
  from a b c d show ?thesis by blast
qed

text \<open>
  Claim C9 as stated does not hold: when no active period contains today's date the
  current-year check is skipped and an upload for a configured period is accepted and written;
  and dates outside every configured period are rejected with two different error codes.
\<close>

theorem upload_period_counterexample:
  "get_current_financial_year (financial_year_master upload_db) stale_today = None
   \<and> fst (upload_file upload_db stale_today (request_for ''May'' 2023) cash_sheet) = Inr 2
   \<and> map sl_no (final_structured (snd (upload_file upload_db stale_today (request_for ''May'' 2023) cash_sheet)))
       = [Some 1, Some 2]
   \<and> fst (upload_file upload_db stale_today (request_for ''May'' 2022) cash_sheet)
       = Inl (PREVIOUS_FINANCIAL_YEAR_NOT_CONFIGURED ''2022-23'')
   \<and> fst (upload_file upload_db stale_today (request_for ''May'' 2025) cash_sheet)
       = Inl FINANCIAL_YEAR_VALIDATION_FAILED"
  by code_simp

text \<open>The policy on the example calendar: one case for each of the four parts.\<close>

theorem upload_period_policy_witness:
  "upload_file upload_db stale_today (request_for ''May'' 2022) cash_sheet
     = (Inl (PREVIOUS_FINANCIAL_YEAR_NOT_CONFIGURED ''2022-23''), upload_db)
   \<and> upload_file upload_db stale_today (request_for ''May'' 2025) cash_sheet
     = (Inl FINANCIAL_YEAR_VALIDATION_FAILED, upload_db)
   \<and> upload_file upload_db (2024, 11, 4) (request_for ''May'' 2023) cash_sheet
     = (Inl (NOT_CURRENT_FINANCIAL_YEAR ''2023-24'' ''2024-25''), upload_db)
   \<and> fst (upload_file upload_db (2024, 11, 4) (request_for ''May'' 2024) cash_sheet) = Inr 2
   \<and> date_in_period (upload_date_of (request_for ''May'' 2024)) fy_2024
   \<and> date_in_period (2024, 11, 4) fy_2024"
proof -
  have y1: "1 \<le> req_year (request_for ''May'' 2022)" "req_year (request_for ''May'' 2022) \<le> 9999"
    and y2: "1 \<le> req_year (request_for ''May'' 2025)" "req_year (request_for ''May'' 2025) \<le> 9999"
    and y3: "1 \<le> req_year (request_for ''May'' 2023)" "req_year (request_for ''May'' 2023) \<le> 9999"
    by (simp_all add: request_for_def)
  have h1: "\<forall>p \<in> set (financial_year_master upload_db). is_active p \<longrightarrow>
              upload_date_of (request_for ''May'' 2022) < start_date p" by code_simp
  have s1: "suggested_fy (upload_date_of (request_for ''May'' 2022)) = ''2022-23''" by code_simp
  have h2: "(\<forall>p \<in> set (financial_year_master upload_db).
               \<not> date_in_period (upload_date_of (request_for ''May'' 2025)) p)
            \<and> (\<exists>p \<in> set (financial_year_master upload_db). is_active p
                  \<and> start_date p \<le> upload_date_of (request_for ''May'' 2025))" by code_simp
  have h3: "validate_date_against_fy_master (financial_year_master upload_db)
               (upload_date_of (request_for ''May'' 2023)) = Some fy_2023
            \<and> get_current_financial_year (financial_year_master upload_db) (2024, 11, 4) = Some fy_2024
            \<and> fy_label fy_2023 \<noteq> fy_label fy_2024" by code_simp
  have l: "fy_label fy_2023 = ''2023-24''" "fy_label fy_2024 = ''2024-25''"
    by (simp_all add: fy_2023_def fy_2024_def)
  have ok: "fst (upload_file upload_db (2024, 11, 4) (request_for ''May'' 2024) cash_sheet) = Inr 2
     \<and> date_in_period (upload_date_of (request_for ''May'' 2024)) fy_2024
     \<and> date_in_period (2024, 11, 4) fy_2024" by code_simp
  note a = upload_period_policy[OF y1, of upload_db stale_today cash_sheet, THEN conjunct1, THEN mp, OF h1]
  note b = upload_period_policy[OF y2, of upload_db stale_today cash_sheet, THEN conjunct2, THEN conjunct1,
             THEN mp, OF h2]
  note c = upload_period_policy[OF y3, of upload_db "(2024, 11, 4)" cash_sheet, THEN conjunct2, THEN conjunct2,
             THEN conjunct1, THEN spec, THEN spec, THEN mp, OF h3]
  from a b c s1 l ok show ?thesis by simp
qed

subsection \<open>The gating of rates on the main category\<close>

lemma strip_empty_all:
  assumes "rev (dropWhile P (rev (dropWhile P s))) = []"
  shows "\<forall>c \<in> set s. P c"
proof -
  from assms have "dropWhile P (rev (dropWhile P s)) = []" by simp
  then have "\<forall>c \<in> set (rev (dropWhile P s)). P c" by (simp only: dropWhile_eq_Nil_conv)
  then have a: "\<forall>c \<in> set (dropWhile P s). P c" by simp
  have "dropWhile P s = []"
  proof (cases "dropWhile P s")
    case Nil
    then show ?thesis .
  next
    case (Cons x xs)
    then have "\<not> P x" using hd_dropWhile[of P s] by simp
    moreover from Cons a have "P x" by simp
    ultimately show ?thesis by simp
  qed
  then show ?thesis by (simp only: dropWhile_eq_Nil_conv)
qed

lemma sql_trim_empty_all_spaces:
  assumes "sql_trim s = []"
  shows "\<forall>c \<in> set s. c = CHR '' '' "
  using assms unfolding sql_trim_def by (rule strip_empty_all)

lemma is_space_blank: "is_space (CHR '' '')"
  by (simp add: is_space_def)

lemma py_nonblank_sql_nonblank:
  assumes "py_strip s \<noteq> []"
  shows "sql_trim s \<noteq> []"
proof
  assume "sql_trim s = []"
  then have a: "\<forall>c \<in> set s. c = CHR '' ''" by (rule sql_trim_empty_all_spaces)
  have "\<forall>c \<in> set s. is_space c"
  proof
    fix c
    assume "c \<in> set s"
    with a have "c = CHR '' ''" by (rule bspec)
    then show "is_space c" using is_space_blank by (simp only:)
  qed
  then have dw: "dropWhile is_space s = []" by (simp only: dropWhile_eq_Nil_conv)
  have "py_strip s = []" unfolding py_strip_def dw by simp
  with assms show False by (rule notE)
qed

lemma py_nonblank_not_sql_blank:
  assumes "py_strip (or_empty v) \<noteq> []"
  shows "\<not> sql_blank v"
proof (cases v)
  case None
  with assms show ?thesis by (simp add: or_empty_def py_strip_def)
next
  case (Some s)
  with assms have "py_strip s \<noteq> []" by (simp add: or_empty_def)
  then have "sql_trim s \<noteq> []" by (rule py_nonblank_sql_nonblank)
  with Some show ?thesis by (simp add: sql_blank_def)
qed

lemma row_rate_gated:
  "row_rate db cache row = Some rate \<Longrightarrow> \<not> sql_blank (mainCategory row)"
  by (rule py_nonblank_not_sql_blank) (auto simp: row_rate_def Let_def split: if_splits)

lemma calculate_forex_row_update:
  assumes "fst (snd (calculate_forex_row db cache save row)) = Some u"
  shows "sl_no row = Some (u_sl_no u) \<and> \<not> sql_blank (mainCategory row)"
proof (cases "row_rate db cache row")
  case None
  with assms show ?thesis by (simp add: calculate_forex_row_def)
next
  case (Some rate)
  have g: "\<not> sql_blank (mainCategory row)" using Some by (rule row_rate_gated)
  from assms Some have "sl_no row = Some (u_sl_no u)"
    by (auto simp: calculate_forex_row_def Let_def split: if_splits option.splits)
  with g show ?thesis by simp
qed

lemma save_fx_update_keys: "map gate_key (save_fx_update table u) = map gate_key table"
  by (simp add: save_fx_update_def gate_key_def)

lemma save_fx_update_gated:
  assumes "fx_gated table"
    and "\<forall>r \<in> set table. sl_no r = Some (u_sl_no u) \<longrightarrow> \<not> sql_blank (mainCategory r)"
  shows "fx_gated (save_fx_update table u)"
  using assms by (auto simp: fx_gated_def save_fx_update_def)

lemma keys_cond:
  "(\<forall>r \<in> set table. sl_no r = Some n \<longrightarrow> \<not> sql_blank (mainCategory r))
     \<longleftrightarrow> (\<forall>k \<in> set (map gate_key table). fst k = Some n \<longrightarrow> \<not> sql_blank (snd k))"
  by (simp add: gate_key_def)

lemma foldl_save_gated:
  assumes "fx_gated table"
    and "\<forall>u \<in> set us. \<forall>k \<in> set (map gate_key table). fst k = Some (u_sl_no u) \<longrightarrow> \<not> sql_blank (snd k)"
  shows "fx_gated (foldl save_fx_update table us)"
  using assms
proof (induction us arbitrary: table)
  case Nil
  then show ?case by simp
next
  case (Cons u us)
  have "\<forall>r \<in> set table. sl_no r = Some (u_sl_no u) \<longrightarrow> \<not> sql_blank (mainCategory r)"
    unfolding keys_cond using Cons.prems(2) by simp
  with Cons.prems(1) have g: "fx_gated (save_fx_update table u)" by (rule save_fx_update_gated)
  have "\<forall>u' \<in> set us. \<forall>k \<in> set (map gate_key (save_fx_update table u)).
          fst k = Some (u_sl_no u') \<longrightarrow> \<not> sql_blank (snd k)"
    unfolding save_fx_update_keys using Cons.prems(2) by simp
  with g have "fx_gated (foldl save_fx_update (save_fx_update table u) us)" by (rule Cons.IH)
  then show ?case by simp
qed

lemma batch_save_gated:
  assumes inv: "fx_gated (final_structured db)"
    and snap: "snapshot_of (final_structured db) rows"
  shows "fx_gated (final_structured (fst (snd (calculate_and_save_forex_rates db rows cache save))))"
proof -
  let ?us = "List.map_filter (\<lambda>res. fst (snd res)) (map (calculate_forex_row db cache save) rows)"
  have "\<forall>u \<in> set ?us. \<forall>k \<in> set (map gate_key (final_structured db)).
          fst k = Some (u_sl_no u) \<longrightarrow> \<not> sql_blank (snd k)"
  proof (intro ballI impI)
    fix u k
    assume u: "u \<in> set ?us" and k: "k \<in> set (map gate_key (final_structured db))"
      and e: "fst k = Some (u_sl_no u)"
    from u obtain row where row: "row \<in> set rows"
      and c: "fst (snd (calculate_forex_row db cache save row)) = Some u"
      by (auto simp: set_map_filter)
    from calculate_forex_row_update[OF c]
    have s: "sl_no row = Some (u_sl_no u)" and g: "\<not> sql_blank (mainCategory row)" by simp_all
    from k obtain r where r: "r \<in> set (final_structured db)" and kr: "k = gate_key r" by auto
    from e kr s have "sl_no r = sl_no row" by (simp add: gate_key_def)
    with snap row r have "mainCategory r = mainCategory row" by (simp add: snapshot_of_def)
    with g kr show "\<not> sql_blank (snd k)" by (simp add: gate_key_def)
  qed
  with inv have "fx_gated (foldl save_fx_update (final_structured db) ?us)"
    by (rule foldl_save_gated)
  then show ?thesis by (simp add: calculate_and_save_forex_rates_def Let_def)
qed

lemma fx_columns_proj [simp]:
  "sl_no (fx_columns r) = sl_no r" "mainCategory (fx_columns r) = mainCategory r"
  by (simp_all add: fx_columns_def)

lemma snapshot_of_selected:
  assumes pk: "distinct (map sl_no table)"
    and sub: "set rows \<subseteq> fx_columns ` set table"
  shows "snapshot_of table rows"
  unfolding snapshot_of_def
proof (intro ballI impI)
  fix row r
  assume row: "row \<in> set rows" and r: "r \<in> set table" and e: "sl_no r = sl_no row"
  from row sub obtain r0 where r0: "r0 \<in> set table" and p: "row = fx_columns r0" by auto
  from pk have "inj_on sl_no (set table)" by (simp add: distinct_map)
  moreover from e p have "sl_no r = sl_no r0" by simp
  ultimately have "r = r0" using r r0 by (simp add: inj_on_def)
  with p show "mainCategory r = mainCategory row" by simp
qed

lemma ingestion_fx_pass_gated:
  assumes inv: "fx_gated (final_structured db)"
    and pk: "distinct (map sl_no (final_structured db))"
  shows "fx_gated (final_structured (ingestion_fx_pass db ent_code month_name year))"
proof -
  have "set (select_new_rows db ent_code month_name year) \<subseteq> fx_columns ` set (final_structured db)"
    by (auto simp: select_new_rows_def)
  with pk have "snapshot_of (final_structured db) (select_new_rows db ent_code month_name year)"
    by (rule snapshot_of_selected)
  with inv show ?thesis
    by (simp add: ingestion_fx_pass_def Let_def batch_save_gated)
qed

lemma sql_update_rate_gated:
  assumes "fx_gated table" and "\<forall>r. cond r \<longrightarrow> \<not> sql_blank (mainCategory r)"
  shows "fx_gated (sql_update_rate cond rate table)"
  using assms by (auto simp: fx_gated_def sql_update_rate_def sql_set_rate_def)

lemma recalc_update_gated:
  assumes "fx_gated table"
  shows "fx_gated (sql_update_rate (\<lambda>r. recalc_scope ps r \<and> b r) rate table)"
  using assms by (rule sql_update_rate_gated) (simp add: recalc_scope_def)

lemma recalculate_avg_fx_rate_gated:
  assumes inv: "fx_gated (final_structured db)"
  shows "fx_gated (final_structured (snd (recalculate_avg_fx_rate db payload_currency)))"
proof -
  define currency where "currency = py_strip (upper (if truthy_str payload_currency
                                       then or_empty payload_currency else ''USDIN''))"
  show ?thesis
  proof (cases "get_latest_row_for_currency db currency")
    case None
    with inv show ?thesis
      by (simp add: recalculate_avg_fx_rate_def Let_def currency_def[symmetric])
  next
    case (Some forex_row)
    show ?thesis
    proof (cases "fm_latest_rate forex_row")
      case None
      with Some inv show ?thesis
        by (cases "fm_initial_rate forex_row")
           (simp_all add: recalculate_avg_fx_rate_def Let_def currency_def[symmetric])
    next
      case l: (Some l)
      show ?thesis
      proof (cases "fm_initial_rate forex_row")
        case None
        with Some l recalc_update_gated[OF inv] show ?thesis
          by (simp add: recalculate_avg_fx_rate_def Let_def currency_def[symmetric])
      next
        case i: (Some i)
        have "fx_gated (sql_update_rate (\<lambda>r. recalc_scope ps r \<and> b r) x
                 (sql_update_rate (\<lambda>r. recalc_scope ps r \<and> b' r) y (final_structured db)))"
          for ps b b' x y
          by (rule recalc_update_gated) (rule recalc_update_gated[OF inv])
        with Some l i show ?thesis
          by (simp add: recalculate_avg_fx_rate_def Let_def currency_def[symmetric])
      qed
    qed
  qed
qed

lemma rev_sort_key_hd_mem:
  "rev (sort_key f (filter P xs)) = x # rest \<Longrightarrow> x \<in> set xs"
proof -
  assume "rev (sort_key f (filter P xs)) = x # rest"
  then have "x \<in> set (rev (sort_key f (filter P xs)))" by simp
  then show ?thesis by simp
qed

lemma or_none_not_blank: "\<not> sql_blank v \<Longrightarrow> \<not> sql_blank (or_none v)"
  by (cases v) (auto simp: sql_blank_def or_none_def truthy_str_def sql_trim_def)

lemma update_by_particular_gated:
  assumes inv: "fx_gated (final_structured db)"
    and pk: "distinct (map sl_no (final_structured db))"
    and cm: "code_master_valid db"
  shows "fx_gated (final_structured (snd (update_by_particular db payload_particular)))"
proof -
  let ?p = "py_strip (or_empty payload_particular)"
  let ?codes = "rev (sort_key code_id
                  (filter (\<lambda>cm. sql_norm (RawParticulars cm) = sql_norm ?p) (code_master db)))"
  show ?thesis
  proof (cases "?p = []")
    case True
    with inv show ?thesis by (simp add: update_by_particular_def Let_def)
  next
    case False
    show ?thesis
    proof (cases ?codes)
      case Nil
      with False inv show ?thesis by (simp add: update_by_particular_def Let_def)
    next
      case (Cons code_result rest)
      let ?t1 = "map (\<lambda>r. if sql_norm (Particular r) = sql_norm ?p
                           then set_code_categories code_result r else r) (final_structured db)"
      let ?db1 = "db\<lparr>final_structured := ?t1\<rparr>"
      let ?rows = "filter (\<lambda>row. py_strip (or_empty (mainCategory row)) \<noteq> [])
                     (map fx_columns (filter (\<lambda>r. sql_norm (Particular r) = sql_norm ?p) ?t1))"
      from Cons have "code_result \<in> set (code_master db)" by (rule rev_sort_key_hd_mem)
      with cm have "\<not> sql_blank (cm_mainCategory code_result)" by (simp add: code_master_valid_def)
      then have nb: "\<not> sql_blank (or_none (cm_mainCategory code_result))" by (rule or_none_not_blank)
      have g1: "fx_gated (final_structured ?db1)"
        using inv nb by (auto simp: fx_gated_def set_code_categories_def)
      have f: "sl_no (if c then set_code_categories code_result r else r) = sl_no r" for r c
        by (simp add: set_code_categories_def)
      have eq: "map sl_no (final_structured ?db1) = map sl_no (final_structured db)"
        by (simp add: comp_def f)
      have pk1: "distinct (map sl_no (final_structured ?db1))" unfolding eq by (rule pk)
      have "set ?rows \<subseteq> fx_columns ` set (final_structured ?db1)" by auto
      with pk1 have snap: "snapshot_of (final_structured ?db1) ?rows" by (rule snapshot_of_selected)
      have g2: "fx_gated (final_structured (fst (snd (calculate_and_save_forex_rates ?db1 ?rows
                   (build_forex_cache ?db1 ?rows) True))))"
        using g1 snap by (rule batch_save_gated)
      have "snd (update_by_particular db payload_particular)
              = (if ?rows \<noteq> [] then fst (snd (calculate_and_save_forex_rates ?db1 ?rows
                   (build_forex_cache ?db1 ?rows) True)) else ?db1)"
        using False Cons by (simp add: update_by_particular_def Let_def)
      with g1 g2 show ?thesis by simp
    qed
  qed
qed

lemma foldl_max_ge: "(a::nat) \<le> foldl max a xs \<and> (\<forall>x \<in> set xs. x \<le> foldl max a xs)"
proof (induction xs arbitrary: a)
  case Nil
  show ?case by simp
next
  case (Cons y ys)
  from Cons[of "max a y"] show ?case by auto
qed

lemma next_sl_no_fresh: "Some (next_sl_no table) \<notin> set (map sl_no table)"
proof
  assume "Some (next_sl_no table) \<in> set (map sl_no table)"
  then have "next_sl_no table \<in> set (List.map_filter sl_no table)"
    by (auto simp: set_map_filter)
  then have "next_sl_no table \<le> foldl max 0 (List.map_filter sl_no table)"
    using foldl_max_ge[of 0 "List.map_filter sl_no table"] by blast
  then show False by (simp add: next_sl_no_def)
qed

lemma filter_upload_invariant:
  assumes "upload_invariant table"
  shows "upload_invariant (filter P table)"
  using assms by (auto simp: upload_invariant_def fx_gated_def distinct_map_filter)

lemma append_upload_invariant:
  assumes inv: "upload_invariant table" and rate: "Avg_Fx_Rt data = None"
  shows "upload_invariant (table @ [data\<lparr>sl_no := Some (next_sl_no table)\<rparr>])"
proof -
  from inv rate have "fx_gated (table @ [data\<lparr>sl_no := Some (next_sl_no table)\<rparr>])"
    by (auto simp: upload_invariant_def fx_gated_def)
  moreover from inv next_sl_no_fresh[of table]
  have "distinct (map sl_no (table @ [data\<lparr>sl_no := Some (next_sl_no table)\<rparr>]))"
    by (simp add: upload_invariant_def)
  ultimately show ?thesis by (simp add: upload_invariant_def)
qed

lemma insert_structured_data_invariant:
  assumes "upload_invariant (final_structured (fst st))" and "Avg_Fx_Rt data = None"
  shows "upload_invariant (final_structured (fst (fst (insert_structured_data st data))))"
proof (cases st)
  case (Pair db keys)
  with assms append_upload_invariant[of "final_structured db" data] show ?thesis
    by (simp add: insert_structured_data_def Let_def)
qed

lemma insert_counted_invariant:
  assumes "upload_invariant (final_structured (fst (fst acc)))" and "Avg_Fx_Rt data = None"
  shows "upload_invariant (final_structured (fst (fst (insert_counted acc data))))"
proof (cases acc)
  case (Pair st n)
  have "fst (insert_counted (st, n) data) = fst (insert_structured_data st data)"
    by (simp add: insert_counted_def Let_def split: prod.splits)
  with Pair assms insert_structured_data_invariant[of st data] show ?thesis
    by simp
qed

lemma foldl_insert_counted_invariant:
  assumes "upload_invariant (final_structured (fst (fst acc)))"
    and "\<forall>data \<in> set rows. Avg_Fx_Rt data = None"
  shows "upload_invariant (final_structured (fst (fst (foldl insert_counted acc rows))))"
  using assms
proof (induction rows arbitrary: acc)
  case Nil
  then show ?case by simp
next
  case (Cons data rows)
  from Cons.prems have "upload_invariant (final_structured (fst (fst (insert_counted acc data))))"
    by (simp add: insert_counted_invariant)
  with Cons.prems(2) have
    "upload_invariant (final_structured (fst (fst (foldl insert_counted (insert_counted acc data) rows))))"
    by (intro Cons.IH) simp_all
  then show ?case by simp
qed

lemma rows_with_amount_unrated:
  assumes "Avg_Fx_Rt base = None"
  shows "\<forall>data \<in> set (rows_with_amount base amt_tb_lc month). Avg_Fx_Rt data = None"
proof (cases amt_tb_lc)
  case None
  with assms show ?thesis by (simp add: rows_with_amount_def)
next
  case (Some a)
  with assms show ?thesis by (cases a) (simp_all add: rows_with_amount_def)
qed

lemma derived_rows_unrated:
  "\<forall>data \<in> set (derived_rows req coa_mapping particular row). Avg_Fx_Rt data = None"
proof -
  have b: "Avg_Fx_Rt (base_data req particular coa_mapping) = None"
    by (simp add: base_data_def)
  have o: "\<forall>data \<in> set (case parse_amount_and_type c of
               Some (a, t) \<Rightarrow> rows_with_amount (base_data req particular coa_mapping)
                                 (calculate_amt_tb_lc (Some a) (Some t)) m
             | None \<Rightarrow> []). Avg_Fx_Rt data = None" for c m
    using rows_with_amount_unrated[OF b] by (cases "parse_amount_and_type c") auto
  show ?thesis
  proof (cases "req_new_company req = 1")
    case True
    with o[where c = "cell_opening row" and m = "''Opening''"]
      o[where c = "cell_transaction row" and m = "req_month_name req"]
    show ?thesis by (simp add: derived_rows_def Let_def ball_Un)
  next
    case False
    with o[where c = "cell_transaction row" and m = "req_month_name req"]
    show ?thesis by (simp add: derived_rows_def Let_def)
  qed
qed

lemma process_sheet_row_invariant:
  assumes "upload_invariant (final_structured (fst (fst acc)))"
  shows "upload_invariant (final_structured (fst (fst (process_sheet_row req acc row))))"
  using assms foldl_insert_counted_invariant[OF assms derived_rows_unrated]
  by (simp add: process_sheet_row_def Let_def split: option.splits)

lemma foldl_process_sheet_row_invariant:
  assumes "upload_invariant (final_structured (fst (fst acc)))"
  shows "upload_invariant (final_structured (fst (fst (foldl (process_sheet_row req) acc sheet))))"
  using assms
proof (induction sheet arbitrary: acc)
  case Nil
  then show ?case by simp
next
  case (Cons row sheet)
  from Cons.prems have "upload_invariant (final_structured (fst (fst (process_sheet_row req acc row))))"
    by (rule process_sheet_row_invariant)
  then have "upload_invariant (final_structured (fst (fst
               (foldl (process_sheet_row req) (process_sheet_row req acc row) sheet))))"
    by (rule Cons.IH)
  then show ?case by simp
qed

lemma upload_file_gated:
  assumes inv: "fx_gated (final_structured db)" and pk: "distinct (map sl_no (final_structured db))"
  shows "fx_gated (final_structured (snd (upload_file db today req sheet)))"
proof -
  let ?ec = "req_ent_code req" and ?mn = "req_month_name req" and ?yr = "req_year req"
  let ?db1 = "delete_existing_data_for_entity_month_year db ?ec ?mn ?yr"
  let ?acc = "foldl (process_sheet_row req) ((?db1, []), 0) sheet"
  let ?db2 = "fst (fst ?acc)"
  let ?db3 = "deduplicate_final_structured_for_entity_month_year ?db2 ?ec ?mn ?yr"
  let ?db4 = "if snd ?acc > 0 then ingestion_fx_pass ?db3 ?ec ?mn ?yr else ?db3"
  from inv pk have "upload_invariant (final_structured db)" by (simp add: upload_invariant_def)
  then have "upload_invariant (final_structured ?db1)"
    by (simp add: delete_existing_data_for_entity_month_year_def filter_upload_invariant)
  then have "upload_invariant (final_structured (fst (fst ((?db1, []::record_key list), 0::nat))))"
    by simp
  then have "upload_invariant (final_structured ?db2)"
    by (rule foldl_process_sheet_row_invariant)
  then have i3: "upload_invariant (final_structured ?db3)"
    by (simp add: deduplicate_final_structured_for_entity_month_year_def filter_upload_invariant)
  then have g4: "fx_gated (final_structured ?db4)"
    by (simp add: upload_invariant_def ingestion_fx_pass_gated)
  show ?thesis
  proof (cases "req_year req < 1 \<or> req_year req > 9999")
    case True
    then have "snd (upload_file db today req sheet) = db" by (simp add: upload_file_def)
    with inv show ?thesis by simp
  next
    case False
    show ?thesis
    proof (cases "upload_period_check (financial_year_master db) today
                    (req_year req, month_number (req_month_name req), 1)")
      case (Inl err)
      with False have "snd (upload_file db today req sheet) = db"
        by (simp add: upload_file_def Let_def)
      with inv show ?thesis by simp
    next
      case (Inr fy)
      with False have "snd (upload_file db today req sheet) = ?db4"
        by (simp add: upload_file_def Let_def case_prod_beta)
      with g4 show ?thesis by (simp only:)
    qed
  qed
qed

text \<open>
  Claim C3.  Let every row of the table that carries a rate have a main category that is neither
  \<^verbatim>\<open>NULL\<close> nor blank, and let \<^verbatim>\<open>sl_no\<close> be a key of the table.  Then the same holds of the
  table after the FX pass of an upload, after the recalculation endpoint, after the category
  update by particular (given that no entry of the code master has a blank main category), after
  a batch save for row dictionaries that carry the main categories of the table, and after a
  whole upload.  The converse fails: on the example ledger without legacy rates the FX pass leaves
  a categorised row without a rate.
\<close>

theorem fx_gating_invariant:
  assumes inv: "fx_gated (final_structured db)"
    and pk: "distinct (map sl_no (final_structured db))"
  shows "fx_gated (final_structured (ingestion_fx_pass db ent_code month_name year))
       \<and> fx_gated (final_structured (snd (recalculate_avg_fx_rate db payload_currency)))
       \<and> (code_master_valid db
            \<longrightarrow> fx_gated (final_structured (snd (update_by_particular db payload_particular))))
       \<and> (snapshot_of (final_structured db) rows
            \<longrightarrow> fx_gated (final_structured
                  (fst (snd (calculate_and_save_forex_rates db rows forex_cache save_to_db)))))
       \<and> fx_gated (final_structured (snd (upload_file db today req sheet)))
       \<and> (\<exists>r \<in> set (final_structured (ingestion_fx_pass unrated_db ''E1'' ''April'' 2024)).
             \<not> sql_blank (mainCategory r) \<and> Avg_Fx_Rt r = None)"
proof -
  have c: "\<exists>r \<in> set (final_structured (ingestion_fx_pass unrated_db ''E1'' ''April'' 2024)).
             \<not> sql_blank (mainCategory r) \<and> Avg_Fx_Rt r = None"
    by code_simp
  from inv pk have 1: "fx_gated (final_structured (ingestion_fx_pass db ent_code month_name year))"
    by (rule ingestion_fx_pass_gated)
  from inv have 2: "fx_gated (final_structured (snd (recalculate_avg_fx_rate db payload_currency)))"
    by (rule recalculate_avg_fx_rate_gated)
  have 3: "code_master_valid db
            \<longrightarrow> fx_gated (final_structured (snd (update_by_particular db payload_particular)))"
    using inv pk by (blast intro: update_by_particular_gated)
  have 4: "snapshot_of (final_structured db) rows
            \<longrightarrow> fx_gated (final_structured
                  (fst (snd (calculate_and_save_forex_rates db rows forex_cache save_to_db))))"
    using inv by (blast intro: batch_save_gated)
  from inv pk have 5: "fx_gated (final_structured (snd (upload_file db today req sheet)))"
    by (rule upload_file_gated)
  from 1 2 3 4 5 c show ?thesis by blast
qed

text \<open>The five operations on the example ledger: the rates they write, and the main category of
  one rated row of each result.\<close>

theorem fx_gating_invariant_witness:
  "map Avg_Fx_Rt (final_structured (ingestion_fx_pass gating_db ''E1'' ''April'' 2024))
     = [Some 1, None, Some 83, Some 1]
   \<and> \<not> sql_blank (mainCategory (final_structured (ingestion_fx_pass gating_db ''E1'' ''April'' 2024) ! 2))
   \<and> map Avg_Fx_Rt (final_structured (snd (recalculate_avg_fx_rate gating_db (Some ''inr ''))))
     = [Some 1, None, None, Some 1]
   \<and> \<not> sql_blank (mainCategory (final_structured (snd (recalculate_avg_fx_rate gating_db (Some ''inr ''))) ! 3))
   \<and> map Avg_Fx_Rt (final_structured (snd (update_by_particular gating_db (Some '' CASH''))))
     = [Some 1, Some 1, None, None]
   \<and> \<not> sql_blank (mainCategory (final_structured (snd (update_by_particular gating_db (Some '' CASH''))) ! 1))
   \<and> \<not> sql_blank (mainCategory (final_structured (fst (snd (calculate_and_save_forex_rates gating_db
          (map fx_columns (final_structured gating_db))
          (build_forex_cache gating_db (map fx_columns (final_structured gating_db))) True))) ! 0))
   \<and> map Avg_Fx_Rt (final_structured (snd (upload_file gating_db (2024, 11, 4) cash_request cash_sheet)))
     = [None, Some 1, Some 1]
   \<and> \<not> sql_blank (mainCategory (final_structured
          (snd (upload_file gating_db (2024, 11, 4) cash_request cash_sheet)) ! 2))"
proof -
  let ?rows = "map fx_columns (final_structured gating_db)"
  let ?t1 = "final_structured (ingestion_fx_pass gating_db ''E1'' ''April'' 2024)"
  let ?t2 = "final_structured (snd (recalculate_avg_fx_rate gating_db (Some ''inr '')))"
  let ?t3 = "final_structured (snd (update_by_particular gating_db (Some '' CASH'')))"
  let ?t4 = "final_structured (fst (snd (calculate_and_save_forex_rates gating_db ?rows
               (build_forex_cache gating_db ?rows) True)))"
  let ?t5 = "final_structured (snd (upload_file gating_db (2024, 11, 4) cash_request cash_sheet))"
  have inv: "fx_gated (final_structured gating_db)" by code_simp
  have pk: "distinct (map sl_no (final_structured gating_db))" by code_simp
  have cm: "code_master_valid gating_db" by code_simp
  have snap: "snapshot_of (final_structured gating_db) ?rows" by code_simp
  note t = fx_gating_invariant[OF inv pk, where ent_code = "''E1''" and month_name = "''April''"
      and year = 2024 and payload_currency = "Some ''inr ''" and payload_particular = "Some '' CASH''"
      and rows = ?rows and forex_cache = "build_forex_cache gating_db ?rows" and save_to_db = True
      and today = "(2024, 11, 4)" and req = cash_request and sheet = cash_sheet]
  have gate: "\<not> sql_blank (mainCategory (table ! i))"
    if "fx_gated table" "i < length table" "Avg_Fx_Rt (table ! i) \<noteq> None" for table i
    using that by (simp add: fx_gated_def)
  have v1: "map Avg_Fx_Rt ?t1 = [Some 1, None, Some 83, Some 1]" by code_simp
  have v2: "map Avg_Fx_Rt ?t2 = [Some 1, None, None, Some 1]" by code_simp
  have v3: "map Avg_Fx_Rt ?t3 = [Some 1, Some 1, None, None]" by code_simp
  have v4: "map Avg_Fx_Rt ?t4 = [Some 1, None, Some 83, Some 1]" by code_simp
  have v5: "map Avg_Fx_Rt ?t5 = [None, Some 1, Some 1]" by code_simp
  have r: "i < length table \<and> Avg_Fx_Rt (table ! i) = Some x"
    if "map Avg_Fx_Rt table = xs" "i < length xs" "xs ! i = Some x" for table xs i x
    using that by auto
  have g1: "\<not> sql_blank (mainCategory (?t1 ! 2))"
    using gate[OF t[THEN conjunct1], of 2] r[OF v1, of 2 83] by simp
  have g2: "\<not> sql_blank (mainCategory (?t2 ! 3))"
    using gate[OF t[THEN conjunct2, THEN conjunct1], of 3] r[OF v2, of 3 1] by simp
  have g3: "\<not> sql_blank (mainCategory (?t3 ! 1))"
    using gate[OF t[THEN conjunct2, THEN conjunct2, THEN conjunct1, THEN mp, OF cm], of 1]
      r[OF v3, of 1 1] by simp
  have g4: "\<not> sql_blank (mainCategory (?t4 ! 0))"
    using gate[OF t[THEN conjunct2, THEN conjunct2, THEN conjunct2, THEN conjunct1, THEN mp, OF snap], of 0]
      r[OF v4, of 0 1] by simp
  have g5: "\<not> sql_blank (mainCategory (?t5 ! 2))"
    using gate[OF t[THEN conjunct2, THEN conjunct2, THEN conjunct2, THEN conjunct2, THEN conjunct1], of 2]
      r[OF v5, of 2 1] by simp
  from v1 g1 v2 g2 v3 g3 g4 v5 g5 show ?thesis by blast
qed

end
